(* ===== verification/Prelude.thy ===== *)
theory Prelude
  imports Main "HOL-Library.Word" "HOL-Library.Sublist"
begin

unbundle bit_operations_syntax

text \<open>
  Shared vocabulary of the development: Go's machine integers and byte slices, the
  error-carrying action used for every Go function that returns an \<open>error\<close>, and the
  generic facts about lists, maps and sums that the component theories share.

  Conventions. A Go \<open>string\<close> is a HOL \<open>string\<close>, one \<open>char\<close> per byte; a \<open>[]byte\<close> is a
  list of 8-bit words; \<open>uint64\<close> is a 64-bit word. A Go \<open>error\<close> value is the message it
  prints, because the modelled code only ever wraps, compares with nil and prints errors
  (where the code inspects the type of an error, the component has a datatype of its own).
  Logging and tracing calls change no state the code reads and are left out.
\<close>

type_synonym u8 = "8 word"
type_synonym u32 = "32 word"
type_synonym u64 = "64 word"
type_synonym bytes = "u8 list"

named_theorems act_simps \<open>unfolding rules of the error-carrying actions\<close>
named_theorems model_defs \<open>definitions of operations that proofs unfold together\<close>

section \<open>Actions that may fail\<close>

text \<open>
  A Go method that mutates its receiver and returns \<open>(T, error)\<close> is a function from the
  state to a result and the state after the call. The state is returned on the error
  branch as well: what the code did before the early return stays done.
\<close>

type_synonym ('s, 'e, 'a) act = "'s \<Rightarrow> ('e + 'a) \<times> 's"

definition act_return :: "'a \<Rightarrow> ('s, 'e, 'a) act" where
  "act_return x = (\<lambda>s. (Inr x, s))"

definition act_fail :: "'e \<Rightarrow> ('s, 'e, 'a) act" where
  "act_fail e = (\<lambda>s. (Inl e, s))"

definition act_bind :: "('s, 'e, 'a) act \<Rightarrow> ('a \<Rightarrow> ('s, 'e, 'b) act) \<Rightarrow> ('s, 'e, 'b) act" where
  "act_bind m f = (\<lambda>s. case m s of (Inl e, t) \<Rightarrow> (Inl e, t) | (Inr x, t) \<Rightarrow> f x t)"

text \<open>\<open>if err := m(); err != nil { return g(err) }\<close>\<close>

definition act_map_err :: "('e \<Rightarrow> 'f) \<Rightarrow> ('s, 'e, 'a) act \<Rightarrow> ('s, 'f, 'a) act" where
  "act_map_err g m = (\<lambda>s. case m s of (Inl e, t) \<Rightarrow> (Inl (g e), t) | (Inr x, t) \<Rightarrow> (Inr x, t))"

text \<open>\<open>fmt.Errorf("msg: %w", err)\<close>\<close>

definition err_wrap :: "string \<Rightarrow> string \<Rightarrow> string" where
  "err_wrap msg e = msg @ '': '' @ e"

abbreviation act_wrap :: "string \<Rightarrow> ('s, string, 'a) act \<Rightarrow> ('s, string, 'a) act" where
  "act_wrap msg \<equiv> act_map_err (err_wrap msg)"

text \<open>A list of steps, each of which may stop the sequence with its error.\<close>

fun act_list :: "('s, 'e, unit) act list \<Rightarrow> ('s, 'e, unit) act" where
  "act_list [] = act_return ()"
| "act_list (m # ms) = act_bind m (\<lambda>_. act_list ms)"

lemma act_return_apply [simp, act_simps]: "act_return x s = (Inr x, s)"
  by (simp add: act_return_def)

lemma act_fail_apply [simp, act_simps]: "act_fail e s = (Inl e, s)"
  by (simp add: act_fail_def)

lemma act_bind_Inr [act_simps]: "m s = (Inr x, t) \<Longrightarrow> act_bind m f s = f x t"
  by (simp add: act_bind_def)

lemma act_bind_Inl [act_simps]: "m s = (Inl e, t) \<Longrightarrow> act_bind m f s = (Inl e, t)"
  by (simp add: act_bind_def)

lemma act_map_err_Inr [act_simps]: "m s = (Inr x, t) \<Longrightarrow> act_map_err g m s = (Inr x, t)"
  by (simp add: act_map_err_def)

lemma act_map_err_Inl [act_simps]: "m s = (Inl e, t) \<Longrightarrow> act_map_err g m s = (Inl (g e), t)"
  by (simp add: act_map_err_def)

text \<open>Running an action whose parts are known: rewriting with these two and the parts' results.\<close>

lemma act_bind_apply [act_simps]:
  "act_bind m f s = (case m s of (Inl e, t) \<Rightarrow> (Inl e, t) | (Inr x, t) \<Rightarrow> f x t)"
  by (simp add: act_bind_def)

lemma act_map_err_apply [act_simps]:
  "act_map_err g m s = (case m s of (Inl e, t) \<Rightarrow> (Inl (g e), t) | (Inr x, t) \<Rightarrow> (Inr x, t))"
  by (simp add: act_map_err_def)

lemmas act_run = act_bind_apply act_map_err_apply act_return_apply act_fail_apply

lemma act_bind_ok_iff:
  "act_bind m f s = (Inr y, u) \<longleftrightarrow> (\<exists>x t. m s = (Inr x, t) \<and> f x t = (Inr y, u))"
  by (auto simp: act_bind_def split: prod.splits sum.splits)

lemma act_map_err_ok_iff: "act_map_err g m s = (Inr x, t) \<longleftrightarrow> m s = (Inr x, t)"
  by (auto simp: act_map_err_def split: prod.splits sum.splits)

lemma act_map_err_fail_iff:
  "act_map_err g m s = (Inl e, t) \<longleftrightarrow> (\<exists>e'. m s = (Inl e', t) \<and> e = g e')"
  by (auto simp: act_map_err_def split: prod.splits sum.splits)

lemma act_bind_fail_iff:
  "act_bind m f s = (Inl e, u) \<longleftrightarrow>
     m s = (Inl e, u) \<or> (\<exists>x t. m s = (Inr x, t) \<and> f x t = (Inl e, u))"
  by (auto simp: act_bind_def split: prod.splits sum.splits)

lemma act_return_iff: "act_return x s = (r, t) \<longleftrightarrow> r = Inr x \<and> t = s"
  by auto

lemma act_fail_iff: "act_fail e s = (r, t) \<longleftrightarrow> r = Inl e \<and> t = s"
  by auto

lemmas act_ok_iff = act_bind_ok_iff act_map_err_ok_iff act_return_iff act_fail_iff
lemmas act_fail_iffs = act_bind_fail_iff act_map_err_fail_iff act_return_iff act_fail_iff

lemma act_list_ok_iff:
  "act_list (m # ms) s = (Inr (), u) \<longleftrightarrow> (\<exists>t. m s = (Inr (), t) \<and> act_list ms t = (Inr (), u))"
  by (auto simp: act_bind_ok_iff)

text \<open>
  Every action of a sequence keeps a relation between the state before and the state
  after that is reflexive and transitive: the whole sequence keeps it.
\<close>

definition act_keeps :: "('s \<Rightarrow> 's \<Rightarrow> bool) \<Rightarrow> ('s, 'e, 'a) act \<Rightarrow> bool" where
  "act_keeps R m \<longleftrightarrow> (\<forall>s. R s (snd (m s)))"

lemma act_keepsI [intro?]: "(\<And>s. R s (snd (m s))) \<Longrightarrow> act_keeps R m"
  by (simp add: act_keeps_def)

lemma act_keepsD: "act_keeps R m \<Longrightarrow> m s = (r, t) \<Longrightarrow> R s t"
  unfolding act_keeps_def by (metis snd_conv)

lemma act_keeps_return: "reflp R \<Longrightarrow> act_keeps R (act_return x)"
  by (simp add: act_keeps_def reflpD)

lemma act_keeps_fail: "reflp R \<Longrightarrow> act_keeps R (act_fail e)"
  by (simp add: act_keeps_def reflpD)

lemma act_keeps_bind:
  assumes "transp R" and "act_keeps R m" and "\<And>x. act_keeps R (f x)"
  shows "act_keeps R (act_bind m f)"
proof
  fix s
  obtain r t where m: "m s = (r, t)" by fastforce
  with assms(2) have st: "R s t" by (rule act_keepsD)
  show "R s (snd (act_bind m f s))"
  proof (cases r)
    case (Inl e)
    with m st show ?thesis by (simp add: act_bind_Inl)
  next
    case (Inr x)
    have "R t (snd (f x t))" using assms(3) by (simp add: act_keeps_def)
    with m Inr st assms(1) show ?thesis by (metis act_bind_Inr transpD)
  qed
qed

lemma act_keeps_map_err: "act_keeps R m \<Longrightarrow> act_keeps R (act_map_err g m)"
  by (simp add: act_keeps_def act_map_err_def split: prod.splits sum.splits) (metis snd_conv)

section \<open>Errors and panics\<close>

text \<open>
  Where a call can panic, its failure says which it was: an \<open>error\<close> returned to the caller
  or a run-time panic.
\<close>

datatype fault = Err string | Panic string

definition to_fault :: "string + 'a \<Rightarrow> fault + 'a" where
  "to_fault r = (case r of Inl e \<Rightarrow> Inl (Err e) | Inr x \<Rightarrow> Inr x)"

definition panics :: "fault + 'a \<Rightarrow> bool" where
  "panics r = (case r of Inl (Panic _) \<Rightarrow> True | _ \<Rightarrow> False)"

lemma panics_simps [simp]: "panics (Inl (Panic m))" "\<not> panics (Inl (Err e))" "\<not> panics (Inr x)"
  by (simp_all add: panics_def)

lemma to_fault_simps [simp]: "to_fault (Inl e) = Inl (Err e)" "to_fault (Inr x) = Inr x"
  by (simp_all add: to_fault_def)

lemma to_fault_no_panic [simp]: "\<not> panics (to_fault r)"
  by (cases r) simp_all

section \<open>Sums and maps\<close>

definition is_ok :: "'e + 'a \<Rightarrow> bool" where
  "is_ok r = (case r of Inl _ \<Rightarrow> False | Inr _ \<Rightarrow> True)"

lemma is_ok_simps [simp]: "is_ok (Inr x)" "\<not> is_ok (Inl e)"
  by (simp_all add: is_ok_def)

lemma is_ok_iff: "is_ok r \<longleftrightarrow> (\<exists>x. r = Inr x)"
  by (cases r) simp_all

lemma not_is_ok_iff: "\<not> is_ok r \<longleftrightarrow> (\<exists>e. r = Inl e)"
  by (cases r) simp_all

lemma unat_byte_less: "unat (b :: u8) < 256"
  using unsigned_less [of b, where 'a = nat] by simp

lemma finite_dom_upd [intro, simp]: "finite (dom m) \<Longrightarrow> finite (dom (m(k := v)))"
  by (rule finite_subset [of _ "insert k (dom m)"]) (auto split: if_splits)

end
