(* ===== verification/GoStrings.thy ===== *)
theory GoStrings
  imports Prelude
begin

text \<open>
  The part of Go's standard library on strings that the modelled code calls:
  \<open>strings.HasPrefix\<close>, \<open>HasSuffix\<close>, \<open>Contains\<close>, \<open>Split\<close>, \<open>ToLower\<close>, \<open>EqualFold\<close>,
  \<open>strconv.ParseUint\<close> in base 10, the \<open>%d\<close> and \<open>%x\<close> verbs and \<open>encoding/hex\<close>.
  \<open>ToLower\<close> and \<open>EqualFold\<close> are Go's on ASCII strings (a byte above 127 is left alone).
\<close>

section \<open>Substrings\<close>

definition has_prefix :: "string \<Rightarrow> string \<Rightarrow> bool" where
  "has_prefix s p = (take (length p) s = p)"

definition has_suffix :: "string \<Rightarrow> string \<Rightarrow> bool" where
  "has_suffix s p = (length p \<le> length s \<and> drop (length s - length p) s = p)"

fun str_contains :: "string \<Rightarrow> string \<Rightarrow> bool" where
  "str_contains [] sub = (sub = [])"
| "str_contains (c # cs) sub = (has_prefix (c # cs) sub \<or> str_contains cs sub)"

text \<open>\<open>strings.Split(s, sep)\<close> for a non-empty separator: the pieces between occurrences.\<close>

function split_on :: "string \<Rightarrow> string \<Rightarrow> string \<Rightarrow> string list" where
  "split_on sep acc s =
     (case s of
        [] \<Rightarrow> [rev acc]
      | c # cs \<Rightarrow>
          if sep \<noteq> [] \<and> has_prefix s sep then rev acc # split_on sep [] (drop (length sep) s)
          else split_on sep (c # acc) cs)"
  by pat_completeness auto
termination
  by (relation "measure (\<lambda>(sep, acc, s). length s)") auto

declare split_on.simps [simp del]

definition go_split :: "string \<Rightarrow> string \<Rightarrow> string list" where
  "go_split s sep = split_on sep [] s"

text \<open>\<open>'%s'\<close> in a format\<close>

definition quoted :: "string \<Rightarrow> string" where
  "quoted s = CHR 0x27 # s @ [CHR 0x27]"

lemma has_prefix_append [simp]: "has_prefix (p @ s) p"
  by (simp add: has_prefix_def)

lemma has_prefixE:
  assumes "has_prefix s p"
  obtains t where "s = p @ t"
  using assms unfolding has_prefix_def by (metis append_take_drop_id)

lemma has_prefix_iff: "has_prefix s p \<longleftrightarrow> (\<exists>t. s = p @ t)"
  by (auto elim: has_prefixE)

lemma has_prefix_Nil [simp]: "has_prefix s []"
  by (simp add: has_prefix_def)

lemma has_suffix_append [simp]: "has_suffix (s @ p) p"
  by (simp add: has_suffix_def)

lemma has_suffix_iff: "has_suffix s p \<longleftrightarrow> (\<exists>t. s = t @ p)"
  unfolding has_suffix_def
  by (metis append_eq_conv_conj append_take_drop_id diff_add_inverse2 le_add2 length_append)

lemma str_contains_iff: "str_contains s sub \<longleftrightarrow> (\<exists>a b. s = a @ sub @ b)"
proof (induction s)
  case Nil
  then show ?case by auto
next
  case (Cons c cs)
  show ?case
  proof
    assume "str_contains (c # cs) sub"
    then consider "has_prefix (c # cs) sub" | "str_contains cs sub" by auto
    then show "\<exists>a b. c # cs = a @ sub @ b"
    proof cases
      case 1
      then obtain t where "c # cs = sub @ t" by (auto simp: has_prefix_iff)
      then have "c # cs = [] @ sub @ t" by simp
      then show ?thesis by blast
    next
      case 2
      then obtain a b where "cs = a @ sub @ b" using Cons.IH by blast
      then have "c # cs = (c # a) @ sub @ b" by simp
      then show ?thesis by blast
    qed
  next
    assume "\<exists>a b. c # cs = a @ sub @ b"
    then obtain a b where ab: "c # cs = a @ sub @ b" by blast
    show "str_contains (c # cs) sub"
    proof (cases a)
      case Nil
      with ab have "has_prefix (c # cs) sub" by (auto simp: has_prefix_iff)
      then show ?thesis by simp
    next
      case (Cons d ds)
      with ab show ?thesis using Cons.IH by auto
    qed
  qed
qed

text \<open>A separator that is one character: the pieces contain it nowhere.\<close>

lemma split_on_no_sep: "sep \<notin> set s \<Longrightarrow> split_on [sep] acc s = [rev acc @ s]"
  by (induction s arbitrary: acc) (auto simp: split_on.simps has_prefix_def)

lemma split_on_char_append:
  "sep \<notin> set a \<Longrightarrow> split_on [sep] acc (a @ sep # b) = (rev acc @ a) # split_on [sep] [] b"
proof (induction a arbitrary: acc)
  case Nil
  then show ?case by (simp add: split_on.simps [of _ acc "sep # b"] has_prefix_def)
next
  case (Cons c cs)
  then show ?case
    by (auto simp: split_on.simps [of _ acc "c # cs @ sep # b"] has_prefix_def)
qed

lemma go_split_five:
  assumes "sep \<notin> set a" "sep \<notin> set b" "sep \<notin> set c" "sep \<notin> set d" "sep \<notin> set e"
  shows "go_split (a @ sep # b @ sep # c @ sep # d @ sep # e) [sep] = [a, b, c, d, e]"
  by (simp add: go_split_def assms split_on_char_append split_on_no_sep)

lemma tail_split:
  assumes "pre @ r = a @ suf" and "length suf \<le> length r"
  shows "take (length r - length suf) r @ suf = r"
proof -
  have "length pre + length r = length a + length suf" using assms(1) by (metis length_append)
  then have "length a = length pre + (length r - length suf)" using assms(2) by arith
  then have "suf = drop (length pre + (length r - length suf)) (pre @ r)"
    using assms(1) by (metis append_eq_conv_conj)
  also have "\<dots> = drop (length r - length suf) r" by simp
  finally show ?thesis by (metis append_take_drop_id)
qed

text \<open>A separator of two characters whose first one occurs in no piece.\<close>

lemma split_on_two_no_sep: "x \<notin> set s \<Longrightarrow> split_on [x, y] acc s = [rev acc @ s]"
  by (induction s arbitrary: acc) (auto simp: split_on.simps has_prefix_def)

lemma split_on_two_append:
  "x \<notin> set a \<Longrightarrow> split_on [x, y] acc (a @ x # y # b) = (rev acc @ a) # split_on [x, y] [] b"
proof (induction a arbitrary: acc)
  case Nil
  then show ?case by (simp add: split_on.simps [of _ acc "x # y # b"] has_prefix_def)
next
  case (Cons c cs)
  then show ?case
    by (auto simp: split_on.simps [of _ acc "c # cs @ x # y # b"] has_prefix_def)
qed

lemma go_split_two: "x \<notin> set a \<Longrightarrow> x \<notin> set b \<Longrightarrow> go_split (a @ [x, y] @ b) [x, y] = [a, b]"
  by (simp add: go_split_def split_on_two_append split_on_two_no_sep)

section \<open>Letter case\<close>

definition lower_char :: "char \<Rightarrow> char" where
  "lower_char c = (let n = (of_char c :: nat) in if 65 \<le> n \<and> n \<le> 90 then char_of (n + 32) else c)"

definition to_lower :: "string \<Rightarrow> string" where
  "to_lower s = map lower_char s"

definition equal_fold :: "string \<Rightarrow> string \<Rightarrow> bool" where
  "equal_fold s t = (to_lower s = to_lower t)"

lemma lower_char_idem [simp]: "lower_char (lower_char c) = lower_char c"
  by (auto simp: lower_char_def Let_def of_char_of)

lemma to_lower_idem [simp]: "to_lower (to_lower s) = to_lower s"
  by (simp add: to_lower_def)

lemma to_lower_append: "to_lower (a @ b) = to_lower a @ to_lower b"
  by (simp add: to_lower_def)

section \<open>Decimal numbers\<close>

definition digit_char :: "nat \<Rightarrow> char" where
  "digit_char n = char_of (48 + n)"

fun dec_of_nat :: "nat \<Rightarrow> string" where
  "dec_of_nat n = (if n < 10 then [digit_char n] else dec_of_nat (n div 10) @ [digit_char (n mod 10)])"

declare dec_of_nat.simps [simp del]

text \<open>\<open>fmt.Sprintf("%d")\<close> of a Go int\<close>

definition dec_of_int :: "int \<Rightarrow> string" where
  "dec_of_int i = (if i < 0 then CHR ''-'' # dec_of_nat (nat (- i)) else dec_of_nat (nat i))"

definition digit_val :: "char \<Rightarrow> nat option" where
  "digit_val c = (let n = (of_char c :: nat) in if 48 \<le> n \<and> n \<le> 57 then Some (n - 48) else None)"

text \<open>\<open>strconv.ParseUint(s, 10, 64)\<close>: the value, or an error for an empty string, a
  character that is no digit, or a value above \<open>2 ^ 64 - 1\<close>.\<close>

fun parse_digits :: "nat \<Rightarrow> string \<Rightarrow> string + nat" where
  "parse_digits acc [] = Inr acc"
| "parse_digits acc (c # cs) =
     (case digit_val c of
        None \<Rightarrow> Inl ''invalid syntax''
      | Some d \<Rightarrow> if 2 ^ 64 \<le> acc * 10 + d then Inl ''value out of range''
                  else parse_digits (acc * 10 + d) cs)"

definition parse_uint :: "string \<Rightarrow> string + nat" where
  "parse_uint s = (if s = [] then Inl ''invalid syntax'' else parse_digits 0 s)"

lemma digit_val_char: "d < 10 \<Longrightarrow> digit_val (digit_char d) = Some d"
  by (simp add: digit_val_def digit_char_def Let_def of_char_of)

lemma dec_of_nat_nonempty [simp]: "dec_of_nat n \<noteq> []"
  by (subst dec_of_nat.simps) simp

lemma dec_of_nat_digits: "c \<in> set (dec_of_nat n) \<Longrightarrow> \<exists>d < 10. c = digit_char d"
proof (induction n rule: dec_of_nat.induct)
  case (1 n)
  show ?case
  proof (cases "n < 10")
    case True
    with "1.prems" show ?thesis by (subst (asm) dec_of_nat.simps) auto
  next
    case False
    with "1.prems" have "c \<in> set (dec_of_nat (n div 10)) \<or> c = digit_char (n mod 10)"
      by (subst (asm) dec_of_nat.simps) auto
    with False "1.IH" show ?thesis by (auto intro: exI [of _ "n mod 10"])
  qed
qed

lemma dec_of_nat_no_char:
  assumes "digit_val c = None"
  shows "c \<notin> set (dec_of_nat n)"
proof
  assume "c \<in> set (dec_of_nat n)"
  then obtain d where "d < 10" and "c = digit_char d" by (blast dest: dec_of_nat_digits)
  with assms show False by (simp add: digit_val_char)
qed

lemma parse_digits_append:
  "parse_digits acc (s @ t) = (case parse_digits acc s of Inl e \<Rightarrow> Inl e | Inr v \<Rightarrow> parse_digits v t)"
  by (induction s arbitrary: acc) (auto split: option.splits)

lemma parse_digits_dec: "n < 2 ^ 64 \<Longrightarrow> parse_digits 0 (dec_of_nat n) = Inr n"
proof (induction n rule: dec_of_nat.induct)
  case (1 n)
  show ?case
  proof (cases "n < 10")
    case True
    with "1.prems" show ?thesis
      by (subst dec_of_nat.simps) (simp add: digit_val_char)
  next
    case False
    have "n div 10 < 2 ^ 64" using "1.prems" by (rule le_less_trans [OF div_le_dividend])
    with False "1.IH" have ih: "parse_digits 0 (dec_of_nat (n div 10)) = Inr (n div 10)" by blast
    have eq: "n div 10 * 10 + n mod 10 = n" by simp
    have "dec_of_nat n = dec_of_nat (n div 10) @ [digit_char (n mod 10)]"
      using False by (subst dec_of_nat.simps) simp
    then have "parse_digits 0 (dec_of_nat n) = parse_digits (n div 10) [digit_char (n mod 10)]"
      by (simp only: parse_digits_append ih sum.case)
    also have "\<dots> = Inr n" using "1.prems" by (simp add: digit_val_char eq)
    finally show ?thesis .
  qed
qed

lemma parse_uint_dec [simp]: "n < 2 ^ 64 \<Longrightarrow> parse_uint (dec_of_nat n) = Inr n"
  by (simp add: parse_uint_def parse_digits_dec)

lemma parse_digits_bound: "parse_digits acc s = Inr v \<Longrightarrow> acc < 2 ^ 64 \<Longrightarrow> v < 2 ^ 64"
  by (induction acc s rule: parse_digits.induct) (auto split: option.splits if_splits)

lemma parse_uint_bound: "parse_uint s = Inr v \<Longrightarrow> v < 2 ^ 64"
  by (auto simp: parse_uint_def dest!: parse_digits_bound split: if_splits)

text \<open>\<open>%d\<close> is injective on all numbers: the value can be read back digit by digit.\<close>

definition dec_value :: "string \<Rightarrow> nat" where
  "dec_value s = foldl (\<lambda>v c. v * 10 + the (digit_val c)) 0 s"

lemma dec_value_of_nat [simp]: "dec_value (dec_of_nat n) = n"
proof (induction n rule: dec_of_nat.induct)
  case (1 n)
  then show ?case
    by (subst dec_of_nat.simps) (simp add: dec_value_def digit_val_char)
qed

lemma dec_of_nat_eq_iff [simp]: "dec_of_nat m = dec_of_nat n \<longleftrightarrow> m = n"
  by (metis dec_value_of_nat)

section \<open>Hexadecimal\<close>

definition hex_char :: "nat \<Rightarrow> char" where
  "hex_char n = char_of (if n < 10 then 48 + n else 87 + n)"

definition hex_of_byte :: "u8 \<Rightarrow> string" where
  "hex_of_byte b = [hex_char (unat b div 16), hex_char (unat b mod 16)]"

text \<open>\<open>fmt.Sprintf("%x", b)\<close> and \<open>hex.EncodeToString\<close>\<close>

definition hex_of_bytes :: "bytes \<Rightarrow> string" where
  "hex_of_bytes bs = concat (map hex_of_byte bs)"

definition hex_val :: "char \<Rightarrow> nat option" where
  "hex_val c = (let n = (of_char c :: nat) in
     if 48 \<le> n \<and> n \<le> 57 then Some (n - 48)
     else if 97 \<le> n \<and> n \<le> 102 then Some (n - 87)
     else if 65 \<le> n \<and> n \<le> 70 then Some (n - 55)
     else None)"

text \<open>\<open>hex.Decode\<close>: both cases of letters, an error on other characters and on odd length.\<close>

fun hex_decode :: "string \<Rightarrow> string + bytes" where
  "hex_decode [] = Inr []"
| "hex_decode [c] = (case hex_val c of None \<Rightarrow> Inl ''invalid byte'' | Some _ \<Rightarrow> Inl ''odd length hex string'')"
| "hex_decode (c # d # cs) =
     (case hex_val c of
        None \<Rightarrow> Inl ''invalid byte''
      | Some hi \<Rightarrow>
          (case hex_val d of
             None \<Rightarrow> Inl ''invalid byte''
           | Some lo \<Rightarrow>
               (case hex_decode cs of Inl e \<Rightarrow> Inl e | Inr bs \<Rightarrow> Inr (word_of_nat (hi * 16 + lo) # bs))))"

lemma hex_val_char: "n < 16 \<Longrightarrow> hex_val (hex_char n) = Some n"
  by (auto simp: hex_val_def hex_char_def Let_def of_char_of)

lemma hex_decode_encode [simp]: "hex_decode (hex_of_bytes bs) = Inr bs"
proof (induction bs)
  case Nil
  then show ?case by (simp add: hex_of_bytes_def)
next
  case (Cons b bs)
  have lt: "unat b < 256" by (rule unat_byte_less)
  then have hi: "unat b div 16 < 16" and lo: "unat b mod 16 < 16" by auto
  have eq: "unat b div 16 * 16 + unat b mod 16 = unat b" by simp
  from Cons show ?case
    by (simp add: hex_of_bytes_def hex_of_byte_def hex_val_char [OF hi] hex_val_char [OF lo] eq)
qed

lemma length_hex_of_bytes [simp]: "length (hex_of_bytes bs) = 2 * length bs"
  by (induction bs) (simp_all add: hex_of_bytes_def hex_of_byte_def)

lemma hex_decode_length: "hex_decode s = Inr bs \<Longrightarrow> length s = 2 * length bs"
  by (induction s arbitrary: bs rule: hex_decode.induct) (auto split: option.splits sum.splits)

lemma hex_char_inj_set: "c \<in> set (hex_of_bytes bs) \<Longrightarrow> \<exists>n < 16. c = hex_char n"
proof -
  assume "c \<in> set (hex_of_bytes bs)"
  then obtain b where "b \<in> set bs" and c: "c = hex_char (unat b div 16) \<or> c = hex_char (unat b mod 16)"
    by (auto simp: hex_of_bytes_def hex_of_byte_def)
  have "unat b < 256" by (rule unat_byte_less)
  then have "unat b div 16 < 16" "unat b mod 16 < 16" by auto
  with c show ?thesis by blast
qed

lemma hex_of_bytes_no_char:
  assumes "hex_val c = None"
  shows "c \<notin> set (hex_of_bytes bs)"
  using assms hex_val_char by (auto dest!: hex_char_inj_set)

section \<open>Bytes as text\<close>

definition str_of_bytes :: "bytes \<Rightarrow> string" where
  "str_of_bytes bs = map (\<lambda>b. char_of (unat b)) bs"

definition bytes_of_str :: "string \<Rightarrow> bytes" where
  "bytes_of_str s = map (\<lambda>c. word_of_nat (of_char c)) s"

lemma bytes_of_str_of_bytes [simp]: "bytes_of_str (str_of_bytes bs) = bs"
proof (induction bs)
  case Nil
  then show ?case by (simp add: bytes_of_str_def str_of_bytes_def)
next
  case (Cons b bs)
  have "of_char (char_of (unat b)) = unat b"
    using unat_byte_less [of b] by (simp add: of_char_of)
  with Cons show ?case by (simp add: bytes_of_str_def str_of_bytes_def)
qed

lemma length_str_of_bytes [simp]: "length (str_of_bytes bs) = length bs"
  by (simp add: str_of_bytes_def)

text \<open>\<open>fmt.Sprintf("%#x", n)\<close> of an unsigned integer: no leading zeros.\<close>

fun hex_of_nat :: "nat \<Rightarrow> string" where
  "hex_of_nat n = (if n < 16 then [hex_char n] else hex_of_nat (n div 16) @ [hex_char (n mod 16)])"

declare hex_of_nat.simps [simp del]

end
