(* ===== verification/Topics.thy ===== *)
theory Topics
  imports GoStrings
begin

text \<open>
  Typed gossipsub topics: \<open>pkg/consensus/mimicry/p2p/pubsub/v1/topic.go\<close>. The type parameter of
  a topic is a phantom and has no counterpart here. Subnet numbers are 64-bit words.
\<close>

section \<open>Topics and their names\<close>

record topic =
  t_name :: string

definition new_topic :: "string \<Rightarrow> string + topic" where
  "new_topic name = (if name = [] then Inl ''topic name cannot be empty'' else Inr \<lparr>t_name = name\<rparr>)"

definition with_fork_digest :: "topic \<Rightarrow> bytes \<Rightarrow> topic" where
  "with_fork_digest t fork_digest =
     \<lparr>t_name = ''/eth2/'' @ hex_of_bytes fork_digest @ ''/'' @ t_name t @ ''/ssz_snappy''\<rparr>"

record subnet_topic =
  st_pattern :: string
  st_max_subnets :: u64

definition new_subnet_topic :: "string \<Rightarrow> u64 \<Rightarrow> string + subnet_topic" where
  "new_subnet_topic pattern max_subnets =
     (if pattern = [] then Inl ''subnet topic pattern cannot be empty''
      else if \<not> str_contains pattern ''%d'' then
        Inl ''subnet topic pattern must contain '%d' placeholder for subnet ID''
      else if max_subnets = 0 then Inl ''maxSubnets must be greater than 0''
      else Inr \<lparr>st_pattern = pattern, st_max_subnets = max_subnets\<rparr>)"

text \<open>
  \<open>fmt.Sprintf(pattern, subnet)\<close> with its one argument, for formats built from text, \<open>%d\<close> and
  \<open>%%\<close>: the first \<open>%d\<close> takes the argument, a later one finds none, an unused argument is
  reported at the end. Other verbs are outside the model and stay as they are.
\<close>

fun sprintf_d :: "string \<Rightarrow> u64 option \<Rightarrow> string" where
  "sprintf_d [] None = []"
| "sprintf_d [] (Some n) = ''%!(EXTRA uint64='' @ dec_of_nat (unat n) @ '')''"
| "sprintf_d (c # cs) arg =
     (if c = CHR ''%'' then
        (case cs of
           [] \<Rightarrow> ''%!(NOVERB)'' @ sprintf_d [] arg
         | v # cs' \<Rightarrow>
             if v = CHR ''d'' then
               (case arg of
                  Some n \<Rightarrow> dec_of_nat (unat n) @ sprintf_d cs' None
                | None \<Rightarrow> ''%!d(MISSING)'' @ sprintf_d cs' None)
             else if v = CHR ''%'' then v # sprintf_d cs' arg
             else c # v # sprintf_d cs' arg)
      else c # sprintf_d cs arg)"

definition topic_for_subnet :: "subnet_topic \<Rightarrow> u64 \<Rightarrow> bytes \<Rightarrow> string + topic" where
  "topic_for_subnet st subnet fork_digest =
     (if st_max_subnets st \<le> subnet then
        Inl (''subnet '' @ dec_of_nat (unat subnet) @ '' exceeds maximum '' @ dec_of_nat (unat (st_max_subnets st - 1)))
      else Inr (with_fork_digest \<lparr>t_name = sprintf_d (st_pattern st) (Some subnet)\<rparr> fork_digest))"

text \<open>The first step of \<open>ParseSubnet\<close>: \<open>/eth2/<fork_digest>/<topic_name>/ssz_snappy\<close>.\<close>

definition strip_eth2 :: "string \<Rightarrow> string" where
  "strip_eth2 name =
     (if has_prefix name ''/eth2/'' then
        (let parts = go_split name ''/'' in if 4 \<le> length parts then parts ! 3 else name)
      else name)"

text \<open>
  \<open>ParseSubnet\<close>. The slice \<open>subnetStr[:len(subnetStr)-len(patternSuffix)]\<close> panics when the prefix
  and the suffix overlap in the name, since both checks were made on the whole name.
\<close>

definition parse_subnet :: "subnet_topic \<Rightarrow> string \<Rightarrow> fault + u64" where
  "parse_subnet st topic_name =
     (let name = strip_eth2 topic_name;
          parts = go_split (st_pattern st) ''%d'';
          pattern_prefix = parts ! 0;
          pattern_suffix = (if 1 < length parts then parts ! 1 else []) in
      if \<not> has_prefix name pattern_prefix then
        Inl (Err (''topic '' @ quoted name @ '' does not match pattern prefix '' @ quoted pattern_prefix))
      else if pattern_suffix \<noteq> [] \<and> \<not> has_suffix name pattern_suffix then
        Inl (Err (''topic '' @ quoted name @ '' does not match pattern suffix '' @ quoted pattern_suffix))
      else
        (let subnet_str = drop (length pattern_prefix) name in
         if pattern_suffix \<noteq> [] \<and> length subnet_str < length pattern_suffix then
           Inl (Panic ''slice bounds out of range'')
         else
           (let digits = (if pattern_suffix \<noteq> [] then take (length subnet_str - length pattern_suffix) subnet_str
                          else subnet_str) in
            case parse_uint digits of
              Inl e \<Rightarrow> Inl (Err (''failed to parse subnet ID from '' @ quoted digits @ '': '' @ e))
            | Inr subnet \<Rightarrow>
                if st_max_subnets st \<le> word_of_nat subnet then
                  Inl (Err (''parsed subnet '' @ dec_of_nat subnet @ '' exceeds maximum '' @
                    dec_of_nat (unat (st_max_subnets st - 1))))
                else Inr (word_of_nat subnet))))"

section \<open>Patterns with one placeholder\<close>

text \<open>
  A pattern of the usual form: one \<open>%d\<close> between texts without \<open>%\<close> and \<open>/\<close>.
\<close>

definition plain_text :: "string \<Rightarrow> bool" where
  "plain_text s = (CHR ''%'' \<notin> set s \<and> CHR ''/'' \<notin> set s)"

definition simple_pattern :: "subnet_topic \<Rightarrow> string \<Rightarrow> string \<Rightarrow> bool" where
  "simple_pattern st pre suf = (st_pattern st = pre @ ''%d'' @ suf \<and> plain_text pre \<and> plain_text suf)"

lemma simple_pattern_split:
  "simple_pattern st pre suf \<Longrightarrow> go_split (st_pattern st) ''%d'' = [pre, suf]"
  by (simp add: simple_pattern_def plain_text_def go_split_two [simplified])

lemma sprintf_d_plain: "CHR ''%'' \<notin> set s \<Longrightarrow> sprintf_d (s @ t) arg = s @ sprintf_d t arg"
  by (induction s) auto

lemma sprintf_d_simple:
  assumes "simple_pattern st pre suf"
  shows "sprintf_d (st_pattern st) (Some n) = pre @ dec_of_nat (unat n) @ suf"
proof -
  have "sprintf_d (suf @ []) None = suf"
    using assms sprintf_d_plain [of suf "[]" None] by (simp add: simple_pattern_def plain_text_def)
  then show ?thesis
    using assms by (simp add: simple_pattern_def plain_text_def sprintf_d_plain)
qed

lemma dec_of_nat_plain: "CHR ''/'' \<notin> set (dec_of_nat n)" "CHR ''%'' \<notin> set (dec_of_nat n)"
  by (simp_all add: dec_of_nat_no_char digit_val_def)

lemma hex_plain: "CHR ''/'' \<notin> set (hex_of_bytes bs)"
  by (simp add: hex_of_bytes_no_char hex_val_def)

text \<open>The prefix that \<open>WithForkDigest\<close> puts on, \<open>ParseSubnet\<close> takes off.\<close>

lemma strip_with_fork_digest:
  assumes "CHR ''/'' \<notin> set name"
  shows "strip_eth2 (t_name (with_fork_digest \<lparr>t_name = name\<rparr> fd)) = name"
proof -
  let ?full = "''/eth2/'' @ hex_of_bytes fd @ ''/'' @ name @ ''/ssz_snappy''"
  have "go_split ?full ''/'' = [[], ''eth2'', hex_of_bytes fd, name, ''ssz_snappy'']"
    using go_split_five [of "CHR ''/''" "[]" "''eth2''" "hex_of_bytes fd" name "''ssz_snappy''"] assms hex_plain
    by simp
  moreover have "has_prefix ?full ''/eth2/''" by (simp only: has_prefix_append)
  ultimately show ?thesis by (simp add: strip_eth2_def with_fork_digest_def)
qed

lemma strip_plain: "CHR ''/'' \<notin> set name \<Longrightarrow> strip_eth2 name = name"
  by (auto simp: strip_eth2_def has_prefix_iff)

lemma parse_subnet_base:
  assumes "simple_pattern st pre suf" and "strip_eth2 name = pre @ dec_of_nat (unat n) @ suf"
  shows "parse_subnet st name = (if n < st_max_subnets st then Inr n
     else Inl (Err (''parsed subnet '' @ dec_of_nat (unat n) @ '' exceeds maximum '' @
                    dec_of_nat (unat (st_max_subnets st - 1)))))"
proof -
  have "unat n < 2 ^ 64" using unsigned_less [of n, where 'a = nat] by simp
  then have "parse_uint (dec_of_nat (unat n)) = Inr (unat n)" by (rule parse_uint_dec)
  moreover have "has_suffix (pre @ dec_of_nat (unat n) @ suf) suf"
    using has_suffix_append [of "pre @ dec_of_nat (unat n)" suf] by simp
  ultimately show ?thesis
    using assms by (auto simp: parse_subnet_def simple_pattern_split Let_def)
qed

lemma parse_topic_for_subnet:
  assumes "simple_pattern st pre suf" and "topic_for_subnet st n fork_digest = Inr t"
  shows "parse_subnet st (t_name t) = Inr n"
proof -
  have lt: "n < st_max_subnets st"
    and t: "t = with_fork_digest \<lparr>t_name = pre @ dec_of_nat (unat n) @ suf\<rparr> fork_digest"
    using assms(2) by (auto simp: topic_for_subnet_def sprintf_d_simple [OF assms(1)] split: if_splits)
  have "CHR ''/'' \<notin> set (pre @ dec_of_nat (unat n) @ suf)"
    using assms(1) dec_of_nat_plain by (simp add: simple_pattern_def plain_text_def)
  from parse_subnet_base [OF assms(1), of "t_name t"] strip_with_fork_digest [OF this] lt t
  show ?thesis by simp
qed

text \<open>
  C17: the name \<open>TopicForSubnet\<close> makes for a subnet and a fork digest is parsed back to the same
  subnet by \<open>ParseSubnet\<close>, for every pattern of the usual form, every subnet below the maximum and
  every fork digest.
\<close>

theorem subnet_topic_roundtrip:
  assumes "simple_pattern st pre suf" and "topic_for_subnet st n fork_digest = Inr t"
  shows "parse_subnet st (t_name t) = Inr n"
  using assms by (rule parse_topic_for_subnet)

lemma subnet_topic_roundtrip_witness:
  "parse_subnet \<lparr>st_pattern = ''beacon_attestation_%d'', st_max_subnets = 64\<rparr>
     ''/eth2/6a95a1a9/beacon_attestation_42/ssz_snappy'' = Inr 42"
proof -
  let ?st = "\<lparr>st_pattern = ''beacon_attestation_%d'', st_max_subnets = 64\<rparr>"
  have "topic_for_subnet ?st 42 [0x6A, 0x95, 0xA1, 0xA9] =
      Inr \<lparr>t_name = ''/eth2/6a95a1a9/beacon_attestation_42/ssz_snappy''\<rparr>" by code_simp
  from subnet_topic_roundtrip [OF _ this, of "''beacon_attestation_''" "[]"] show ?thesis
    by (simp add: simple_pattern_def plain_text_def)
qed

text \<open>
  \<open>TopicForSubnet\<close> accepts exactly the subnets below the maximum, and two accepted calls make
  the same topic name only for the same subnet.
\<close>

theorem topic_for_subnet_exact:
  assumes "simple_pattern st pre suf"
  shows "(is_ok (topic_for_subnet st n fd) \<longleftrightarrow> n < st_max_subnets st) \<and>
         (is_ok (topic_for_subnet st n fd) \<longrightarrow> topic_for_subnet st n fd = topic_for_subnet st m fd' \<longrightarrow> m = n)"
proof (intro conjI impI)
  show "is_ok (topic_for_subnet st n fd) \<longleftrightarrow> n < st_max_subnets st"
    by (auto simp: topic_for_subnet_def)
next
  assume "is_ok (topic_for_subnet st n fd)" and eq: "topic_for_subnet st n fd = topic_for_subnet st m fd'"
  then obtain t where t: "topic_for_subnet st n fd = Inr t" by (auto simp: is_ok_iff)
  from parse_topic_for_subnet [OF assms t] parse_topic_for_subnet [OF assms, of m fd' t] t eq
  show "m = n" by simp
qed

text \<open>
  whatever the topic name, a subnet \<open>ParseSubnet\<close> returns is below the maximum, and the name
  (without the fork digest) is the pattern's prefix, decimal digits with that value, and the
  pattern's suffix.
\<close>

theorem parse_subnet_sound:
  assumes "simple_pattern st pre suf" and "parse_subnet st name = Inr n"
  shows "n < st_max_subnets st \<and> (\<exists>digits. strip_eth2 name = pre @ digits @ suf \<and> parse_uint digits = Inr (unat n))"
proof -
  let ?name = "strip_eth2 name"
  let ?rest = "drop (length pre) ?name"
  let ?digits = "if suf \<noteq> [] then take (length ?rest - length suf) ?rest else ?rest"
  from assms have pre: "has_prefix ?name pre" and suf: "suf = [] \<or> has_suffix ?name suf"
    and len: "suf = [] \<or> length suf \<le> length ?rest"
    by (auto simp: parse_subnet_def simple_pattern_split Let_def split: if_splits)
  from assms pre suf len obtain v where v: "parse_uint ?digits = Inr v" and "n = word_of_nat v"
    and "\<not> st_max_subnets st \<le> (word_of_nat v :: u64)"
    by (auto simp: parse_subnet_def simple_pattern_split Let_def split: if_splits sum.splits)
  moreover have "v < 2 ^ 64" using v by (rule parse_uint_bound)
  then have "unat (word_of_nat v :: u64) = v" by (simp add: unsigned_of_nat take_bit_nat_eq_self)
  moreover have "?name = pre @ ?digits @ suf"
  proof -
    from pre obtain r where r: "?name = pre @ r" by (rule has_prefixE)
    show ?thesis
    proof (cases "suf = []")
      case True
      with r show ?thesis by simp
    next
      case False
      with suf obtain a where a: "?name = a @ suf" by (auto simp: has_suffix_iff)
      from False len r have "length suf \<le> length r" by simp
      with r a have "take (length r - length suf) r @ suf = r" by (intro tail_split [of pre r a suf]) simp_all
      with r False show ?thesis by simp
    qed
  qed
  ultimately show ?thesis by (auto simp: not_le)
qed

lemma topic_for_subnet_exact_witness:
  "is_ok (topic_for_subnet \<lparr>st_pattern = ''sync_committee_%d'', st_max_subnets = 4\<rparr> 3 [1, 2, 3, 4]) \<and>
   \<not> is_ok (topic_for_subnet \<lparr>st_pattern = ''sync_committee_%d'', st_max_subnets = 4\<rparr> 4 [1, 2, 3, 4])"
proof -
  have "simple_pattern \<lparr>st_pattern = ''sync_committee_%d'', st_max_subnets = 4\<rparr> ''sync_committee_'' []"
    by (simp add: simple_pattern_def plain_text_def)
  from topic_for_subnet_exact [OF this, of 3 "[1, 2, 3, 4]"] topic_for_subnet_exact [OF this, of 4 "[1, 2, 3, 4]"]
  show ?thesis by simp
qed

lemma parse_subnet_sound_witness:
  "(3 :: u64) < 4 \<and> (\<exists>digits. strip_eth2 ''sync_committee_3'' = ''sync_committee_'' @ digits @ [] \<and>
     parse_uint digits = Inr (unat (3 :: u64)))"
proof -
  have simple: "simple_pattern \<lparr>st_pattern = ''sync_committee_%d'', st_max_subnets = 4\<rparr> ''sync_committee_'' []"
    by (simp add: simple_pattern_def plain_text_def)
  have "strip_eth2 ''sync_committee_3'' = ''sync_committee_'' @ dec_of_nat (unat (3 :: u64)) @ []" by code_simp
  from parse_subnet_base [OF simple this]
  have "parse_subnet \<lparr>st_pattern = ''sync_committee_%d'', st_max_subnets = 4\<rparr> ''sync_committee_3'' = Inr 3" by simp
  from parse_subnet_sound [OF simple this] show ?thesis by simp
qed

text \<open>
  \<open>ParseSubnet\<close> panics on exactly the names that match both ends of the pattern but are too
  short to hold both, so that prefix and suffix overlap; such names come from the network.
\<close>

theorem parse_subnet_panics_iff:
  assumes "simple_pattern st pre suf"
  shows "panics (parse_subnet st name) \<longleftrightarrow>
     has_prefix (strip_eth2 name) pre \<and> has_suffix (strip_eth2 name) suf \<and> suf \<noteq> [] \<and>
     length (strip_eth2 name) < length pre + length suf"
proof -
  have "length (drop (length pre) (strip_eth2 name)) < length suf \<longleftrightarrow> length (strip_eth2 name) < length pre + length suf"
    if "has_prefix (strip_eth2 name) pre" using that by (auto simp: has_prefix_iff)
  then show ?thesis
    by (auto simp: parse_subnet_def simple_pattern_split [OF assms] Let_def split: sum.splits)
qed

lemma parse_subnet_panics_iff_witness:
  "panics (parse_subnet \<lparr>st_pattern = ''x_%d_y'', st_max_subnets = 4\<rparr> ''/eth2/00000000/x_y/ssz_snappy'')"
proof -
  have "simple_pattern \<lparr>st_pattern = ''x_%d_y'', st_max_subnets = 4\<rparr> ''x_'' ''_y''"
    by (simp add: simple_pattern_def plain_text_def)
  moreover have "strip_eth2 ''/eth2/00000000/x_y/ssz_snappy'' = ''x_y''" by code_simp
  ultimately show ?thesis
    using parse_subnet_panics_iff [of _ "''x_''" "''_y''" "''/eth2/00000000/x_y/ssz_snappy''"]
    by (simp add: has_prefix_def has_suffix_def)
qed

section \<open>The Ethereum topics\<close>

text \<open>\<open>eth/topics/definitions.go\<close>\<close>

definition regular_topic_names :: "string list" where
  "regular_topic_names = [''beacon_block'', ''beacon_aggregate_and_proof'', ''voluntary_exit'',
     ''proposer_slashing'', ''attester_slashing'', ''bls_to_execution_change'',
     ''sync_committee_contribution_and_proof'']"

definition BeaconAttestationTopicPattern :: string where
  "BeaconAttestationTopicPattern = ''beacon_attestation_%d''"

definition SyncCommitteeTopicPattern :: string where
  "SyncCommitteeTopicPattern = ''sync_committee_%d''"

definition AttestationSubnetCount :: u64 where
  "AttestationSubnetCount = 64"

definition SyncCommitteeSubnetCount :: u64 where
  "SyncCommitteeSubnetCount = 4"

definition must_create_topic :: "string \<Rightarrow> fault + topic" where
  "must_create_topic name =
     (case new_topic name of Inl e \<Rightarrow> Inl (Panic (''failed to create topic '' @ name @ '': '' @ e)) | Inr t \<Rightarrow> Inr t)"

definition must_create_subnet_topic :: "string \<Rightarrow> u64 \<Rightarrow> fault + subnet_topic" where
  "must_create_subnet_topic pattern max_subnets =
     (case new_subnet_topic pattern max_subnets of
        Inl e \<Rightarrow> Inl (Panic (''failed to create subnet topic '' @ pattern @ '': '' @ e))
      | Inr t \<Rightarrow> Inr t)"

definition regular_topics :: "(fault + topic) list" where
  "regular_topics = map must_create_topic regular_topic_names"

definition eth_attestation :: "fault + subnet_topic" where
  "eth_attestation = must_create_subnet_topic BeaconAttestationTopicPattern AttestationSubnetCount"

definition eth_sync_committee :: "fault + subnet_topic" where
  "eth_sync_committee = must_create_subnet_topic SyncCommitteeTopicPattern SyncCommitteeSubnetCount"

definition with_fork :: "topic \<Rightarrow> bytes \<Rightarrow> topic" where
  "with_fork t fork_digest = with_fork_digest t fork_digest"

lemma eth_attestation_value:
  "eth_attestation = Inr \<lparr>st_pattern = ''beacon_attestation_%d'', st_max_subnets = 64\<rparr>"
  by code_simp

lemma eth_sync_committee_value:
  "eth_sync_committee = Inr \<lparr>st_pattern = ''sync_committee_%d'', st_max_subnets = 4\<rparr>"
  by code_simp

lemma regular_topics_value: "regular_topics = map (\<lambda>n. Inr \<lparr>t_name = n\<rparr>) regular_topic_names"
  by code_simp

text \<open>
  none of the topic definitions panics when the package is loaded, and no regular topic, under
  any fork digest, is taken for a subnet of one of the two subnet topics, although
  \<open>sync_committee_contribution_and_proof\<close> starts like a sync committee subnet.
\<close>

theorem eth_topics_disjoint:
  "\<exists>att sync. eth_attestation = Inr att \<and> eth_sync_committee = Inr sync \<and>
     list_all is_ok regular_topics \<and>
     list_all (\<lambda>r. case r of Inl _ \<Rightarrow> False | Inr t \<Rightarrow>
        (\<forall>fd. \<not> is_ok (parse_subnet att (t_name (with_fork t fd))) \<and>
              \<not> is_ok (parse_subnet sync (t_name (with_fork t fd))))) regular_topics"
proof -
  let ?att = "\<lparr>st_pattern = ''beacon_attestation_%d'', st_max_subnets = 64\<rparr>"
  let ?sync = "\<lparr>st_pattern = ''sync_committee_%d'', st_max_subnets = 4\<rparr>"
  have simple: "simple_pattern ?att ''beacon_attestation_'' []" "simple_pattern ?sync ''sync_committee_'' []"
    by (simp_all add: simple_pattern_def plain_text_def)
  have plain: "list_all (\<lambda>n. CHR ''/'' \<notin> set n) regular_topic_names"
    by (simp add: regular_topic_names_def)
  have base: "list_all (\<lambda>n. \<not> is_ok (parse_subnet ?att n) \<and> \<not> is_ok (parse_subnet ?sync n)) regular_topic_names"
    by code_simp
  have same: "parse_subnet st (t_name (with_fork \<lparr>t_name = n\<rparr> fd)) = parse_subnet st n"
    if "CHR ''/'' \<notin> set n" for st n fd
    using that by (simp add: parse_subnet_def with_fork_def strip_with_fork_digest strip_plain)
  show ?thesis
    using plain base
    by (auto simp: eth_attestation_value eth_sync_committee_value regular_topics_value list_all_iff same)
qed

end
