(* ===== verification/Interfaces.thy ===== *)
theory Interfaces
  imports Prelude
begin

text \<open>
  The contracts between components, one locale each. Every locale is interpreted in the
  theory of the component that provides it; the client's facts are proved once here.

  \<^item> \<open>prefix_codec\<close>: a writer whose output a reader recognises in front of any further
    bytes (the varint length prefix of the request/response streams);
  \<^item> \<open>register_once\<close>: a registry that takes each key at most once (protocol handlers of
    \<open>ReqResp\<close>, topic and subnet handlers of the gossipsub \<open>Registry\<close>);
  \<^item> \<open>bounded_decompressor\<close>: the \<open>Compressor\<close> interface with its \<open>MaxLength\<close>;
  \<^item> \<open>step_machine\<close>: a component driven by events, with an invariant every event keeps.
\<close>

section \<open>Self-delimiting encodings\<close>

locale prefix_codec =
  fixes enc :: "'a \<Rightarrow> 'b list"
    and dec :: "'b list \<Rightarrow> 'e + ('a \<times> 'b list)"
  assumes dec_enc: "dec (enc x @ rest) = Inr (x, rest)"
begin

lemma enc_inj: "enc x = enc y \<Longrightarrow> x = y"
  by (metis dec_enc prod.inject sum.inject(2))

text \<open>No encoding is a proper prefix of another, so a stream of encodings is unambiguous.\<close>

lemma enc_prefix_free: "enc x @ s = enc y @ t \<Longrightarrow> x = y \<and> s = t"
  by (metis dec_enc prod.inject sum.inject(2))

lemma enc_concat_inj: "concat (map enc xs) = concat (map enc ys) \<Longrightarrow> length xs = length ys \<Longrightarrow> xs = ys"
proof (induction xs arbitrary: ys)
  case Nil
  then show ?case by simp
next
  case (Cons x xs)
  then obtain y ys' where ys: "ys = y # ys'" by (cases ys) auto
  with Cons.prems have "enc x @ concat (map enc xs) = enc y @ concat (map enc ys')" by simp
  then have "x = y" and "concat (map enc xs) = concat (map enc ys')"
    by (auto dest: enc_prefix_free)
  with Cons ys show ?case by simp
qed

end

section \<open>Registries that take each key once\<close>

locale register_once =
  fixes register :: "'k \<Rightarrow> 'v \<Rightarrow> ('s, string, unit) act"
    and lookup :: "'s \<Rightarrow> 'k \<Rightarrow> 'w option"
    and stored :: "'v \<Rightarrow> 'w"
    and acceptable :: "'v \<Rightarrow> bool"
  assumes register_new:
      "acceptable v \<Longrightarrow> lookup s k = None \<Longrightarrow>
         \<exists>t. register k v s = (Inr (), t) \<and> lookup t = (lookup s)(k \<mapsto> stored v)"
    and register_known: "lookup s k \<noteq> None \<Longrightarrow> \<exists>e. register k v s = (Inl e, s)"
    and register_refused: "\<not> acceptable v \<Longrightarrow> \<exists>e. register k v s = (Inl e, s)"
begin

lemma register_cases:
  "register k v s = (Inr (), t) \<Longrightarrow>
     acceptable v \<and> lookup s k = None \<and> lookup t = (lookup s)(k \<mapsto> stored v)"
  using register_new [of v s k] register_known [of s k v] register_refused [of v k s]
  by (cases "acceptable v"; cases "lookup s k") auto

lemma register_error_unchanged: "register k v s = (Inl e, t) \<Longrightarrow> t = s"
  using register_new [of v s k] register_known [of s k v] register_refused [of v k s]
  by (cases "acceptable v"; cases "lookup s k") auto

text \<open>The second registration of a key fails and leaves the first in place.\<close>

lemma register_twice:
  assumes "register k v s = (Inr (), t)"
  shows "\<exists>e. register k v' t = (Inl e, t)" and "lookup t k = Some (stored v)"
proof -
  from register_cases [OF assms] show look: "lookup t k = Some (stored v)" by simp
  then show "\<exists>e. register k v' t = (Inl e, t)" by (intro register_known) simp
qed

text \<open>A client that registers a list of distinct new keys, each under its own error message.\<close>

lemma register_all:
  assumes "distinct (map fst kvs)" and "\<forall>(k, v, m) \<in> set kvs. acceptable v \<and> lookup s k = None"
  shows "\<exists>t. act_list (map (\<lambda>(k, v, m). act_wrap m (register k v)) kvs) s = (Inr (), t) \<and>
             (\<forall>(k, v, m) \<in> set kvs. lookup t k = Some (stored v)) \<and>
             (\<forall>k. k \<notin> fst ` set kvs \<longrightarrow> lookup t k = lookup s k)"
  using assms
proof (induction kvs arbitrary: s)
  case Nil
  then show ?case by simp
next
  case (Cons x kvs)
  obtain k v m where x: "x = (k, v, m)" by (cases x)
  from Cons.prems x obtain s1 where s1: "register k v s = (Inr (), s1)"
    and look1: "lookup s1 = (lookup s)(k \<mapsto> stored v)"
    using register_new [of v s k] by auto
  have fresh: "\<forall>(k', v', m') \<in> set kvs. acceptable v' \<and> lookup s1 k' = None"
    using Cons.prems x look1 by (force simp: image_iff)
  from Cons.prems(1) have "distinct (map fst kvs)" by simp
  from Cons.IH [OF this fresh] obtain t where
    t: "act_list (map (\<lambda>(k, v, m). act_wrap m (register k v)) kvs) s1 = (Inr (), t)"
    and all: "\<forall>(k, v, m) \<in> set kvs. lookup t k = Some (stored v)"
    and rest: "\<forall>k. k \<notin> fst ` set kvs \<longrightarrow> lookup t k = lookup s1 k" by blast
  have "act_wrap m (register k v) s = (Inr (), s1)" using s1 by (rule act_map_err_Inr)
  then have "act_list (map (\<lambda>(k, v, m). act_wrap m (register k v)) (x # kvs)) s = (Inr (), t)"
    using t x by (simp add: act_bind_Inr)
  moreover have "k \<notin> fst ` set kvs" using Cons.prems(1) x by simp
  then have "lookup t k = Some (stored v)" using rest look1 by simp
  ultimately show ?case using all rest look1 x by auto
qed

end

section \<open>Decompression with a length limit\<close>

text \<open>
  \<open>declared\<close> is the decompressed length the compressed header declares; a limit of 0 is no
  limit. The contract: nothing is decompressed whose declared length exceeds the limit.
\<close>

locale bounded_decompressor =
  fixes decompress :: "u64 \<Rightarrow> bytes \<Rightarrow> string + bytes"
    and declared :: "bytes \<Rightarrow> string + int"
  assumes decompress_bounded:
    "decompress limit d = Inr x \<Longrightarrow> 0 < limit \<Longrightarrow> \<exists>n. declared d = Inr n \<and> 0 \<le> n \<and> nat n \<le> unat limit"
begin

lemma decompress_too_long:
  "0 < limit \<Longrightarrow> declared d = Inr n \<Longrightarrow> unat limit < nat n \<Longrightarrow> \<exists>e. decompress limit d = Inl e"
  using decompress_bounded [of limit d] by (cases "decompress limit d") auto

lemma decompress_Inr_le:
  "decompress limit d = Inr x \<Longrightarrow> 0 < limit \<Longrightarrow> declared d = Inr n \<Longrightarrow> nat n \<le> unat limit"
  using decompress_bounded [of limit d x] by auto

end

section \<open>Components driven by events\<close>

text \<open>
  \<open>reachable init step s\<close>: \<open>s\<close> is reached from an initial state by any number of steps;
  the label of a step says which goroutine or which remote event made it.
\<close>

inductive reachable :: "('s \<Rightarrow> bool) \<Rightarrow> ('s \<Rightarrow> 'l \<Rightarrow> 's \<Rightarrow> bool) \<Rightarrow> 's \<Rightarrow> bool"
  for init step where
  reach_init: "init s \<Longrightarrow> reachable init step s"
| reach_step: "reachable init step s \<Longrightarrow> step s l t \<Longrightarrow> reachable init step t"

locale step_machine =
  fixes init :: "'s \<Rightarrow> bool"
    and step :: "'s \<Rightarrow> 'l \<Rightarrow> 's \<Rightarrow> bool"
    and inv :: "'s \<Rightarrow> bool"
  assumes inv_init: "init s \<Longrightarrow> inv s"
    and inv_step: "inv s \<Longrightarrow> step s l t \<Longrightarrow> inv t"
begin

lemma inv_reachable: "reachable init step s \<Longrightarrow> inv s"
  by (induction rule: reachable.induct) (auto intro: inv_init inv_step)

end

end
