(* ===== verification/Codec.thy ===== *)
theory Codec
  imports Interfaces GoStrings
begin

text \<open>
  Object encodings: the fastssz wrappers of \<open>pkg/consensus/mimicry/p2p/encoder.go\<close>, the snappy
  compressor of \<open>compression/snappy.go\<close>, the SSZ encoder of \<open>pubsub/v1/ssz_encoder.go\<close> and its
  compatibility constructors in \<open>eth/topics/encoder.go\<close>. The serializers themselves (zrnt,
  fastssz) and snappy are parameters.
\<close>

section \<open>Wrapped spec and SSZ objects\<close>

text \<open>
  \<open>common.SpecObj\<close> and \<open>common.SSZObj\<close>: what their methods do, the first given the spec. The
  decoder gets the bytes and the scope (the length it may read).
\<close>

record ('spec, 'o) spec_obj_ops =
  so_serialize :: "'spec \<Rightarrow> 'o \<Rightarrow> string + bytes"
  so_deserialize :: "'spec \<Rightarrow> bytes \<Rightarrow> u64 \<Rightarrow> string + 'o"
  so_byte_length :: "'spec \<Rightarrow> 'o \<Rightarrow> u64"

record 'o ssz_obj_ops =
  zo_serialize :: "'o \<Rightarrow> string + bytes"
  zo_deserialize :: "bytes \<Rightarrow> u64 \<Rightarrow> string + 'o"
  zo_byte_length :: "'o \<Rightarrow> u64"

record ('spec, 'o) wrapped_spec_object_encoder =
  wso_obj :: 'o
  wso_spec :: 'spec

definition wrap_spec_object :: "'spec \<Rightarrow> 'o \<Rightarrow> ('spec, 'o) wrapped_spec_object_encoder" where
  "wrap_spec_object spec obj = \<lparr>wso_obj = obj, wso_spec = spec\<rparr>"

definition spec_marshal_ssz ::
  "('spec, 'o) spec_obj_ops \<Rightarrow> ('spec, 'o) wrapped_spec_object_encoder \<Rightarrow> string + bytes" where
  "spec_marshal_ssz ops w = so_serialize ops (wso_spec w) (wso_obj w)"

definition spec_marshal_ssz_to ::
  "('spec, 'o) spec_obj_ops \<Rightarrow> ('spec, 'o) wrapped_spec_object_encoder \<Rightarrow> bytes \<Rightarrow> string + bytes" where
  "spec_marshal_ssz_to ops w dst =
     (case spec_marshal_ssz ops w of Inl e \<Rightarrow> Inl e | Inr d \<Rightarrow> Inr (dst @ d))"

text \<open>\<open>int(uint64)\<close> on a 64-bit platform reads the same bits as a signed number.\<close>

definition spec_size_ssz :: "('spec, 'o) spec_obj_ops \<Rightarrow> ('spec, 'o) wrapped_spec_object_encoder \<Rightarrow> int" where
  "spec_size_ssz ops w = sint (so_byte_length ops (wso_spec w) (wso_obj w))"

definition spec_unmarshal_ssz ::
  "('spec, 'o) spec_obj_ops \<Rightarrow> bytes \<Rightarrow> (('spec, 'o) wrapped_spec_object_encoder, string, unit) act" where
  "spec_unmarshal_ssz ops b = (\<lambda>w.
     case so_deserialize ops (wso_spec w) b (word_of_nat (length b)) of
       Inl e \<Rightarrow> (Inl e, w)
     | Inr obj \<Rightarrow> (Inr (), w\<lparr>wso_obj := obj\<rparr>))"

definition wrap_ssz_object :: "'o \<Rightarrow> 'o" where
  "wrap_ssz_object obj = obj"

definition obj_marshal_ssz :: "'o ssz_obj_ops \<Rightarrow> 'o \<Rightarrow> string + bytes" where
  "obj_marshal_ssz ops w = zo_serialize ops w"

definition obj_marshal_ssz_to :: "'o ssz_obj_ops \<Rightarrow> 'o \<Rightarrow> bytes \<Rightarrow> string + bytes" where
  "obj_marshal_ssz_to ops w dst = (case obj_marshal_ssz ops w of Inl e \<Rightarrow> Inl e | Inr d \<Rightarrow> Inr (dst @ d))"

definition obj_size_ssz :: "'o ssz_obj_ops \<Rightarrow> 'o \<Rightarrow> int" where
  "obj_size_ssz ops w = sint (zo_byte_length ops w)"

definition obj_unmarshal_ssz :: "'o ssz_obj_ops \<Rightarrow> bytes \<Rightarrow> ('o, string, unit) act" where
  "obj_unmarshal_ssz ops b = (\<lambda>w.
     case zo_deserialize ops b (word_of_nat (length b)) of Inl e \<Rightarrow> (Inl e, w) | Inr obj \<Rightarrow> (Inr (), obj))"

text \<open>
  what \<open>MarshalSSZTo\<close> appends to a buffer, \<open>UnmarshalSSZ\<close> of another wrapped object of the same
  spec reads back, whatever was in the buffer and in the object before.
\<close>

theorem spec_object_roundtrip:
  assumes "\<And>spec obj d. so_serialize ops spec obj = Inr d \<Longrightarrow>
             so_deserialize ops spec d (word_of_nat (length d)) = Inr obj"
    and "spec_marshal_ssz_to ops (wrap_spec_object spec obj) dst = Inr out"
  shows "prefix dst out \<and>
         spec_unmarshal_ssz ops (drop (length dst) out) (wrap_spec_object spec old) =
           (Inr (), wrap_spec_object spec obj)"
  using assms(2) assms(1) [of spec obj]
  by (auto simp: spec_marshal_ssz_to_def spec_marshal_ssz_def spec_unmarshal_ssz_def wrap_spec_object_def
      split: sum.splits)

lemma spec_object_roundtrip_witness:
  "prefix [1] [1, 7 :: u8] \<and>
   spec_unmarshal_ssz \<lparr>so_serialize = (\<lambda>_ b. Inr [b]), so_deserialize = (\<lambda>_ d _. Inr (hd d)), so_byte_length = (\<lambda>_ _. 1)\<rparr>
     [7] (wrap_spec_object () 0) = (Inr (), wrap_spec_object () 7)"
  using spec_object_roundtrip
    [of "\<lparr>so_serialize = (\<lambda>_ b. Inr [b]), so_deserialize = (\<lambda>_ d _. Inr (hd d)), so_byte_length = (\<lambda>_ _. 1)\<rparr>"
      "()" 7 "[1]" "[1, 7]" 0]
  by (auto simp: spec_marshal_ssz_to_def spec_marshal_ssz_def wrap_spec_object_def)

section \<open>Snappy compression\<close>

record compressor =
  comp_compress :: "bytes \<Rightarrow> string + bytes"
  comp_decompress :: "bytes \<Rightarrow> string + bytes"
  comp_max_length :: u64

text \<open>\<open>snappy.DecodedLen\<close>, \<open>snappy.Decode\<close> and \<open>snappy.Encode\<close>; \<open>DecodedLen\<close> returns an \<open>int\<close>.\<close>

record snappy_lib =
  snappy_decoded_len :: "bytes \<Rightarrow> string + int"
  snappy_decode :: "bytes \<Rightarrow> string + bytes"
  snappy_encode :: "bytes \<Rightarrow> bytes"

definition snappy_compress :: "snappy_lib \<Rightarrow> bytes \<Rightarrow> string + bytes" where
  "snappy_compress lib d = Inr (snappy_encode lib d)"

definition snappy_decompress :: "snappy_lib \<Rightarrow> u64 \<Rightarrow> bytes \<Rightarrow> string + bytes" where
  "snappy_decompress lib max_length d =
     (case snappy_decoded_len lib d of
        Inl e \<Rightarrow> Inl (err_wrap ''failed to get decoded length'' e)
      | Inr n \<Rightarrow>
          if 0 < max_length \<and> n < 0 then
            Inl (''invalid decoded length: -'' @ dec_of_nat (nat (- n)))
          else if 0 < max_length \<and> unat max_length < nat n then
            Inl (''decompressed data exceeds max length: '' @ dec_of_nat (nat n) @ '' > '' @ dec_of_nat (unat max_length))
          else snappy_decode lib d)"

definition new_snappy_compressor :: "snappy_lib \<Rightarrow> u64 \<Rightarrow> compressor" where
  "new_snappy_compressor lib max_length =
     \<lparr>comp_compress = snappy_compress lib, comp_decompress = snappy_decompress lib max_length,
      comp_max_length = max_length\<rparr>"

interpretation snappy: bounded_decompressor "snappy_decompress lib" "snappy_decoded_len lib" for lib
  by unfold_locales (auto simp: snappy_decompress_def split: sum.splits if_splits)

text \<open>
  a message whose header declares more bytes than the limit is refused before anything is
  decompressed, whatever the decompressor would make of it; and a snappy library that decodes
  to the declared length never yields more than the limit.
\<close>

theorem snappy_limit:
  assumes "comp_decompress (new_snappy_compressor lib max_length) d = Inr x" and "0 < max_length"
    and "\<And>d y n. snappy_decode lib d = Inr y \<Longrightarrow> snappy_decoded_len lib d = Inr n \<Longrightarrow> length y = nat n"
  shows "length x \<le> unat (comp_max_length (new_snappy_compressor lib max_length))"
proof -
  have dec: "snappy_decompress lib max_length d = Inr x"
    using assms(1) by (simp add: new_snappy_compressor_def)
  from snappy.decompress_bounded [OF dec assms(2)] obtain n
    where n: "snappy_decoded_len lib d = Inr n" "nat n \<le> unat max_length" by blast
  moreover have "snappy_decode lib d = Inr x"
    using dec n(1) by (auto simp: snappy_decompress_def split: if_splits)
  ultimately show ?thesis using assms(3) [of d x n] by (simp add: new_snappy_compressor_def)
qed

text \<open>A library that stores the bytes after a length byte.\<close>

definition stored_lib :: snappy_lib where
  "stored_lib = \<lparr>snappy_decoded_len = (\<lambda>d. case d of [] \<Rightarrow> Inl ''corrupt'' | b # _ \<Rightarrow> Inr (int (unat b))),
     snappy_decode = (\<lambda>d. case d of [] \<Rightarrow> Inl ''corrupt''
        | b # bs \<Rightarrow> if length bs = unat b then Inr bs else Inl ''corrupt''),
     snappy_encode = (\<lambda>d. word_of_nat (length d) # d)\<rparr>"

lemma snappy_limit_witness:
  "length [5, 6 :: u8] \<le> unat (comp_max_length (new_snappy_compressor stored_lib 2))"
  by (rule snappy_limit [of stored_lib 2 "[2, 5, 6]"])
     (auto simp: new_snappy_compressor_def snappy_decompress_def stored_lib_def word_less_nat_alt
       split: list.splits if_splits)

text \<open>
  compressing and decompressing returns the data, for any limit that is at least the data's
  length, when snappy inverts itself and its header declares the length it encoded.
\<close>

theorem snappy_roundtrip:
  assumes "snappy_decode lib (snappy_encode lib d) = Inr d"
    and "snappy_decoded_len lib (snappy_encode lib d) = Inr (int (length d))"
    and "max_length = 0 \<or> length d \<le> unat max_length"
    and "comp_compress (new_snappy_compressor lib max_length) d = Inr c"
  shows "comp_decompress (new_snappy_compressor lib max_length) c = Inr d"
  using assms by (auto simp: new_snappy_compressor_def snappy_compress_def snappy_decompress_def)

lemma snappy_roundtrip_witness:
  "comp_decompress (new_snappy_compressor stored_lib 4) [3, 1, 2, 3] = Inr [1, 2, 3]"
  by (rule snappy_roundtrip) (simp_all add: stored_lib_def new_snappy_compressor_def snappy_compress_def)

section \<open>SSZ encoders\<close>

text \<open>
  \<open>Encoder[T]\<close>: a wrapped encoder can panic (a nil encoder inside), so both methods may.
\<close>

record 'm encoder =
  enc_encode :: "'m \<Rightarrow> fault + bytes"
  enc_decode :: "bytes \<Rightarrow> fault + 'm"

text \<open>
  What reflection tells about the type parameter \<open>T\<close>: whether it is an interface (its zero
  value has no type), whether it is a pointer type, whether a pointer of its kind converts
  back to it, and the SSZ methods: \<open>MarshalSSZ\<close> of \<open>T\<close> and \<open>UnmarshalSSZ\<close> of the pointer (of \<open>T\<close>
  itself when it is one, of \<open>*T\<close> otherwise).
\<close>

record 'm ssz_type =
  sz_interface :: bool
  sz_pointer :: bool
  sz_convertible :: bool
  sz_marshal :: "('m \<Rightarrow> string + bytes) option"
  sz_unmarshal :: "(bytes \<Rightarrow> string + 'm) option"

definition ssz_encode :: "'m ssz_type \<Rightarrow> 'm \<Rightarrow> fault + bytes" where
  "ssz_encode T msg =
     (case sz_marshal T of
        None \<Rightarrow> Inl (Err ''type does not implement fastssz.Marshaler'')
      | Some marshal \<Rightarrow> to_fault (marshal msg))"

definition ssz_decode :: "'m ssz_type \<Rightarrow> bytes \<Rightarrow> fault + 'm" where
  "ssz_decode T d =
     (if sz_interface T then Inl (Panic ''invalid memory address or nil pointer dereference'')
      else
        case sz_unmarshal T of
          None \<Rightarrow> Inl (Err ''type does not implement fastssz.Unmarshaler'')
        | Some unmarshal \<Rightarrow>
            (case unmarshal d of
               Inl e \<Rightarrow> Inl (Err (err_wrap ''failed to unmarshal SSZ'' e))
             | Inr v \<Rightarrow> if sz_convertible T then Inr v else Inl (Err ''failed to convert to target type'')))"

definition new_ssz_encoder :: "'m ssz_type \<Rightarrow> 'm encoder" where
  "new_ssz_encoder T = \<lparr>enc_encode = ssz_encode T, enc_decode = ssz_decode T\<rparr>"

text \<open>The compatibility constructors; the length limit is left to the compressor.\<close>

definition new_ssz_snappy_encoder :: "'m ssz_type \<Rightarrow> 'm encoder" where
  "new_ssz_snappy_encoder T = new_ssz_encoder T"

definition new_ssz_snappy_encoder_with_max_len :: "'m ssz_type \<Rightarrow> u64 \<Rightarrow> 'm encoder" where
  "new_ssz_snappy_encoder_with_max_len T max_len = new_ssz_encoder T"

definition topics_new_snappy_compressor :: "snappy_lib \<Rightarrow> u64 \<Rightarrow> compressor" where
  "topics_new_snappy_compressor lib max_len = new_snappy_compressor lib max_len"

text \<open>
  The decoder \<open>WithSSZDecoding\<close> installs: it asks a fresh \<open>*T\<close> for \<open>UnmarshalSSZ\<close>, which a pointer to
  a pointer never has.
\<close>

definition ssz_decoding :: "'m ssz_type \<Rightarrow> bytes \<Rightarrow> fault + 'm" where
  "ssz_decoding T d =
     (case (if sz_pointer T \<or> sz_interface T then None else sz_unmarshal T) of
        Some unmarshal \<Rightarrow>
          (case unmarshal d of
             Inl e \<Rightarrow> Inl (Err (err_wrap ''failed to unmarshal SSZ'' e))
           | Inr v \<Rightarrow> Inr v)
      | None \<Rightarrow> Inl (Err ''type does not implement fastssz.Unmarshaler''))"

text \<open>
  the SSZ encoder reads back what it encodes, for value and pointer types alike, if the
  type's own SSZ methods do.
\<close>

theorem ssz_encoder_roundtrip:
  assumes "\<not> sz_interface T" and "sz_convertible T"
    and "sz_unmarshal T = Some unmarshal"
    and "\<And>m d. (case sz_marshal T of Some f \<Rightarrow> f m = Inr d | None \<Rightarrow> False) \<Longrightarrow> unmarshal d = Inr m"
    and "enc_encode (new_ssz_encoder T) m = Inr d"
  shows "enc_decode (new_ssz_encoder T) d = Inr m"
  using assms(5) assms(4) [of m d] assms(1-3)
  by (auto simp: new_ssz_encoder_def ssz_encode_def ssz_decode_def to_fault_def split: option.splits sum.splits)

definition byte_type :: "bool \<Rightarrow> u8 ssz_type" where
  "byte_type ptr = \<lparr>sz_interface = False, sz_pointer = ptr, sz_convertible = True,
     sz_marshal = Some (\<lambda>b. Inr [b]),
     sz_unmarshal = Some (\<lambda>d. case d of [b] \<Rightarrow> Inr b | _ \<Rightarrow> Inl ''size'')\<rparr>"

lemma ssz_encoder_roundtrip_witness: "enc_decode (new_ssz_encoder (byte_type True)) [7] = Inr 7"
  by (rule ssz_encoder_roundtrip)
     (auto simp: byte_type_def new_ssz_encoder_def ssz_encode_def)

text \<open>
  a handler with \<open>WithSSZDecoding\<close> for a pointer type refuses every payload, although the
  type implements \<open>fastssz.Unmarshaler\<close> and the SSZ encoder of the same type decodes it.
\<close>

theorem ssz_decoding_refuses_pointers:
  assumes "sz_pointer T"
  shows "ssz_decoding T d = Inl (Err ''type does not implement fastssz.Unmarshaler'')"
  using assms by (simp add: ssz_decoding_def)

lemma ssz_decoding_refuses_pointers_witness:
  "ssz_decoding (byte_type True) [7] = Inl (Err ''type does not implement fastssz.Unmarshaler'') \<and>
   enc_decode (new_ssz_encoder (byte_type True)) [7] = Inr 7 \<and> ssz_decoding (byte_type False) [7] = Inr 7"
  using ssz_decoding_refuses_pointers [of "byte_type True" "[7]"]
  by (simp add: byte_type_def new_ssz_encoder_def ssz_decode_def ssz_decoding_def)

end
