(* ===== verification/Handlers.thy ===== *)
theory Handlers
  imports Topics Codec
begin

text \<open>
  Message handlers and their registry: \<open>pubsub/v1/handler.go\<close>, \<open>pubsub/v1/registry.go\<close> and the
  encoder wrapper of \<open>gossipsub.go\<close>. Go erases the message type when a handler is registered: a
  message of type \<open>T\<close> becomes an \<open>any\<close> and is type-asserted on the way back. Here \<open>emb\<close> is
  that conversion and \<open>proj\<close> the type assertion.

  User callbacks with effects (invalid payload handlers, score parameters, event channels) are
  names (numbers); what is called with what is recorded where they are called.
\<close>

type_synonym peer_id = string
type_synonym validation_result = int

definition ValidationAccept :: validation_result where "ValidationAccept = 0"
definition ValidationReject :: validation_result where "ValidationReject = 1"
definition ValidationIgnore :: validation_result where "ValidationIgnore = 2"

lemmas validation_consts = ValidationAccept_def ValidationReject_def ValidationIgnore_def

record 'm handler_config =
  hc_encoder :: "'m encoder option"
  hc_compressor :: "compressor option"
  hc_decoder :: "(bytes \<Rightarrow> fault + 'm) option"
  hc_validator :: "('m \<Rightarrow> peer_id \<Rightarrow> validation_result) option"
  hc_processor :: "('m \<Rightarrow> peer_id \<Rightarrow> string option) option"
  hc_invalid_payload_handler :: "nat option"
  hc_score_params :: "nat option"
  hc_events :: "nat option"

section \<open>Options and validation\<close>

type_synonym 'm handler_option = "'m handler_config \<Rightarrow> 'm handler_config"

definition empty_handler_config :: "'m handler_config" where
  "empty_handler_config = \<lparr>hc_encoder = None, hc_compressor = None, hc_decoder = None, hc_validator = None,
     hc_processor = None, hc_invalid_payload_handler = None, hc_score_params = None, hc_events = None\<rparr>"

definition with_decoder :: "(bytes \<Rightarrow> fault + 'm) option \<Rightarrow> 'm handler_option" where
  "with_decoder d h = h\<lparr>hc_decoder := d\<rparr>"

definition with_validator :: "('m \<Rightarrow> peer_id \<Rightarrow> validation_result) option \<Rightarrow> 'm handler_option" where
  "with_validator v h = h\<lparr>hc_validator := v\<rparr>"

definition with_processor :: "('m \<Rightarrow> peer_id \<Rightarrow> string option) option \<Rightarrow> 'm handler_option" where
  "with_processor p h = h\<lparr>hc_processor := p\<rparr>"

definition with_ssz_decoding :: "'m ssz_type \<Rightarrow> 'm handler_option" where
  "with_ssz_decoding T h = h\<lparr>hc_decoder := Some (ssz_decoding T)\<rparr>"

definition with_score_params :: "nat option \<Rightarrow> 'm handler_option" where
  "with_score_params p h = h\<lparr>hc_score_params := p\<rparr>"

definition with_invalid_payload_handler :: "nat option \<Rightarrow> 'm handler_option" where
  "with_invalid_payload_handler f h = h\<lparr>hc_invalid_payload_handler := f\<rparr>"

definition with_events :: "nat option \<Rightarrow> 'm handler_option" where
  "with_events e h = h\<lparr>hc_events := e\<rparr>"

definition with_compressor :: "compressor option \<Rightarrow> 'm handler_option" where
  "with_compressor c h = h\<lparr>hc_compressor := c\<rparr>"

definition with_encoder :: "'m encoder option \<Rightarrow> 'm handler_option" where
  "with_encoder e h = h\<lparr>hc_encoder := e\<rparr>"

lemmas handler_option_defs = with_decoder_def with_validator_def with_processor_def with_ssz_decoding_def
  with_score_params_def with_invalid_payload_handler_def with_events_def with_compressor_def with_encoder_def

definition new_handler_config :: "'m handler_option list \<Rightarrow> 'm handler_config" where
  "new_handler_config opts = foldl (\<lambda>h opt. opt h) empty_handler_config opts"

definition validate_handler :: "'m handler_config \<Rightarrow> string option" where
  "validate_handler h =
     (if hc_validator h = None \<and> hc_processor h = None then Some ''no validator or processor configured''
      else if hc_encoder h = None \<and> hc_decoder h = None then Some ''either encoder or decoder must be configured''
      else None)"

section \<open>Type erasure\<close>

definition map_ok :: "('a \<Rightarrow> 'b) \<Rightarrow> 'e + 'a \<Rightarrow> 'e + 'b" where
  "map_ok f r = (case r of Inl e \<Rightarrow> Inl e | Inr x \<Rightarrow> Inr (f x))"

lemma map_ok_simps [simp]: "map_ok f (Inl e) = Inl e" "map_ok f (Inr x) = Inr (f x)"
  by (simp_all add: map_ok_def)

definition nil_deref :: fault where
  "nil_deref = Panic ''invalid memory address or nil pointer dereference''"

definition wrap_decoder :: "('m \<Rightarrow> 'a) \<Rightarrow> (bytes \<Rightarrow> fault + 'm) option \<Rightarrow> 'm encoder option \<Rightarrow>
    (bytes \<Rightarrow> fault + 'a) option" where
  "wrap_decoder emb decoder encoder =
     (case decoder of
        None \<Rightarrow> (case encoder of Some e \<Rightarrow> Some (\<lambda>d. map_ok emb (enc_decode e d)) | None \<Rightarrow> None)
      | Some f \<Rightarrow> Some (\<lambda>d. map_ok emb (f d)))"

definition wrap_validator :: "('a \<Rightarrow> 'm option) \<Rightarrow> ('m \<Rightarrow> peer_id \<Rightarrow> validation_result) option \<Rightarrow>
    ('a \<Rightarrow> peer_id \<Rightarrow> validation_result) option" where
  "wrap_validator proj validator =
     (case validator of
        None \<Rightarrow> None
      | Some v \<Rightarrow> Some (\<lambda>msg from. case proj msg of None \<Rightarrow> ValidationReject | Some m \<Rightarrow> v m from))"

definition wrap_processor :: "('a \<Rightarrow> 'm option) \<Rightarrow> ('m \<Rightarrow> peer_id \<Rightarrow> string option) option \<Rightarrow>
    ('a \<Rightarrow> peer_id \<Rightarrow> string option) option" where
  "wrap_processor proj processor =
     (case processor of
        None \<Rightarrow> None
      | Some p \<Rightarrow> Some (\<lambda>msg from. case proj msg of
            None \<Rightarrow> Some ''processor type assertion failed'' | Some m \<Rightarrow> p m from))"

text \<open>
  \<open>wrapEncoder\<close> returns an \<open>anyEncoder\<close> around whatever it is given, a nil encoder included: the
  result is never nil, and its methods dereference what is inside.
\<close>

definition any_encode :: "('a \<Rightarrow> 'm option) \<Rightarrow> 'm encoder option \<Rightarrow> 'a \<Rightarrow> fault + bytes" where
  "any_encode proj typed msg =
     (case proj msg of
        None \<Rightarrow> Inl (Err ''encoder type assertion failed'')
      | Some m \<Rightarrow> (case typed of None \<Rightarrow> Inl nil_deref | Some e \<Rightarrow> enc_encode e m))"

definition any_decode :: "('m \<Rightarrow> 'a) \<Rightarrow> 'm encoder option \<Rightarrow> bytes \<Rightarrow> fault + 'a" where
  "any_decode emb typed d = (case typed of None \<Rightarrow> Inl nil_deref | Some e \<Rightarrow> map_ok emb (enc_decode e d))"

definition wrap_encoder :: "('m \<Rightarrow> 'a) \<Rightarrow> ('a \<Rightarrow> 'm option) \<Rightarrow> 'm encoder option \<Rightarrow> 'a encoder option" where
  "wrap_encoder emb proj encoder = Some \<lparr>enc_encode = any_encode proj encoder, enc_decode = any_decode emb encoder\<rparr>"

definition wrap_handler :: "('m \<Rightarrow> 'a) \<Rightarrow> ('a \<Rightarrow> 'm option) \<Rightarrow> 'm handler_config \<Rightarrow> 'a handler_config" where
  "wrap_handler emb proj h =
     \<lparr>hc_encoder = wrap_encoder emb proj (hc_encoder h), hc_compressor = hc_compressor h,
      hc_decoder = wrap_decoder emb (hc_decoder h) (hc_encoder h), hc_validator = wrap_validator proj (hc_validator h),
      hc_processor = wrap_processor proj (hc_processor h), hc_invalid_payload_handler = None,
      hc_score_params = hc_score_params h, hc_events = hc_events h\<rparr>"

section \<open>The registry\<close>

text \<open>The two Go maps as association lists, the keys in the order they were registered.\<close>

record 'a registry =
  reg_handlers :: "(string \<times> 'a handler_config) list"
  reg_subnet_handlers :: "(string \<times> 'a handler_config) list"

definition new_registry :: "'a registry" where
  "new_registry = \<lparr>reg_handlers = [], reg_subnet_handlers = []\<rparr>"

text \<open>The part of \<open>Register\<close> after the nil checks.\<close>

definition register_topic ::
  "('m \<Rightarrow> 'a) \<Rightarrow> ('a \<Rightarrow> 'm option) \<Rightarrow> string \<Rightarrow> 'm handler_config \<Rightarrow> ('a registry, string, unit) act" where
  "register_topic emb proj topic_name handler = (\<lambda>r.
     case validate_handler handler of
       Some e \<Rightarrow> (Inl (err_wrap ''invalid handler configuration'' e), r)
     | None \<Rightarrow>
         if map_of (reg_handlers r) topic_name \<noteq> None then
           (Inl (''topic '' @ quoted topic_name @ '' is already registered''), r)
         else (Inr (), r\<lparr>reg_handlers := reg_handlers r @ [(topic_name, wrap_handler emb proj handler)]\<rparr>))"

definition register_pattern ::
  "('m \<Rightarrow> 'a) \<Rightarrow> ('a \<Rightarrow> 'm option) \<Rightarrow> string \<Rightarrow> 'm handler_config \<Rightarrow> ('a registry, string, unit) act" where
  "register_pattern emb proj pattern handler = (\<lambda>r.
     case validate_handler handler of
       Some e \<Rightarrow> (Inl (err_wrap ''invalid handler configuration'' e), r)
     | None \<Rightarrow>
         if map_of (reg_subnet_handlers r) pattern \<noteq> None then
           (Inl (''subnet pattern '' @ quoted pattern @ '' is already registered''), r)
         else (Inr (), r\<lparr>reg_subnet_handlers := reg_subnet_handlers r @ [(pattern, wrap_handler emb proj handler)]\<rparr>))"

text \<open>\<open>Register\<close> and \<open>RegisterSubnet\<close>; \<open>None\<close> is a nil pointer.\<close>

definition on_registry :: "('a registry, string, unit) act \<Rightarrow> ('a registry option, string, unit) act" where
  "on_registry m = (\<lambda>r. case r of None \<Rightarrow> (Inl ''registry is nil'', None)
     | Some reg \<Rightarrow> (case m reg of (res, reg') \<Rightarrow> (res, Some reg')))"

definition register ::
  "('m \<Rightarrow> 'a) \<Rightarrow> ('a \<Rightarrow> 'm option) \<Rightarrow> topic option \<Rightarrow> 'm handler_config option \<Rightarrow>
     ('a registry option, string, unit) act" where
  "register emb proj topic handler =
     on_registry
       (case topic of
          None \<Rightarrow> act_fail ''topic is nil''
        | Some t \<Rightarrow>
            (case handler of
               None \<Rightarrow> act_fail ''handler is nil''
             | Some h \<Rightarrow> register_topic emb proj (t_name t) h))"

definition register_subnet ::
  "('m \<Rightarrow> 'a) \<Rightarrow> ('a \<Rightarrow> 'm option) \<Rightarrow> subnet_topic option \<Rightarrow> 'm handler_config option \<Rightarrow>
     ('a registry option, string, unit) act" where
  "register_subnet emb proj subnet_topic handler =
     on_registry
       (case subnet_topic of
          None \<Rightarrow> act_fail ''subnet topic is nil''
        | Some t \<Rightarrow>
            (case handler of
               None \<Rightarrow> act_fail ''handler is nil''
             | Some h \<Rightarrow> register_pattern emb proj (st_pattern t) h))"

text \<open>
  \<open>GetHandler\<close> ranges over a Go map: \<open>order\<close> is the order in which this call visits the patterns.
\<close>

fun get_subnet_handler :: "string list \<Rightarrow> 'a registry \<Rightarrow> string \<Rightarrow> fault + 'a handler_config option" where
  "get_subnet_handler [] r topic_name = Inr None"
| "get_subnet_handler (pattern # order) r topic_name =
     (case map_of (reg_subnet_handlers r) pattern of
        None \<Rightarrow> get_subnet_handler order r topic_name
      | Some handler \<Rightarrow>
          (case parse_subnet \<lparr>st_pattern = pattern, st_max_subnets = - 1\<rparr> topic_name of
             Inr _ \<Rightarrow> Inr (Some handler)
           | Inl (Err _) \<Rightarrow> get_subnet_handler order r topic_name
           | Inl (Panic m) \<Rightarrow> Inl (Panic m)))"

definition get_handler :: "string list \<Rightarrow> 'a registry \<Rightarrow> string \<Rightarrow> fault + 'a handler_config option" where
  "get_handler order r topic_name =
     (case map_of (reg_handlers r) topic_name of
        Some handler \<Rightarrow> Inr (Some handler)
      | None \<Rightarrow> get_subnet_handler order r topic_name)"

definition has_handler :: "string list \<Rightarrow> 'a registry \<Rightarrow> string \<Rightarrow> fault + bool" where
  "has_handler order r topic_name = map_ok (\<lambda>h. case h of None \<Rightarrow> False | Some _ \<Rightarrow> True) (get_handler order r topic_name)"

definition clear_registry :: "'a registry \<Rightarrow> 'a registry" where
  "clear_registry r = r\<lparr>reg_handlers := [], reg_subnet_handlers := []\<rparr>"

definition topic_count :: "'a registry \<Rightarrow> nat" where
  "topic_count r = length (reg_handlers r)"

definition subnet_pattern_count :: "'a registry \<Rightarrow> nat" where
  "subnet_pattern_count r = length (reg_subnet_handlers r)"

section \<open>What registration keeps\<close>

definition acceptable_handler :: "'m handler_config \<Rightarrow> bool" where
  "acceptable_handler h = (validate_handler h = None)"

interpretation topics: register_once "register_topic emb proj" "\<lambda>r. map_of (reg_handlers r)"
    "wrap_handler emb proj" acceptable_handler for emb proj
  by unfold_locales
     (auto simp: register_topic_def acceptable_handler_def map_add_def fun_eq_iff split: option.splits)

interpretation patterns: register_once "register_pattern emb proj" "\<lambda>r. map_of (reg_subnet_handlers r)"
    "wrap_handler emb proj" acceptable_handler for emb proj
  by unfold_locales
     (auto simp: register_pattern_def acceptable_handler_def map_add_def fun_eq_iff split: option.splits)

text \<open>The registry invariant: no topic and no pattern twice, and only configurations that decode.\<close>

definition usable :: "'a handler_config \<Rightarrow> bool" where
  "usable h = ((hc_validator h \<noteq> None \<or> hc_processor h \<noteq> None) \<and> hc_decoder h \<noteq> None)"

definition registry_ok :: "'a registry \<Rightarrow> bool" where
  "registry_ok r \<longleftrightarrow> distinct (map fst (reg_handlers r)) \<and> distinct (map fst (reg_subnet_handlers r)) \<and>
     (\<forall>(k, h) \<in> set (reg_handlers r) \<union> set (reg_subnet_handlers r). usable h)"

lemma wrap_handler_usable: "validate_handler h = None \<Longrightarrow> usable (wrap_handler emb proj h)"
  by (auto simp: validate_handler_def usable_def wrap_handler_def wrap_decoder_def wrap_validator_def
      wrap_processor_def split: if_splits option.splits)

lemma register_topic_ok: "registry_ok r \<Longrightarrow> registry_ok (snd (register_topic emb proj k h r))"
  by (auto simp: register_topic_def registry_ok_def map_of_eq_None_iff wrap_handler_usable split: option.splits)

lemma register_pattern_ok: "registry_ok r \<Longrightarrow> registry_ok (snd (register_pattern emb proj k h r))"
  by (auto simp: register_pattern_def registry_ok_def map_of_eq_None_iff wrap_handler_usable split: option.splits)

lemma on_registry_snd: "snd (on_registry m (Some r)) = Some (snd (m r))"
  by (simp add: on_registry_def split: prod.splits)

text \<open>
  every registry operation keeps the registry's invariant (each topic and each pattern at most
  once, every stored configuration able to decode and to do something with a message), and a
  failed registration leaves the registry as it was.
\<close>

theorem registry_ops_keep_ok:
  assumes "registry_ok r"
  shows "(\<exists>r'. snd (register emb proj topic h (Some r)) = Some r' \<and> registry_ok r' \<and>
            (\<not> is_ok (fst (register emb proj topic h (Some r))) \<longrightarrow> r' = r)) \<and>
         (\<exists>r'. snd (register_subnet emb proj st h (Some r)) = Some r' \<and> registry_ok r' \<and>
            (\<not> is_ok (fst (register_subnet emb proj st h (Some r))) \<longrightarrow> r' = r)) \<and>
         registry_ok (clear_registry r) \<and> registry_ok (new_registry :: 'a registry)"
proof (intro conjI)
  show "\<exists>r'. snd (register emb proj topic h (Some r)) = Some r' \<and> registry_ok r' \<and>
            (\<not> is_ok (fst (register emb proj topic h (Some r))) \<longrightarrow> r' = r)"
    using assms register_topic_ok [OF assms, of emb proj]
    by (auto simp: register_def on_registry_def not_is_ok_iff split: option.splits prod.splits
        dest: topics.register_error_unchanged) (metis snd_conv)+
  show "\<exists>r'. snd (register_subnet emb proj st h (Some r)) = Some r' \<and> registry_ok r' \<and>
            (\<not> is_ok (fst (register_subnet emb proj st h (Some r))) \<longrightarrow> r' = r)"
    using assms register_pattern_ok [OF assms, of emb proj]
    by (auto simp: register_subnet_def on_registry_def not_is_ok_iff split: option.splits prod.splits
        dest: patterns.register_error_unchanged) (metis snd_conv)+
  show "registry_ok (clear_registry r)" by (simp add: registry_ok_def clear_registry_def)
  show "registry_ok (new_registry :: 'a registry)" by (simp add: registry_ok_def new_registry_def)
qed

definition byte_handler :: "u8 handler_config" where
  "byte_handler = new_handler_config
     [with_encoder (Some (new_ssz_encoder (byte_type False))),
      with_validator (Some (\<lambda>b _. if b = 0 then ValidationReject else ValidationAccept))]"

lemma byte_handler_valid: "validate_handler byte_handler = None"
  by (simp add: byte_handler_def new_handler_config_def validate_handler_def handler_option_defs empty_handler_config_def)

lemma registry_ops_keep_ok_witness:
  "\<exists>r'. snd (register (\<lambda>b. b) Some (Some \<lparr>t_name = ''blocks''\<rparr>) (Some byte_handler) (Some new_registry)) = Some r' \<and>
        registry_ok r'"
proof -
  have "registry_ok (new_registry :: u8 registry)" by (simp add: registry_ok_def new_registry_def)
  from registry_ops_keep_ok [OF this] show ?thesis by blast
qed

text \<open>
  a topic takes one handler: after a successful \<open>Register\<close> a second one for the same topic fails
  and changes nothing, and \<open>GetHandler\<close> finds the first handler, whatever patterns are registered
  besides and in whatever order they are visited.
\<close>

theorem register_topic_once:
  assumes "register emb proj (Some t) (Some h) (Some r) = (Inr (), Some r')"
  shows "get_handler order r' (t_name t) = Inr (Some (wrap_handler emb proj h)) \<and>
         (\<exists>e. register emb' proj' (Some t) (Some h') (Some r') = (Inl e, Some r'))"
proof -
  have reg: "register_topic emb proj (t_name t) h r = (Inr (), r')"
    using assms by (auto simp: register_def on_registry_def split: prod.splits)
  then have "map_of (reg_handlers r') (t_name t) = Some (wrap_handler emb proj h)"
    by (rule topics.register_twice)
  moreover from this obtain e where "register_topic emb' proj' (t_name t) h' r' = (Inl e, r')"
    using topics.register_known [of r' "t_name t" emb' proj' h'] by auto
  ultimately show ?thesis by (auto simp: get_handler_def register_def on_registry_def)
qed

lemma register_topic_once_witness:
  "\<exists>r'. get_handler [] r' ''blocks'' = Inr (Some (wrap_handler (\<lambda>b. b) Some byte_handler)) \<and>
        reg_handlers r' = [(''blocks'', wrap_handler (\<lambda>b. b) Some byte_handler)]"
proof -
  let ?r = "\<lparr>reg_handlers = [(''blocks'', wrap_handler (\<lambda>b. b) Some byte_handler)], reg_subnet_handlers = []\<rparr>"
  have "register (\<lambda>b. b) Some (Some \<lparr>t_name = ''blocks''\<rparr>) (Some byte_handler) (Some new_registry) = (Inr (), Some ?r)"
    by (simp add: register_def on_registry_def register_topic_def byte_handler_valid new_registry_def)
  from register_topic_once [OF this, of "[]" "\<lambda>b. b" Some byte_handler] show ?thesis
    by (intro exI [of _ ?r]) simp
qed

text \<open>
  the type-erased handler \<open>Register\<close> stores behaves like the typed one on messages of its type:
  it decodes with the decoder (or, without one, with the encoder), validates and processes with
  the typed functions, encodes what the encoder encodes; a message of another type is rejected
  by the validator and an error for the processor and the encoder.
\<close>

theorem wrapped_handler_behaves:
  assumes "\<And>m. proj (emb m) = Some m" and "validate_handler h = None"
  shows "map_option (\<lambda>f. f d) (hc_decoder (wrap_handler emb proj h)) =
           Some (map_ok emb (case hc_decoder h of Some f \<Rightarrow> f d | None \<Rightarrow> enc_decode (the (hc_encoder h)) d)) \<and>
         map_option (\<lambda>f. f (emb m) from) (hc_validator (wrap_handler emb proj h)) =
           map_option (\<lambda>f. f m from) (hc_validator h) \<and>
         map_option (\<lambda>f. f (emb m) from) (hc_processor (wrap_handler emb proj h)) =
           map_option (\<lambda>f. f m from) (hc_processor h) \<and>
         (hc_encoder h \<noteq> None \<longrightarrow>
           enc_encode (the (hc_encoder (wrap_handler emb proj h))) (emb m) = enc_encode (the (hc_encoder h)) m) \<and>
         (proj a = None \<longrightarrow>
           (case hc_validator (wrap_handler emb proj h) of None \<Rightarrow> True | Some f \<Rightarrow> f a from = ValidationReject) \<and>
           (case hc_processor (wrap_handler emb proj h) of None \<Rightarrow> True | Some f \<Rightarrow> f a from \<noteq> None) \<and>
           \<not> is_ok (enc_encode (the (hc_encoder (wrap_handler emb proj h))) a))"
  using assms(2)
  by (auto simp: assms(1) wrap_handler_def wrap_decoder_def wrap_validator_def wrap_processor_def
      wrap_encoder_def any_encode_def validate_handler_def split: option.splits if_splits)

lemma wrapped_handler_behaves_witness:
  "map_option (\<lambda>f. f [7]) (hc_decoder (wrap_handler Inl (\<lambda>a. case a of Inl b \<Rightarrow> Some b | Inr () \<Rightarrow> None) byte_handler)) =
     Some (Inr (Inl 7))"
  using wrapped_handler_behaves [where proj = "\<lambda>a. case a of Inl b \<Rightarrow> Some b | Inr () \<Rightarrow> None" and emb = Inl
      and h = byte_handler and d = "[7]"] byte_handler_valid
  by (simp add: byte_handler_def new_handler_config_def handler_option_defs empty_handler_config_def
      new_ssz_encoder_def ssz_decode_def byte_type_def)

text \<open>
  two things \<open>Register\<close> loses. The invalid payload handler of a configuration is not carried
  over, so it is never called; and the stored encoder is never nil: for a configuration with a
  decoder and no encoder, encoding a message of the right type dereferences a nil pointer.
\<close>

theorem register_loses:
  assumes "proj (emb m) = Some m"
  shows "hc_invalid_payload_handler (wrap_handler emb proj (with_invalid_payload_handler f h)) = None \<and>
         (\<exists>e. hc_encoder (wrap_handler emb proj h) = Some e \<and>
              (hc_encoder h = None \<longrightarrow> panics (enc_encode e (emb m))))"
  using assms by (simp add: wrap_handler_def wrap_encoder_def any_encode_def nil_deref_def)

lemma register_loses_witness:
  "hc_invalid_payload_handler (wrap_handler (\<lambda>b. b) Some (with_invalid_payload_handler (Some 1) byte_handler)) = None"
  using register_loses [of Some "\<lambda>b. b" 0 "Some 1" byte_handler] by blast

lemma get_subnet_handler_others:
  assumes "\<forall>p \<in> set order. p \<noteq> pattern \<longrightarrow> map_of (reg_subnet_handlers r) p \<noteq> None \<longrightarrow>
             (\<exists>e. parse_subnet \<lparr>st_pattern = p, st_max_subnets = - 1\<rparr> name = Inl (Err e))"
    and "map_of (reg_subnet_handlers r) pattern = Some h"
    and "parse_subnet \<lparr>st_pattern = pattern, st_max_subnets = - 1\<rparr> name = Inr n"
    and "pattern \<in> set order"
  shows "get_subnet_handler order r name = Inr (Some h)"
  using assms(1,4)
proof (induction order)
  case Nil
  then show ?case by simp
next
  case (Cons p ps)
  show ?case
  proof (cases "p = pattern")
    case True
    then show ?thesis using assms(2,3) by simp
  next
    case False
    then have ih: "get_subnet_handler ps r name = Inr (Some h)" using Cons by simp
    have "map_of (reg_subnet_handlers r) p \<noteq> None \<longrightarrow>
        (\<exists>e. parse_subnet \<lparr>st_pattern = p, st_max_subnets = - 1\<rparr> name = Inl (Err e))"
      using Cons.prems(1) False by simp
    then show ?thesis using ih by (auto split: option.splits)
  qed
qed

lemma parse_subnet_unbounded:
  assumes "parse_subnet st name = Inr n"
  shows "parse_subnet \<lparr>st_pattern = st_pattern st, st_max_subnets = - 1\<rparr> name = Inr n"
proof -
  have "m \<noteq> - 1" if "m < st_max_subnets st" for m :: u64
    using that by (metis word_n1_ge leD)
  then have "\<not> (- 1 :: u64) \<le> m" if "\<not> st_max_subnets st \<le> m" for m :: u64
    using that by (metis not_le word_n1_ge antisym)
  then show ?thesis using assms
    by (auto simp: parse_subnet_def Let_def split: if_splits sum.splits)
qed

text \<open>
  a message for a subnet reaches the handler of its pattern: the topic \<open>TopicForSubnet\<close> names for
  a registered pattern of the usual form is found by \<open>GetHandler\<close>, in whatever order the patterns
  are visited, if no exact topic of that name and no other pattern takes the name.
\<close>

theorem get_handler_subnet:
  assumes "simple_pattern st pre suf" and "topic_for_subnet st n fd = Inr t"
    and "map_of (reg_subnet_handlers r) (st_pattern st) = Some h"
    and "map_of (reg_handlers r) (t_name t) = None"
    and "set order = set (map fst (reg_subnet_handlers r))"
    and "\<forall>p \<in> set order. p \<noteq> st_pattern st \<longrightarrow>
           (\<exists>e. parse_subnet \<lparr>st_pattern = p, st_max_subnets = - 1\<rparr> (t_name t) = Inl (Err e))"
  shows "get_handler order r (t_name t) = Inr (Some h) \<and> has_handler order r (t_name t) = Inr True"
proof -
  have "parse_subnet st (t_name t) = Inr n" using assms(1,2) by (rule parse_topic_for_subnet)
  then have p: "parse_subnet \<lparr>st_pattern = st_pattern st, st_max_subnets = - 1\<rparr> (t_name t) = Inr n"
    by (rule parse_subnet_unbounded)
  have "st_pattern st \<in> set order"
    using assms(3,5) by (metis map_of_eq_None_iff option.distinct(1) set_map)
  then have "get_subnet_handler order r (t_name t) = Inr (Some h)"
    using assms(3,6) p by (intro get_subnet_handler_others) auto
  then show ?thesis using assms(4) by (simp add: get_handler_def has_handler_def)
qed

lemma get_handler_subnet_witness:
  "get_handler [''sync_committee_%d''] \<lparr>reg_handlers = [], reg_subnet_handlers = [(''sync_committee_%d'', byte_handler)]\<rparr>
     ''/eth2/01020304/sync_committee_3/ssz_snappy'' = Inr (Some byte_handler)"
proof -
  let ?st = "\<lparr>st_pattern = ''sync_committee_%d'', st_max_subnets = 4\<rparr>"
  have "topic_for_subnet ?st 3 [1, 2, 3, 4] = Inr \<lparr>t_name = ''/eth2/01020304/sync_committee_3/ssz_snappy''\<rparr>"
    by code_simp
  moreover have "simple_pattern ?st ''sync_committee_'' []" by (simp add: simple_pattern_def plain_text_def)
  ultimately show ?thesis
    using get_handler_subnet [of ?st "''sync_committee_''" "[]" 3 "[1, 2, 3, 4]"
        "\<lparr>t_name = ''/eth2/01020304/sync_committee_3/ssz_snappy''\<rparr>"
        "\<lparr>reg_handlers = [], reg_subnet_handlers = [(''sync_committee_%d'', byte_handler)]\<rparr>" byte_handler "[''sync_committee_%d'']"]
    by simp
qed

end
