(* ===== verification/Subscriptions.thy ===== *)
theory Subscriptions
  imports Topics "HOL-Library.AList"
begin

text \<open>
  Subscription handles: the \<open>Subscription\<close> and \<open>SubnetSubscription\<close> types of
  \<open>pubsub/v1/subscription.go\<close>. Handles are shared by reference, so they live in a store:
  a \<open>*Subscription\<close> is an index into it or nil (\<open>None\<close>), and cancelling through one
  reference is seen through every other. \<open>ss_cancel_calls\<close> lists the context cancel functions
  that were called.
\<close>

section \<open>One subscription\<close>

record subscription =
  sub_topic :: string
  sub_cancel :: "nat option"
  sub_cancelled :: bool

record sub_store =
  ss_subs :: "nat \<Rightarrow> subscription"
  ss_cancel_calls :: "nat list"

type_synonym sub_ref = "nat option"

definition subscription_topic :: "sub_store \<Rightarrow> sub_ref \<Rightarrow> string" where
  "subscription_topic s p = (case p of None \<Rightarrow> [] | Some i \<Rightarrow> sub_topic (ss_subs s i))"

definition cancel_subscription :: "sub_ref \<Rightarrow> sub_store \<Rightarrow> sub_store" where
  "cancel_subscription p s =
     (case p of
        None \<Rightarrow> s
      | Some i \<Rightarrow>
          if sub_cancelled (ss_subs s i) then s
          else s\<lparr>ss_subs := (ss_subs s)(i := (ss_subs s i)\<lparr>sub_cancelled := True\<rparr>),
                 ss_cancel_calls := ss_cancel_calls s @ (case sub_cancel (ss_subs s i) of None \<Rightarrow> [] | Some c \<Rightarrow> [c])\<rparr>)"

definition is_cancelled :: "sub_store \<Rightarrow> sub_ref \<Rightarrow> bool" where
  "is_cancelled s p = (case p of None \<Rightarrow> True | Some i \<Rightarrow> sub_cancelled (ss_subs s i))"

definition cancel_all :: "sub_ref list \<Rightarrow> sub_store \<Rightarrow> sub_store" where
  "cancel_all ps s = foldl (\<lambda>s p. cancel_subscription p s) s ps"

section \<open>Subnet subscriptions\<close>

text \<open>The Go map from subnets to handles as an association list.\<close>

record subnet_subscription =
  sns_subscriptions :: "(u64 \<times> sub_ref) list"
  sns_topic :: subnet_topic
  sns_store :: sub_store

definition new_subnet_subscription :: "subnet_topic option \<Rightarrow> sub_store \<Rightarrow> string + subnet_subscription" where
  "new_subnet_subscription st s =
     (case st of
        None \<Rightarrow> Inl ''subnet topic cannot be nil''
      | Some t \<Rightarrow> Inr \<lparr>sns_subscriptions = [], sns_topic = t, sns_store = s\<rparr>)"

definition subnet_range_error :: "subnet_topic \<Rightarrow> u64 \<Rightarrow> string" where
  "subnet_range_error t subnet =
     ''subnet '' @ dec_of_nat (unat subnet) @ '' exceeds maximum '' @ dec_of_nat (unat (st_max_subnets t - 1))"

definition subnet_add :: "u64 \<Rightarrow> sub_ref \<Rightarrow> (subnet_subscription, string, unit) act" where
  "subnet_add subnet p = (\<lambda>ss.
     if p = None then (Inl ''subscription cannot be nil'', ss)
     else if st_max_subnets (sns_topic ss) \<le> subnet then (Inl (subnet_range_error (sns_topic ss) subnet), ss)
     else
       (let store = (case map_of (sns_subscriptions ss) subnet of
                       Some existing \<Rightarrow> cancel_subscription existing (sns_store ss)
                     | None \<Rightarrow> sns_store ss) in
        (Inr (), ss\<lparr>sns_subscriptions := AList.update subnet p (sns_subscriptions ss), sns_store := store\<rparr>)))"

definition subnet_remove :: "u64 \<Rightarrow> subnet_subscription \<Rightarrow> bool \<times> subnet_subscription" where
  "subnet_remove subnet ss =
     (case map_of (sns_subscriptions ss) subnet of
        None \<Rightarrow> (False, ss)
      | Some p \<Rightarrow>
          (True, ss\<lparr>sns_subscriptions := AList.delete subnet (sns_subscriptions ss),
                    sns_store := cancel_subscription p (sns_store ss)\<rparr>))"

text \<open>
  \<open>Set\<close>: \<open>new\<close> lists the caller's map in the order the validation loop visits it, so the error
  names the first subnet out of range in that order.
\<close>

definition subnet_set :: "(u64 \<times> sub_ref) list \<Rightarrow> (subnet_subscription, string, unit) act" where
  "subnet_set new = (\<lambda>ss.
     case filter (\<lambda>(subnet, _). st_max_subnets (sns_topic ss) \<le> subnet) new of
       (subnet, _) # _ \<Rightarrow> (Inl (subnet_range_error (sns_topic ss) subnet), ss)
     | [] \<Rightarrow>
         (Inr (), ss\<lparr>sns_subscriptions := filter (\<lambda>(_, p). p \<noteq> None) new,
                     sns_store := cancel_all (map snd (filter (\<lambda>(subnet, _). map_of new subnet = None) (sns_subscriptions ss)))
                       (sns_store ss)\<rparr>))"

definition subnet_active :: "subnet_subscription \<Rightarrow> u64 list" where
  "subnet_active ss =
     map fst (filter (\<lambda>(_, p). p \<noteq> None \<and> \<not> is_cancelled (sns_store ss) p) (sns_subscriptions ss))"

definition subnet_get :: "subnet_subscription \<Rightarrow> u64 \<Rightarrow> sub_ref" where
  "subnet_get ss subnet = (case map_of (sns_subscriptions ss) subnet of Some p \<Rightarrow> p | None \<Rightarrow> None)"

definition subnet_clear :: "subnet_subscription \<Rightarrow> subnet_subscription" where
  "subnet_clear ss =
     ss\<lparr>sns_subscriptions := [],
        sns_store := cancel_all (map snd (filter (\<lambda>(_, p). p \<noteq> None) (sns_subscriptions ss))) (sns_store ss)\<rparr>"

definition subnet_count :: "subnet_subscription \<Rightarrow> nat" where
  "subnet_count ss =
     foldl (\<lambda>n (_, p). if p \<noteq> None \<and> \<not> is_cancelled (sns_store ss) p then n + 1 else n) 0 (sns_subscriptions ss)"

section \<open>Cancelling\<close>

lemma is_cancelled_cancel: "is_cancelled (cancel_subscription p s) q \<longleftrightarrow> q = p \<or> is_cancelled s q"
  by (auto simp: is_cancelled_def cancel_subscription_def split: option.splits)

lemma is_cancelled_cancel_all: "is_cancelled (cancel_all ps s) q \<longleftrightarrow> q \<in> set ps \<or> is_cancelled s q"
  by (induction ps arbitrary: s) (auto simp: cancel_all_def is_cancelled_cancel)

lemma cancel_subscription_idem: "cancel_subscription p (cancel_subscription p s) = cancel_subscription p s"
  by (auto simp: cancel_subscription_def split: option.splits)

text \<open>
  \<open>Cancel\<close> may be called any number of times, through any number of references, in any order:
  the subscriptions cancelled afterwards are those cancelled before and those named, and the
  context of each is cancelled exactly once, when its subscription first is.
\<close>

theorem cancel_exactly_once:
  fixes s :: sub_store
  assumes "\<And>i. sub_cancel (ss_subs s i) = Some i" and "\<And>i. \<not> sub_cancelled (ss_subs s i)"
    and "ss_cancel_calls s = []"
  shows "distinct (ss_cancel_calls (cancel_all ps s)) \<and>
         set (map Some (ss_cancel_calls (cancel_all ps s))) = set ps - {None} \<and>
         (\<forall>q. is_cancelled (cancel_all ps s) q \<longleftrightarrow> q = None \<or> q \<in> set ps)"
proof -
  define ok where "ok s = ((\<forall>i. sub_cancel (ss_subs s i) = Some i) \<and> distinct (ss_cancel_calls s) \<and>
      (\<forall>i. i \<in> set (ss_cancel_calls s) \<longleftrightarrow> sub_cancelled (ss_subs s i)))" for s :: sub_store
  have step: "ok s \<Longrightarrow> ok (cancel_subscription p s)" for p s
    by (auto simp: ok_def cancel_subscription_def split: option.splits)
  have "ok s \<Longrightarrow> ok (cancel_all ps s)" for s :: sub_store
    by (induction ps arbitrary: s) (simp_all add: cancel_all_def step)
  moreover have "ok s" using assms by (simp add: ok_def)
  ultimately have final: "ok (cancel_all ps s)" by simp
  have canc: "is_cancelled (cancel_all ps s) q \<longleftrightarrow> q = None \<or> q \<in> set ps" for q
    using assms(2) is_cancelled_cancel_all [of ps s q] by (cases q) (auto simp: is_cancelled_def)
  have "i \<in> set (ss_cancel_calls (cancel_all ps s)) \<longleftrightarrow> Some i \<in> set ps" for i
    using final canc [of "Some i"] by (auto simp: ok_def is_cancelled_def)
  then have "x \<in> set (map Some (ss_cancel_calls (cancel_all ps s))) \<longleftrightarrow> x \<in> set ps - {None}" for x
    by (cases x) auto
  then have "set (map Some (ss_cancel_calls (cancel_all ps s))) = set ps - {None}" by (rule set_eqI)
  with final canc show ?thesis by (simp add: ok_def)
qed

lemma cancel_exactly_once_witness:
  "distinct (ss_cancel_calls (cancel_all [Some 1, None, Some 1]
     \<lparr>ss_subs = (\<lambda>i. \<lparr>sub_topic = ''t'', sub_cancel = Some i, sub_cancelled = False\<rparr>), ss_cancel_calls = []\<rparr>))"
  using cancel_exactly_once
    [of "\<lparr>ss_subs = (\<lambda>i. \<lparr>sub_topic = ''t'', sub_cancel = Some i, sub_cancelled = False\<rparr>), ss_cancel_calls = []\<rparr>"
      "[Some 1, None, Some 1]"] by simp

section \<open>The subnet map\<close>

text \<open>Every subnet once, in range, with a handle.\<close>

definition subnets_ok :: "subnet_subscription \<Rightarrow> bool" where
  "subnets_ok ss \<longleftrightarrow> distinct (map fst (sns_subscriptions ss)) \<and>
     (\<forall>subnet p. map_of (sns_subscriptions ss) subnet = Some p \<longrightarrow>
        subnet < st_max_subnets (sns_topic ss) \<and> p \<noteq> None)"

lemma map_of_filter_value:
  "distinct (map fst xs) \<Longrightarrow> map_of (filter (\<lambda>(_, v). P v) xs) k = Some v \<longleftrightarrow> map_of xs k = Some v \<and> P v"
  by (induction xs) (auto simp: map_of_eq_None_iff rev_image_eqI dest: map_of_SomeD)

lemma map_of_delete: "map_of (AList.delete k xs) = (map_of xs)(k := None)"
  by (rule delete_conv')

lemma distinct_filter_keys: "distinct (map fst xs) \<Longrightarrow> distinct (map fst (filter P xs))"
  by (rule distinct_map_filter)

lemma subnet_add_ok: "subnets_ok ss \<Longrightarrow> subnets_ok (snd (subnet_add subnet p ss))"
  by (auto simp: subnets_ok_def subnet_add_def Let_def not_le distinct_update update_conv' simp del: map_of_eq_Some_iff split: if_splits)

lemma subnet_remove_ok: "subnets_ok ss \<Longrightarrow> subnets_ok (snd (subnet_remove subnet ss))"
  by (auto simp: subnets_ok_def subnet_remove_def map_of_delete distinct_delete simp del: map_of_eq_Some_iff
      split: option.splits if_splits)

lemma subnet_set_ok:
  assumes "subnets_ok ss" and "distinct (map fst new)"
  shows "subnets_ok (snd (subnet_set new ss))"
proof (cases "filter (\<lambda>(subnet, _). st_max_subnets (sns_topic ss) \<le> subnet) new")
  case (Cons a as)
  then show ?thesis using assms(1) by (simp add: subnet_set_def split: prod.splits)
next
  case Nil
  then have "\<forall>(subnet, p) \<in> set new. subnet < st_max_subnets (sns_topic ss)"
    by (auto simp: filter_empty_conv not_le)
  then show ?thesis using assms(2) Nil
    by (auto simp: subnet_set_def subnets_ok_def distinct_filter_keys map_of_filter_value dest!: map_of_SomeD)
qed

text \<open>
  the manager's invariant (every subnet at most once, below the maximum, with a handle) holds
  for a new manager and after every operation, failed ones included.
\<close>

theorem subnet_ops_keep_ok:
  assumes "subnets_ok ss" and "distinct (map fst new)"
  shows "subnets_ok (snd (subnet_add subnet p ss)) \<and> subnets_ok (snd (subnet_remove subnet ss)) \<and>
         subnets_ok (snd (subnet_set new ss)) \<and> subnets_ok (subnet_clear ss) \<and>
         (\<forall>t s ss'. new_subnet_subscription t s = Inr ss' \<longrightarrow> subnets_ok ss')"
proof (intro conjI)
  show "subnets_ok (subnet_clear ss)" by (simp add: subnets_ok_def subnet_clear_def)
  show "\<forall>t s ss'. new_subnet_subscription t s = Inr ss' \<longrightarrow> subnets_ok ss'"
    by (auto simp: subnets_ok_def new_subnet_subscription_def split: option.splits)
qed (simp_all only: assms subnet_add_ok subnet_remove_ok subnet_set_ok)

definition demo_store :: sub_store where
  "demo_store = \<lparr>ss_subs = (\<lambda>i. \<lparr>sub_topic = ''t'', sub_cancel = Some i, sub_cancelled = False\<rparr>), ss_cancel_calls = []\<rparr>"

definition demo_subnets :: "(u64 \<times> sub_ref) list \<Rightarrow> subnet_subscription" where
  "demo_subnets subs = \<lparr>sns_subscriptions = subs,
     sns_topic = \<lparr>st_pattern = ''sync_committee_%d'', st_max_subnets = 4\<rparr>, sns_store = demo_store\<rparr>"

lemma subnet_ops_keep_ok_witness: "subnets_ok (snd (subnet_add 3 (Some 7) (demo_subnets [(3, Some 1)])))"
proof -
  have "subnets_ok (demo_subnets [(3, Some 1)])" by (simp add: subnets_ok_def demo_subnets_def)
  from subnet_ops_keep_ok [OF this, of "[]"] show ?thesis by simp
qed

text \<open>
  a successful \<open>Add\<close> puts the handle in place and cancels the one it replaces, and nothing else
  is cancelled; so adding the handle that is already there cancels it and leaves a cancelled
  subscription in the map, which \<open>Active\<close> does not list.
\<close>

theorem subnet_add_replaces:
  assumes "subnet_add subnet p ss = (Inr (), ss')"
  shows "subnet_get ss' subnet = p \<and>
         (\<forall>k. k \<noteq> subnet \<longrightarrow> subnet_get ss' k = subnet_get ss k) \<and>
         (\<forall>q. is_cancelled (sns_store ss') q \<longleftrightarrow>
            is_cancelled (sns_store ss) q \<or> map_of (sns_subscriptions ss) subnet = Some q) \<and>
         (subnet_get ss subnet = p \<longrightarrow> is_cancelled (sns_store ss') p)"
proof -
  from assms have "p \<noteq> None"
    and subs: "sns_subscriptions ss' = AList.update subnet p (sns_subscriptions ss)"
    and store: "sns_store ss' = (case map_of (sns_subscriptions ss) subnet of
        Some existing \<Rightarrow> cancel_subscription existing (sns_store ss) | None \<Rightarrow> sns_store ss)"
    by (auto simp: subnet_add_def Let_def split: if_splits)
  have canc: "is_cancelled (sns_store ss') q \<longleftrightarrow>
      is_cancelled (sns_store ss) q \<or> map_of (sns_subscriptions ss) subnet = Some q" for q
    by (auto simp: store is_cancelled_cancel split: option.splits)
  have "subnet_get ss subnet = p \<Longrightarrow> map_of (sns_subscriptions ss) subnet = Some p"
    using \<open>p \<noteq> None\<close> by (auto simp: subnet_get_def split: option.splits)
  with canc show ?thesis by (auto simp: subnet_get_def subs update_conv')
qed

lemma subnet_add_replaces_witness:
  "is_cancelled (sns_store (snd (subnet_add 3 (Some 1) (demo_subnets [(3, Some 1)])))) (Some 1)"
proof -
  have "subnet_add 3 (Some 1) (demo_subnets [(3, Some 1)]) =
      (Inr (), snd (subnet_add 3 (Some 1) (demo_subnets [(3, Some 1)])))"
    by (simp add: subnet_add_def demo_subnets_def Let_def)
  from subnet_add_replaces [OF this] show ?thesis by (simp add: subnet_get_def demo_subnets_def)
qed

text \<open>
  a successful \<open>Set\<close> installs exactly the handles of the new map that are not nil, and cancels
  exactly the old handles whose subnet is not a key of the new map. A handle whose subnet gets
  another handle, or nil, is dropped without being cancelled. A failed \<open>Set\<close> changes nothing.
\<close>

theorem subnet_set_effect:
  assumes "distinct (map fst new)" and "subnet_set new ss = (r, ss')"
  shows "case r of
     Inl _ \<Rightarrow> ss' = ss \<and> (\<exists>x \<in> set new. st_max_subnets (sns_topic ss) \<le> fst x)
   | Inr _ \<Rightarrow>
       (\<forall>subnet p. map_of (sns_subscriptions ss') subnet = Some p \<longleftrightarrow> map_of new subnet = Some p \<and> p \<noteq> None) \<and>
       (\<forall>q. is_cancelled (sns_store ss') q \<longleftrightarrow> is_cancelled (sns_store ss) q \<or>
          (\<exists>subnet. (subnet, q) \<in> set (sns_subscriptions ss) \<and> map_of new subnet = None))"
proof (cases "filter (\<lambda>(subnet, _). st_max_subnets (sns_topic ss) \<le> subnet) new")
  case (Cons a as)
  then have "a \<in> set (filter (\<lambda>(subnet, _). st_max_subnets (sns_topic ss) \<le> subnet) new)" by simp
  then have "a \<in> set new \<and> st_max_subnets (sns_topic ss) \<le> fst a" by auto
  then show ?thesis using assms(2) Cons by (cases a) (auto simp: subnet_set_def, metis fst_conv)
next
  case Nil
  let ?old = "map snd (filter (\<lambda>(subnet, _). map_of new subnet = None) (sns_subscriptions ss))"
  have r: "r = Inr ()" and subs: "sns_subscriptions ss' = filter (\<lambda>(_, p). p \<noteq> None) new"
    and store: "sns_store ss' = cancel_all ?old (sns_store ss)"
    using assms(2) Nil by (auto simp: subnet_set_def)
  have "q \<in> set ?old \<longleftrightarrow> (\<exists>subnet. (subnet, q) \<in> set (sns_subscriptions ss) \<and> map_of new subnet = None)" for q
    by force
  moreover have "map_of (sns_subscriptions ss') subnet = Some p \<longleftrightarrow> map_of new subnet = Some p \<and> p \<noteq> None" for subnet p
    unfolding subs by (rule map_of_filter_value [OF assms(1)])
  ultimately show ?thesis unfolding r store by (simp add: is_cancelled_cancel_all del: set_map) blast
qed

lemma subnet_set_effect_witness:
  "\<not> is_cancelled (sns_store (snd (subnet_set [(3, Some 2)] (demo_subnets [(3, Some 1)])))) (Some 1) \<and>
   is_cancelled (sns_store (snd (subnet_set [(2, Some 2)] (demo_subnets [(3, Some 1)])))) (Some 1)"
proof -
  have eq: "subnet_set new (demo_subnets subs) = (Inr (), snd (subnet_set new (demo_subnets subs)))"
    if "new = [(3, Some 2)] \<or> new = [(2, Some 2)]" for new subs
    using that by (auto simp: subnet_set_def demo_subnets_def)
  show ?thesis
    using subnet_set_effect [OF _ eq [of "[(3, Some 2)]" "[(3, Some 1)]"]]
      subnet_set_effect [OF _ eq [of "[(2, Some 2)]" "[(3, Some 1)]"]]
    by (simp add: demo_subnets_def) (simp add: is_cancelled_def demo_store_def)
qed

lemma subnet_count_active: "subnet_count ss = length (subnet_active ss)"
proof -
  have "foldl (\<lambda>n (_, p). if P p then n + 1 else n) k xs = k + length (filter (\<lambda>(_, p). P p) xs)"
    for P k and xs :: "(u64 \<times> sub_ref) list"
    by (induction xs arbitrary: k) auto
  then show ?thesis by (simp add: subnet_count_def subnet_active_def)
qed

text \<open>
  C0: \<open>Count\<close> is the number of subnets \<open>Active\<close> lists, which are distinct and are exactly the subnets
  whose handle is not cancelled; \<open>Remove\<close> and \<open>Clear\<close> cancel what they take out, and after \<open>Clear\<close>
  nothing is active.
\<close>

theorem subnet_active_exact:
  assumes "subnets_ok ss"
  shows "subnet_count ss = length (subnet_active ss) \<and> distinct (subnet_active ss) \<and>
         (\<forall>k. k \<in> set (subnet_active ss) \<longleftrightarrow> \<not> is_cancelled (sns_store ss) (subnet_get ss k)) \<and>
         (fst (subnet_remove k ss) \<longrightarrow> is_cancelled (sns_store (snd (subnet_remove k ss))) (subnet_get ss k)) \<and>
         subnet_get (snd (subnet_remove k ss)) k = None \<and>
         subnet_count (subnet_clear ss) = 0 \<and>
         (\<forall>k. is_cancelled (sns_store (subnet_clear ss)) (subnet_get ss k))"
proof -
  let ?subs = "sns_subscriptions ss"
  have d: "distinct (map fst ?subs)" using assms by (simp add: subnets_ok_def)
  have get: "subnet_get ss k = Some i \<longleftrightarrow> (k, Some i) \<in> set ?subs" for k i
    by (simp add: subnet_get_def map_of_eq_Some_iff [OF d, symmetric] del: map_of_eq_Some_iff split: option.splits)
  have act: "k \<in> set (subnet_active ss) \<longleftrightarrow> (\<exists>i. (k, Some i) \<in> set ?subs \<and> \<not> is_cancelled (sns_store ss) (Some i))" for k
    by (force simp: subnet_active_def)
  have none: "is_cancelled s None" for s by (simp add: is_cancelled_def)
  have "k \<in> set (subnet_active ss) \<longleftrightarrow> \<not> is_cancelled (sns_store ss) (subnet_get ss k)" for k
    unfolding act using get [of k] none by (metis option.exhaust)
  moreover have "is_cancelled (sns_store (subnet_clear ss)) (subnet_get ss k)" for k
  proof (cases "subnet_get ss k")
    case (Some i)
    then have "(k, Some i) \<in> set ?subs" by (simp only: get)
    then show ?thesis by (force simp: Some subnet_clear_def is_cancelled_cancel_all)
  qed (simp add: none)
  moreover have "distinct (subnet_active ss)"
    using d by (simp add: subnet_active_def distinct_filter_keys)
  moreover have "fst (subnet_remove k ss) \<Longrightarrow>
      is_cancelled (sns_store (snd (subnet_remove k ss))) (subnet_get ss k)"
    by (auto simp: subnet_remove_def subnet_get_def is_cancelled_cancel split: option.splits)
  moreover have "subnet_get (snd (subnet_remove k ss)) k = None"
    by (simp add: subnet_remove_def subnet_get_def map_of_delete split: option.splits)
  moreover have "subnet_count (subnet_clear ss) = 0" by (simp add: subnet_count_def subnet_clear_def)
  ultimately show ?thesis by (simp only: subnet_count_active simp_thms HOL.all_simps) blast
qed

lemma subnet_active_exact_witness:
  "subnet_count (demo_subnets [(3, Some 1)]) = length (subnet_active (demo_subnets [(3, Some 1)]))"
proof -
  have "subnets_ok (demo_subnets [(3, Some 1)])" by (simp add: subnets_ok_def demo_subnets_def)
  from subnet_active_exact [OF this] show ?thesis by blast
qed

end
