(* ===== verification/Gossip.thy ===== *)
theory Gossip
  imports Handlers Subscriptions
begin

text \<open>
  The gossipsub component: \<open>pubsub/v1/gossipsub.go\<close>, the message processor of
  \<open>subscription.go\<close> and \<open>events.go\<close>. libp2p's pubsub is a parameter \<open>lib\<close>: the outcome of a
  call (\<open>None\<close> a success, \<open>Some e\<close> an error) given the history of calls and outcomes before it;
  the state keeps that history. Metrics and logging are left out.

  A subscription, its context, its processor and the goroutine that waits for its context all
  carry the number \<open>g_next\<close> had when \<open>Subscribe\<close> made them.
\<close>

section \<open>Messages\<close>

datatype pubsub_result = PsAccept | PsReject | PsIgnore

datatype payload_fault = BadPayload bytes string | NoDecoder | DecoderPanic string

text \<open>Calls of the user's invalid payload handlers: of the topic, and the global one.\<close>

datatype payload_call =
    TopicInvalid nat bytes string peer_id
  | GlobalInvalid nat bytes string peer_id string

text \<open>Decompressing and decoding, the same steps in the validator and in the processor.\<close>

definition decode_payload :: "'a handler_config \<Rightarrow> bytes \<Rightarrow> payload_fault + 'a" where
  "decode_payload h data =
     (case (case hc_compressor h of None \<Rightarrow> Inr data | Some c \<Rightarrow> comp_decompress c data) of
        Inl e \<Rightarrow> Inl (BadPayload data e)
      | Inr d \<Rightarrow>
          (case (case hc_decoder h of Some f \<Rightarrow> Some f | None \<Rightarrow> map_option enc_decode (hc_encoder h)) of
             None \<Rightarrow> Inl NoDecoder
           | Some decoder \<Rightarrow>
               (case decoder d of
                  Inl (Err e) \<Rightarrow> Inl (BadPayload d e)
                | Inl (Panic m) \<Rightarrow> Inl (DecoderPanic m)
                | Inr msg \<Rightarrow> Inr msg)))"

definition invalid_calls ::
  "'a handler_config \<Rightarrow> nat option \<Rightarrow> string \<Rightarrow> bytes \<Rightarrow> string \<Rightarrow> peer_id \<Rightarrow> payload_call list" where
  "invalid_calls h global topic_name d e from =
     (case hc_invalid_payload_handler h of None \<Rightarrow> [] | Some f \<Rightarrow> [TopicInvalid f d e from]) @
     (case global of None \<Rightarrow> [] | Some f \<Rightarrow> [GlobalInvalid f d e from topic_name])"

definition to_pubsub_result :: "validation_result \<Rightarrow> pubsub_result" where
  "to_pubsub_result res =
     (if res = ValidationAccept then PsAccept
      else if res = ValidationReject then PsReject
      else if res = ValidationIgnore then PsIgnore
      else PsReject)"

text \<open>The function \<open>createLibp2pValidator\<close> gives to libp2p, and the handler calls it makes.\<close>

definition validate_message ::
  "'a handler_config \<Rightarrow> nat option \<Rightarrow> string \<Rightarrow> peer_id \<Rightarrow> bytes \<Rightarrow> (fault + pubsub_result) \<times> payload_call list" where
  "validate_message h global topic_name pid data =
     (case decode_payload h data of
        Inl (BadPayload d e) \<Rightarrow> (Inr PsReject, invalid_calls h global topic_name d e pid)
      | Inl NoDecoder \<Rightarrow> (Inr PsReject, [])
      | Inl (DecoderPanic m) \<Rightarrow> (Inl (Panic m), [])
      | Inr msg \<Rightarrow>
          (case hc_validator h of
             None \<Rightarrow> (Inl nil_deref, [])
           | Some validator \<Rightarrow> (Inr (to_pubsub_result (validator msg pid)), [])))"

text \<open>
  \<open>processMessage\<close>: the message given to the processor with the processor's error, if there was
  one to give and a processor to take it, and the handler calls.
\<close>

definition process_message ::
  "'a handler_config \<Rightarrow> nat option \<Rightarrow> string \<Rightarrow> peer_id \<Rightarrow> bytes \<Rightarrow>
     (fault + ('a \<times> string option) option) \<times> payload_call list" where
  "process_message h global topic_name from data =
     (case decode_payload h data of
        Inl (BadPayload d e) \<Rightarrow> (Inr None, invalid_calls h global topic_name d e from)
      | Inl NoDecoder \<Rightarrow> (Inr None, [])
      | Inl (DecoderPanic m) \<Rightarrow> (Inl (Panic m), [])
      | Inr msg \<Rightarrow>
          (case hc_processor h of
             None \<Rightarrow> (Inr None, [])
           | Some processor \<Rightarrow> (Inr (Some (msg, processor msg from)), [])))"

section \<open>State and libp2p calls\<close>

datatype ps_op =
    PsNew "nat list" | PsRegisterValidator string | PsUnregisterValidator string | PsJoin string
  | PsSetScore string nat | PsSubscribe string | PsCancelSub nat | PsPublish string bytes

type_synonym ps_history = "(ps_op \<times> string option) list"
type_synonym ps_lib = "ps_history \<Rightarrow> ps_op \<Rightarrow> string option"

record 'a gossip =
  g_started :: bool
  g_publish_timeout :: int
  g_params :: "(int \<times> nat) option"
  g_pubsub_opts :: "nat list"
  g_registry :: "'a registry"
  g_subscriptions :: "(string \<times> nat) list"
  g_processors :: "(string \<times> nat) list"
  g_store :: sub_store
  g_has_logger :: bool
  g_has_metrics :: bool
  g_global_invalid :: "nat option"
  g_ctx_cancelled :: bool
  g_history :: ps_history
  g_next :: nat
  g_waiting :: "(nat \<times> string) list"
  g_removing :: "(nat \<times> string) list"
  g_running :: "nat list"
  g_ctx_done :: "nat list"

definition ps_call :: "ps_lib \<Rightarrow> ps_op \<Rightarrow> ('a gossip, string, unit) act" where
  "ps_call lib op = (\<lambda>g.
     (case lib (g_history g) op of None \<Rightarrow> Inr () | Some e \<Rightarrow> Inl e,
      g\<lparr>g_history := g_history g @ [(op, lib (g_history g) op)]\<rparr>))"

section \<open>Options and creation\<close>

text \<open>An option may fail; \<open>None\<close> stands for a nil argument.\<close>

type_synonym 'a gossip_option = "('a gossip, string, unit) act"

definition with_logger :: "unit option \<Rightarrow> 'a gossip_option" where
  "with_logger log = (\<lambda>g. if log = None then (Inl ''logger cannot be nil'', g)
     else (Inr (), g\<lparr>g_has_logger := True\<rparr>))"

definition with_publish_timeout :: "int \<Rightarrow> 'a gossip_option" where
  "with_publish_timeout timeout = (\<lambda>g. if timeout \<le> 0 then (Inl ''publish timeout must be positive'', g)
     else (Inr (), g\<lparr>g_publish_timeout := timeout\<rparr>))"

text \<open>Parameters are their field \<open>D\<close> and the number of the pubsub option that carries them.\<close>

definition with_gossipsub_params :: "int \<times> nat \<Rightarrow> 'a gossip_option" where
  "with_gossipsub_params params = (\<lambda>g. (Inr (), g\<lparr>g_params := Some params\<rparr>))"

definition with_metrics :: "unit option \<Rightarrow> 'a gossip_option" where
  "with_metrics metrics = (\<lambda>g. if metrics = None then (Inl ''metrics cannot be nil'', g)
     else (Inr (), g\<lparr>g_has_metrics := True\<rparr>))"

definition with_global_invalid_payload_handler :: "nat option \<Rightarrow> 'a gossip_option" where
  "with_global_invalid_payload_handler handler = (\<lambda>g. (Inr (), g\<lparr>g_global_invalid := handler\<rparr>))"

definition with_pubsub_options :: "nat list \<Rightarrow> 'a gossip_option" where
  "with_pubsub_options opts = (\<lambda>g. (Inr (), g\<lparr>g_pubsub_opts := g_pubsub_opts g @ opts\<rparr>))"

definition initialize_pubsub :: "ps_lib \<Rightarrow> ('a gossip, string, unit) act" where
  "initialize_pubsub lib = (\<lambda>g.
     let g' = (case g_params g of
                 Some (d, opt) \<Rightarrow> if 0 < d then g\<lparr>g_pubsub_opts := g_pubsub_opts g @ [opt]\<rparr> else g
               | None \<Rightarrow> g) in
     act_wrap ''failed to create gossipsub'' (ps_call lib (PsNew (g_pubsub_opts g'))) g')"

definition empty_gossip :: "'a gossip" where
  "empty_gossip = \<lparr>g_started = False, g_publish_timeout = 5000000000, g_params = None, g_pubsub_opts = [],
     g_registry = new_registry, g_subscriptions = [], g_processors = [],
     g_store = \<lparr>ss_subs = (\<lambda>_. \<lparr>sub_topic = [], sub_cancel = None, sub_cancelled = False\<rparr>), ss_cancel_calls = []\<rparr>,
     g_has_logger = True, g_has_metrics = False, g_global_invalid = None, g_ctx_cancelled = False, g_history = [],
     g_next = 0, g_waiting = [], g_removing = [], g_running = [], g_ctx_done = []\<rparr>"

text \<open>\<open>New\<close>; the flags say whether the context and the host were given.\<close>

definition new_gossip :: "ps_lib \<Rightarrow> bool \<Rightarrow> bool \<Rightarrow> 'a gossip_option list \<Rightarrow> string + 'a gossip" where
  "new_gossip lib has_ctx has_host opts =
     (if \<not> has_ctx then Inl ''context cannot be nil''
      else if \<not> has_host then Inl ''host cannot be nil''
      else
        case act_bind (act_list (map (act_wrap ''failed to apply option'') opts))
               (\<lambda>_. act_wrap ''failed to initialize pubsub'' (initialize_pubsub lib)) empty_gossip of
          (Inl e, _) \<Rightarrow> Inl e
        | (Inr _, g) \<Rightarrow> Inr (g\<lparr>g_started := True\<rparr>))"

definition gossip_register :: "string \<Rightarrow> 'a handler_config \<Rightarrow> ('a gossip, string, unit) act" where
  "gossip_register topic_name handler = (\<lambda>g.
     if \<not> g_started g then (Inl ''gossipsub not started'', g)
     else case register_topic (\<lambda>a. a) Some topic_name handler (g_registry g) of
            (r, reg) \<Rightarrow> (r, g\<lparr>g_registry := reg\<rparr>))"

definition gossip_register_subnet :: "subnet_topic \<Rightarrow> 'a handler_config \<Rightarrow> ('a gossip, string, unit) act" where
  "gossip_register_subnet st handler = (\<lambda>g.
     if \<not> g_started g then (Inl ''gossipsub not started'', g)
     else case register_pattern (\<lambda>a. a) Some (st_pattern st) handler (g_registry g) of
            (r, reg) \<Rightarrow> (r, g\<lparr>g_registry := reg\<rparr>))"

section \<open>Subscribing\<close>

text \<open>The nil checks of \<open>newProcessor\<close>.\<close>

definition new_processor :: "string option \<Rightarrow> 'a handler_config option \<Rightarrow> bool \<Rightarrow> string option" where
  "new_processor topic handler has_sub =
     (if topic = None then Some ''topic cannot be nil''
      else if (case handler of None \<Rightarrow> True | Some _ \<Rightarrow> False) then Some ''handler cannot be nil''
      else if \<not> has_sub then Some ''subscription cannot be nil''
      else None)"

definition add_subscription :: "string \<Rightarrow> 'a gossip \<Rightarrow> 'a gossip" where
  "add_subscription name g =
     (let i = g_next g in
      g\<lparr>g_subscriptions := AList.update name i (g_subscriptions g),
        g_processors := AList.update name i (g_processors g),
        g_store := (g_store g)\<lparr>ss_subs := (ss_subs (g_store g))
          (i := \<lparr>sub_topic = name, sub_cancel = Some i, sub_cancelled = False\<rparr>)\<rparr>,
        g_next := i + 1, g_waiting := g_waiting g @ [(i, name)], g_running := g_running g @ [i]\<rparr>)"

text \<open>The libp2p calls of \<open>Subscribe\<close>, in their order; each failure returns at once.\<close>

definition subscribe_calls :: "ps_lib \<Rightarrow> string \<Rightarrow> 'a handler_config \<Rightarrow> ('a gossip, string, unit) act" where
  "subscribe_calls lib name h =
     act_bind
       (case hc_validator h of
          Some _ \<Rightarrow> act_wrap (''failed to register validator for topic '' @ name) (ps_call lib (PsRegisterValidator name))
        | None \<Rightarrow> act_return ()) (\<lambda>_.
     act_bind (act_wrap (''failed to join topic '' @ name) (ps_call lib (PsJoin name))) (\<lambda>_.
     act_bind
       (case hc_score_params h of
          Some p \<Rightarrow> act_wrap (''failed to set score params for topic '' @ name) (ps_call lib (PsSetScore name p))
        | None \<Rightarrow> act_return ()) (\<lambda>_.
     act_bind (act_wrap (''failed to subscribe to topic '' @ name) (ps_call lib (PsSubscribe name))) (\<lambda>_.
     case new_processor (Some name) (Some h) True of
       Some e \<Rightarrow>
         (\<lambda>g. (Inl (err_wrap ''failed to create processor'' e), snd (ps_call lib (PsCancelSub (g_next g)) g)))
     | None \<Rightarrow> act_return ()))))"

text \<open>\<open>Subscribe\<close>; the result is the handle of the new subscription.\<close>

definition subscribe :: "ps_lib \<Rightarrow> string list \<Rightarrow> topic \<Rightarrow> ('a gossip, fault, nat) act" where
  "subscribe lib order t = (\<lambda>g.
     if \<not> g_started g then (Inl (Err ''gossipsub not started''), g)
     else
       case get_handler order (g_registry g) (t_name t) of
         Inl f \<Rightarrow> (Inl f, g)
       | Inr None \<Rightarrow> (Inl (Err (''no handler registered for topic '' @ t_name t)), g)
       | Inr (Some h) \<Rightarrow>
           if (case map_of (g_subscriptions g) (t_name t) of
                 Some i \<Rightarrow> \<not> is_cancelled (g_store g) (Some i) | None \<Rightarrow> False) then
             (Inl (Err (''already subscribed to topic '' @ t_name t)), g)
           else
             case subscribe_calls lib (t_name t) h g of
               (Inl e, g') \<Rightarrow> (Inl (Err e), g')
             | (Inr _, g') \<Rightarrow> (Inr (g_next g'), add_subscription (t_name t) g'))"

definition subscribe_subnet ::
  "ps_lib \<Rightarrow> string list \<Rightarrow> subnet_topic \<Rightarrow> u64 \<Rightarrow> bytes \<Rightarrow> ('a gossip, fault, nat) act" where
  "subscribe_subnet lib order st subnet fork_digest = (\<lambda>g.
     if \<not> g_started g then (Inl (Err ''gossipsub not started''), g)
     else
       case topic_for_subnet st subnet fork_digest of
         Inl e \<Rightarrow> (Inl (Err (err_wrap ''failed to create subnet topic'' e)), g)
       | Inr t \<Rightarrow> subscribe lib order t g)"

definition create_subnet_subscription :: "'a gossip \<Rightarrow> subnet_topic option \<Rightarrow> string + subnet_subscription" where
  "create_subnet_subscription g st =
     (if \<not> g_started g then Inl ''gossipsub not started'' else new_subnet_subscription st (g_store g))"

section \<open>Publishing\<close>

definition publish :: "ps_lib \<Rightarrow> string list \<Rightarrow> topic \<Rightarrow> 'a \<Rightarrow> ('a gossip, fault, unit) act" where
  "publish lib order t msg = (\<lambda>g.
     if \<not> g_started g then (Inl (Err ''gossipsub not started''), g)
     else
       case get_handler order (g_registry g) (t_name t) of
         Inl f \<Rightarrow> (Inl f, g)
       | Inr None \<Rightarrow> (Inl (Err (''no handler registered for topic '' @ t_name t)), g)
       | Inr (Some h) \<Rightarrow>
           (case hc_encoder h of
              None \<Rightarrow> (Inl (Err (''no encoder configured for topic '' @ t_name t)), g)
            | Some enc \<Rightarrow>
                (case enc_encode enc msg of
                   Inl (Panic m) \<Rightarrow> (Inl (Panic m), g)
                 | Inl (Err e) \<Rightarrow> (Inl (Err (err_wrap ''failed to encode message'' e)), g)
                 | Inr d \<Rightarrow>
                     (case (case hc_compressor h of None \<Rightarrow> Inr d | Some c \<Rightarrow> comp_compress c d) of
                        Inl e \<Rightarrow> (Inl (Err (err_wrap (''failed to compress message for topic '' @ t_name t) e)), g)
                      | Inr out \<Rightarrow>
                          act_map_err (\<lambda>e. Err (err_wrap (''failed to publish to topic '' @ t_name t) e))
                            (ps_call lib (PsPublish (t_name t) out)) g))))"

section \<open>Unsubscribing and stopping\<close>

text \<open>
  \<open>removeProcessor\<close> takes two locks one after the other. Its first part takes the processor out
  of the map and stops it, its second unregisters the validator and deletes the subscription.
\<close>

definition stop_processor :: "ps_lib \<Rightarrow> nat \<Rightarrow> 'a gossip \<Rightarrow> 'a gossip" where
  "stop_processor lib i g = snd (ps_call lib (PsCancelSub i) (g\<lparr>g_running := removeAll i (g_running g)\<rparr>))"

definition remove_processor_entry :: "ps_lib \<Rightarrow> string \<Rightarrow> 'a gossip \<Rightarrow> 'a gossip" where
  "remove_processor_entry lib name g =
     (case map_of (g_processors g) name of
        Some i \<Rightarrow> stop_processor lib i (g\<lparr>g_processors := AList.delete name (g_processors g)\<rparr>)
      | None \<Rightarrow> g)"

definition remove_subscription_entry :: "ps_lib \<Rightarrow> string \<Rightarrow> 'a gossip \<Rightarrow> 'a gossip" where
  "remove_subscription_entry lib name g =
     (let g' = snd (ps_call lib (PsUnregisterValidator name) g) in
      g'\<lparr>g_subscriptions := AList.delete name (g_subscriptions g')\<rparr>)"

definition remove_processor :: "ps_lib \<Rightarrow> string \<Rightarrow> 'a gossip \<Rightarrow> 'a gossip" where
  "remove_processor lib name g = remove_subscription_entry lib name (remove_processor_entry lib name g)"

text \<open>\<open>Stop\<close> up to its wait for the goroutines, and after it.\<close>

definition stop_begin :: "ps_lib \<Rightarrow> ('a gossip, string, unit) act" where
  "stop_begin lib = (\<lambda>g.
     if \<not> g_started g then (Inl ''gossipsub not started'', g)
     else
       (Inr (), foldl (\<lambda>g (_, i). stop_processor lib i g)
          (g\<lparr>g_ctx_cancelled := True,
             g_store := cancel_all (map (\<lambda>(_, i). Some i) (g_subscriptions g)) (g_store g)\<rparr>)
          (g_processors g)))"

definition stop_end :: "'a gossip \<Rightarrow> 'a gossip" where
  "stop_end g = g\<lparr>g_subscriptions := [], g_processors := [], g_started := False\<rparr>"

definition gossip_topic_count :: "'a gossip \<Rightarrow> nat" where
  "gossip_topic_count g = length (g_subscriptions g)"

definition active_topics :: "'a gossip \<Rightarrow> string list" where
  "active_topics g = map fst (g_subscriptions g)"

section \<open>The message path\<close>



text \<open>
  a payload that cannot be decompressed or decoded is rejected by the validator and not processed
  by the processor, and both report it to the same handlers: the topic's, then the global one.
\<close>

theorem bad_payload_rejected:
  assumes "decode_payload h data = Inl (BadPayload d e)"
  shows "validate_message h global topic_name from data = (Inr PsReject, invalid_calls h global topic_name d e from) \<and>
         process_message h global topic_name from data = (Inr None, invalid_calls h global topic_name d e from)"
  using assms by (simp add: validate_message_def process_message_def)

lemma bad_payload_rejected_witness:
  "validate_message (with_invalid_payload_handler (Some 1) byte_handler) (Some 2) ''blocks'' ''p'' [] =
     (Inr PsReject, [TopicInvalid 1 [] ''failed to unmarshal SSZ: size'' ''p'',
                     GlobalInvalid 2 [] ''failed to unmarshal SSZ: size'' ''p'' ''blocks''])"
proof -
  have "decode_payload (with_invalid_payload_handler (Some 1) byte_handler) [] =
      Inl (BadPayload [] ''failed to unmarshal SSZ: size'')"
    by (simp add: decode_payload_def byte_handler_def new_handler_config_def handler_option_defs
        empty_handler_config_def new_ssz_encoder_def ssz_decode_def byte_type_def err_wrap_def)
  from bad_payload_rejected [OF this, of "Some 2" "''blocks''" "''p''"] show ?thesis
    by (simp add: invalid_calls_def handler_option_defs)
qed


definition echo_handler :: "u8 handler_config" where
  "echo_handler = new_handler_config [with_encoder (Some (new_ssz_encoder (byte_type False))), with_processor (Some (\<lambda>_ _. None))]"

lemma echo_handler_sel [simp]:
  "hc_encoder echo_handler = Some (new_ssz_encoder (byte_type False))" "hc_compressor echo_handler = None"
  "hc_decoder echo_handler = None" "hc_validator echo_handler = None" "hc_processor echo_handler = Some (\<lambda>_ _. None)"
  "hc_score_params echo_handler = None"
  by (simp_all add: echo_handler_def new_handler_config_def handler_option_defs empty_handler_config_def)

lemma byte_codec [simp]:
  "enc_encode (new_ssz_encoder (byte_type p)) b = Inr [b]" "enc_decode (new_ssz_encoder (byte_type p)) [b] = Inr b"
  by (simp_all add: new_ssz_encoder_def ssz_encode_def ssz_decode_def byte_type_def)

definition demo_gossip :: "u8 gossip" where
  "demo_gossip = empty_gossip\<lparr>g_started := True,
     g_registry := \<lparr>reg_handlers = [(''blocks'', echo_handler)], reg_subnet_handlers = []\<rparr>\<rparr>"

lemma demo_gossip_sel [simp]:
  "g_started demo_gossip" "g_history demo_gossip = []" "g_global_invalid demo_gossip = None"
  "g_subscriptions demo_gossip = []" "g_next demo_gossip = 0"
  "get_handler [] (g_registry demo_gossip) ''blocks'' = Inr (Some echo_handler)"
  by (simp_all add: demo_gossip_def empty_gossip_def get_handler_def)


section \<open>Subscribing once\<close>

text \<open>libp2p gives out one handle per topic: \<open>Join\<close> of a topic that is joined fails.\<close>

definition join_once :: "ps_lib \<Rightarrow> bool" where
  "join_once lib \<longleftrightarrow> (\<forall>hist name. (PsJoin name, None) \<in> set hist \<longrightarrow> lib hist (PsJoin name) \<noteq> None)"

lemma new_processor_ok [simp]: "new_processor (Some name) (Some h) True = None"
  by (simp add: new_processor_def)

lemma subscribe_calls_ok_joined:
  "subscribe_calls lib name h g = (Inr (), g') \<Longrightarrow> (PsJoin name, None) \<in> set (g_history g')"
  by (auto simp: subscribe_calls_def act_ok_iff ps_call_def split: option.splits)

lemma subscribe_ok_joined:
  "subscribe lib order t g = (Inr i, g') \<Longrightarrow> (PsJoin (t_name t), None) \<in> set (g_history g')"
  by (auto simp: subscribe_def add_subscription_def Let_def dest: subscribe_calls_ok_joined
      split: if_splits sum.splits option.splits prod.splits)

lemma subscribe_calls_joined_fails:
  assumes "join_once lib" and "(PsJoin name, None) \<in> set (g_history g)"
  shows "\<exists>e g'. subscribe_calls lib name h g = (Inl e, g') \<and>
           g' = g\<lparr>g_history := g_history g'\<rparr> \<and>
           (hc_validator h \<noteq> None \<and> lib (g_history g) (PsRegisterValidator name) = None \<longrightarrow>
             (\<exists>err. g_history g' = g_history g @ [(PsRegisterValidator name, None), (PsJoin name, Some err)]))"
proof (cases "hc_validator h")
  case None
  obtain e where "lib (g_history g) (PsJoin name) = Some e" using assms by (auto simp: join_once_def)
  then show ?thesis using None by (simp add: subscribe_calls_def act_run ps_call_def)
next
  case (Some v)
  obtain e where "lib (g_history g @ [(PsRegisterValidator name, None)]) (PsJoin name) = Some e"
    using assms unfolding join_once_def by (metis Un_iff not_Some_eq set_append)
  then show ?thesis using Some
    by (cases "lib (g_history g) (PsRegisterValidator name)") (simp_all add: subscribe_calls_def act_run ps_call_def)
qed

text \<open>
  C33: nothing in the code ever closes a topic handle, so a topic can be subscribed once in the life
  of a \<open>Gossipsub\<close>: with libp2p's one-handle rule, after a successful \<open>Subscribe\<close> every later one for
  the topic fails, also after the subscription was cancelled and removed; and the validator it
  registered on the way stays registered, with no call that unregisters it.
\<close>

theorem resubscribe_fails:
  assumes "join_once lib" and "subscribe lib order t g0 = (Inr i, g1)" and "prefix (g_history g1) (g_history g)"
  shows "(\<exists>f. fst (subscribe lib order' t g) = Inl f) \<and>
         (\<forall>h. g_started g \<longrightarrow> get_handler order' (g_registry g) (t_name t) = Inr (Some h) \<longrightarrow>
            map_of (g_subscriptions g) (t_name t) = None \<longrightarrow> hc_validator h \<noteq> None \<longrightarrow>
            lib (g_history g) (PsRegisterValidator (t_name t)) = None \<longrightarrow>
            (\<exists>err. g_history (snd (subscribe lib order' t g)) =
               g_history g @ [(PsRegisterValidator (t_name t), None), (PsJoin (t_name t), Some err)]))"
proof -
  have joined: "(PsJoin (t_name t), None) \<in> set (g_history g)"
    using subscribe_ok_joined [OF assms(2)] assms(3) by (auto simp: prefix_def)
  show ?thesis
  proof (intro conjI allI impI)
    show "\<exists>f. fst (subscribe lib order' t g) = Inl f"
    proof (cases "fst (subscribe lib order' t g)")
      case (Inr j)
      then obtain h g' where "subscribe_calls lib (t_name t) h g = (Inr (), g')"
        by (auto simp: subscribe_def split: if_splits sum.splits option.splits prod.splits)
      with subscribe_calls_joined_fails [OF assms(1) joined, of h] show ?thesis by auto
    qed auto
  next
    fix h assume h: "get_handler order' (g_registry g) (t_name t) = Inr (Some h)" "g_started g"
      "map_of (g_subscriptions g) (t_name t) = None" "hc_validator h \<noteq> None"
      "lib (g_history g) (PsRegisterValidator (t_name t)) = None"
    with subscribe_calls_joined_fails [OF assms(1) joined, of h] obtain e g' err
      where "subscribe_calls lib (t_name t) h g = (Inl e, g')"
        and "g_history g' = g_history g @ [(PsRegisterValidator (t_name t), None), (PsJoin (t_name t), Some err)]" by blast
    with h show "\<exists>err. g_history (snd (subscribe lib order' t g)) =
               g_history g @ [(PsRegisterValidator (t_name t), None), (PsJoin (t_name t), Some err)]"
      by (simp add: subscribe_def)
  qed
qed

definition one_handle_lib :: ps_lib where
  "one_handle_lib hist op =
     (case op of PsJoin name \<Rightarrow> if (PsJoin name, None) \<in> set hist then Some ''topic already exists'' else None | _ \<Rightarrow> None)"

lemma resubscribe_fails_witness:
  "\<exists>f. fst (subscribe one_handle_lib [] \<lparr>t_name = ''blocks''\<rparr>
     (remove_processor one_handle_lib ''blocks'' (snd (subscribe one_handle_lib [] \<lparr>t_name = ''blocks''\<rparr> demo_gossip)))) = Inl f"
proof -
  let ?t = "\<lparr>t_name = ''blocks''\<rparr>"
  let ?g1 = "snd (subscribe one_handle_lib [] ?t demo_gossip)"
  have once: "join_once one_handle_lib" by (simp add: join_once_def one_handle_lib_def)
  have "subscribe one_handle_lib [] ?t demo_gossip = (Inr 0, ?g1)"
    by (simp add: subscribe_def subscribe_calls_def act_run ps_call_def one_handle_lib_def)
  moreover have "prefix (g_history ?g1) (g_history (remove_processor one_handle_lib ''blocks'' ?g1))"
    by (simp add: remove_processor_def remove_processor_entry_def remove_subscription_entry_def
        stop_processor_def ps_call_def Let_def split: option.splits)
  ultimately show ?thesis using resubscribe_fails [OF once] by blast
qed

section \<open>The component as a machine\<close>

text \<open>
  The steps that interleave: a call of \<open>Subscribe\<close>, \<open>Publish\<close>, a registration, a user cancelling a
  handle, a caller's context ending, the two parts of \<open>removeProcessor\<close> in the goroutine of a
  subscription whose context is done, and the two parts of \<open>Stop\<close>.
\<close>

datatype 'a gossip_label =
    GRegister string "'a handler_config" | GSubscribe "string list" topic | GPublish "string list" topic 'a
  | GCancel nat | GCtxDone nat | GRemoveProcessor nat | GRemoveSubscription nat | GStop | GStopEnd

definition sub_ctx_done :: "'a gossip \<Rightarrow> nat \<Rightarrow> bool" where
  "sub_ctx_done g i = (sub_cancelled (ss_subs (g_store g) i) \<or> i \<in> set (g_ctx_done g))"

inductive gossip_step :: "ps_lib \<Rightarrow> 'a gossip \<Rightarrow> 'a gossip_label \<Rightarrow> 'a gossip \<Rightarrow> bool" for lib where
  step_register: "gossip_register name h g = (r, g') \<Longrightarrow> gossip_step lib g (GRegister name h) g'"
| step_subscribe: "subscribe lib order t g = (r, g') \<Longrightarrow> gossip_step lib g (GSubscribe order t) g'"
| step_publish: "publish lib order t msg g = (r, g') \<Longrightarrow> gossip_step lib g (GPublish order t msg) g'"
| step_cancel: "gossip_step lib g (GCancel i) (g\<lparr>g_store := cancel_subscription (Some i) (g_store g)\<rparr>)"
| step_ctx_done: "gossip_step lib g (GCtxDone i) (g\<lparr>g_ctx_done := i # g_ctx_done g\<rparr>)"
| step_remove_processor:
    "(i, name) \<in> set (g_waiting g) \<Longrightarrow> sub_ctx_done g i \<Longrightarrow> g' = remove_processor_entry lib name g \<Longrightarrow>
     gossip_step lib g (GRemoveProcessor i)
       (g'\<lparr>g_waiting := removeAll (i, name) (g_waiting g'), g_removing := g_removing g' @ [(i, name)]\<rparr>)"
| step_remove_subscription:
    "(i, name) \<in> set (g_removing g) \<Longrightarrow> g' = remove_subscription_entry lib name g \<Longrightarrow>
     gossip_step lib g (GRemoveSubscription i) (g'\<lparr>g_removing := removeAll (i, name) (g_removing g')\<rparr>)"
| step_stop: "stop_begin lib g = (r, g') \<Longrightarrow> gossip_step lib g GStop g'"
| step_stop_end:
    "g_ctx_cancelled g \<Longrightarrow> g_waiting g = [] \<Longrightarrow> g_removing g = [] \<Longrightarrow> gossip_step lib g GStopEnd (stop_end g)"

inductive_cases gossip_stepE: "gossip_step lib g l g'"

text \<open>
  Every entry of the subscription map has the goroutine that will take it out still to run, every
  entry of the processor map one that has not yet looked at that map; each topic occurs once.
\<close>

definition gossip_inv :: "'a gossip \<Rightarrow> bool" where
  "gossip_inv g \<longleftrightarrow>
     distinct (map fst (g_subscriptions g)) \<and> distinct (map fst (g_processors g)) \<and> registry_ok (g_registry g) \<and>
     (\<forall>name i. map_of (g_subscriptions g) name = Some i \<longrightarrow> (i, name) \<in> set (g_waiting g) \<union> set (g_removing g)) \<and>
     (\<forall>name i. map_of (g_processors g) name = Some i \<longrightarrow> (i, name) \<in> set (g_waiting g)) \<and>
     (\<forall>i name. (i, name) \<in> set (g_waiting g) \<union> set (g_removing g) \<longrightarrow> i < g_next g)"

text \<open>Operations that only call libp2p touch nothing the invariant reads.\<close>

definition same_books :: "'a gossip \<Rightarrow> 'a gossip \<Rightarrow> bool" where
  "same_books g g' \<longleftrightarrow> g_subscriptions g' = g_subscriptions g \<and> g_processors g' = g_processors g \<and>
     g_registry g' = g_registry g \<and> g_waiting g' = g_waiting g \<and> g_removing g' = g_removing g \<and> g_next g' = g_next g"

lemma same_books_refl [simp]: "same_books g g"
  by (simp add: same_books_def)

lemma same_books_reflp: "reflp same_books"
  by (rule reflpI) simp

lemma same_books_transp: "transp same_books"
  by (rule transpI) (simp add: same_books_def)

lemma same_books_trans [trans]: "same_books a b \<Longrightarrow> same_books b c \<Longrightarrow> same_books a c"
  by (simp add: same_books_def)

lemma same_books_inv: "same_books g g' \<Longrightarrow> gossip_inv g \<Longrightarrow> gossip_inv g'"
  by (simp add: same_books_def gossip_inv_def)

lemma ps_call_same: "act_keeps same_books (ps_call lib op)"
  by (simp add: act_keeps_def ps_call_def same_books_def)

lemmas same_books_intros = act_keeps_bind [OF same_books_transp] act_keeps_map_err ps_call_same
  act_keeps_return [OF same_books_reflp] act_keeps_fail [OF same_books_reflp]

lemma subscribe_calls_same: "act_keeps same_books (subscribe_calls lib name h)"
  unfolding subscribe_calls_def by (intro same_books_intros) (auto split: option.splits intro!: same_books_intros)

lemma publish_same: "publish lib order t msg g = (r, g') \<Longrightarrow> same_books g g'"
  using act_keepsD [OF act_keeps_map_err [OF ps_call_same]]
  by (fastforce simp: publish_def split: if_splits sum.splits option.splits fault.splits)

lemma stop_processor_same: "same_books g (stop_processor lib i g)"
  by (simp add: stop_processor_def ps_call_def same_books_def)

lemma stop_begin_same: "stop_begin lib g = (r, g') \<Longrightarrow> same_books g g'"
proof -
  have "same_books g0 (foldl (\<lambda>g (_, i). stop_processor lib i g) g0 ps)"
    for g0 :: "'a gossip" and ps :: "(string \<times> nat) list"
  proof (induction ps arbitrary: g0)
    case (Cons p ps)
    have "same_books g0 (stop_processor lib (snd p) g0)" by (rule stop_processor_same)
    also have "same_books \<dots> (foldl (\<lambda>g (_, i). stop_processor lib i g) (stop_processor lib (snd p) g0) ps)"
      by (rule Cons.IH)
    finally show ?case by (cases p) simp
  qed simp
  from this [of "g\<lparr>g_ctx_cancelled := True,
      g_store := cancel_all (map (\<lambda>(_, i). Some i) (g_subscriptions g)) (g_store g)\<rparr>" "g_processors g"]
  show "stop_begin lib g = (r, g') \<Longrightarrow> same_books g g'"
    by (auto simp: stop_begin_def same_books_def split: if_splits)
qed

lemma add_subscription_inv: "gossip_inv g \<Longrightarrow> gossip_inv (add_subscription name g)"
  by (auto simp: gossip_inv_def add_subscription_def Let_def update_conv' distinct_update less_Suc_eq
      simp del: map_of_eq_Some_iff split: if_splits)

lemma subscribe_inv:
  assumes "gossip_inv g" and "subscribe lib order t g = (r, g')"
  shows "gossip_inv g'"
proof -
  have calls: "gossip_inv g1" if "subscribe_calls lib name h g = (r1, g1)" for name h r1 g1
    using act_keepsD [OF subscribe_calls_same that] assms(1) by (rule same_books_inv)
  from assms show ?thesis
    by (auto simp: subscribe_def dest: calls intro: add_subscription_inv
        split: if_splits sum.splits option.splits prod.splits)
qed

lemma remove_processor_entry_books:
  "g_subscriptions (remove_processor_entry lib name g) = g_subscriptions g"
  "g_processors (remove_processor_entry lib name g) = AList.delete name (g_processors g)"
  "g_registry (remove_processor_entry lib name g) = g_registry g"
  "g_waiting (remove_processor_entry lib name g) = g_waiting g"
  "g_removing (remove_processor_entry lib name g) = g_removing g"
  "g_next (remove_processor_entry lib name g) = g_next g"
  by (auto simp: remove_processor_entry_def stop_processor_def ps_call_def map_of_eq_None_iff delete_id split: option.splits)

lemma remove_processor_step_inv:
  assumes "gossip_inv g" and "(i, name) \<in> set (g_waiting g)"
  shows "gossip_inv ((remove_processor_entry lib name g)
     \<lparr>g_waiting := removeAll (i, name) (g_waiting g), g_removing := g_removing g @ [(i, name)]\<rparr>)"
  using assms
  by (auto simp: gossip_inv_def remove_processor_entry_books map_of_delete distinct_delete
      simp del: map_of_eq_Some_iff split: if_splits)

lemma remove_subscription_step_inv:
  assumes "gossip_inv g"
  shows "gossip_inv ((remove_subscription_entry lib name g)\<lparr>g_removing := removeAll (i, name) (g_removing g)\<rparr>)"
  using assms
  by (auto simp: gossip_inv_def remove_subscription_entry_def ps_call_def Let_def map_of_delete distinct_delete
      simp del: map_of_eq_Some_iff split: if_splits)

lemma gossip_register_inv:
  assumes "gossip_inv g" and "gossip_register name h g = (r, g')"
  shows "gossip_inv g'"
proof -
  let ?reg = "snd (register_topic (\<lambda>a. a) Some name h (g_registry g))"
  have "registry_ok ?reg" using assms(1) by (intro register_topic_ok) (simp add: gossip_inv_def)
  moreover have "g' = g \<or> g' = g\<lparr>g_registry := ?reg\<rparr>"
    using assms(2) by (auto simp: gossip_register_def split: if_splits prod.splits)
  moreover have "gossip_inv (g\<lparr>g_registry := ?reg\<rparr>)" if "registry_ok ?reg"
    using assms(1) that by (simp add: gossip_inv_def del: map_of_eq_Some_iff)
  ultimately show ?thesis using assms(1) by auto
qed

lemma gossip_step_inv:
  assumes "gossip_inv g" and "gossip_step lib g l g'"
  shows "gossip_inv g'"
  using assms(2)
proof cases
  case (step_register name h r)
  with assms(1) show ?thesis by (blast intro: gossip_register_inv)
next
  case (step_subscribe order t r)
  with assms(1) show ?thesis by (blast intro: subscribe_inv)
next
  case (step_publish order t msg r)
  with assms(1) show ?thesis by (blast intro: same_books_inv publish_same)
next
  case (step_cancel i)
  with assms(1) show ?thesis by (simp add: gossip_inv_def del: map_of_eq_Some_iff)
next
  case (step_ctx_done i)
  with assms(1) show ?thesis by (simp add: gossip_inv_def del: map_of_eq_Some_iff)
next
  case (step_remove_processor i name g1)
  with assms(1) show ?thesis
    using remove_processor_step_inv [of g i name lib] by (simp add: remove_processor_entry_books)
next
  case (step_remove_subscription i name g1)
  with assms(1) show ?thesis
    using remove_subscription_step_inv [where g = g and lib = lib and name = name and i = i]
    by (simp add: remove_subscription_entry_def ps_call_def Let_def)
next
  case (step_stop r)
  with assms(1) show ?thesis by (blast intro: same_books_inv stop_begin_same)
next
  case step_stop_end
  with assms(1) show ?thesis by (simp add: gossip_inv_def stop_end_def)
qed

text \<open>Created with options that touch none of the books, which every option of the package is.\<close>

definition gossip_init :: "ps_lib \<Rightarrow> 'a gossip \<Rightarrow> bool" where
  "gossip_init lib g \<longleftrightarrow>
     (\<exists>opts. (\<forall>opt \<in> set opts. act_keeps same_books opt) \<and> new_gossip lib True True opts = Inr g)"

lemma options_same:
  "act_keeps same_books (with_logger l)" "act_keeps same_books (with_publish_timeout t)"
  "act_keeps same_books (with_gossipsub_params ps)" "act_keeps same_books (with_metrics m)"
  "act_keeps same_books (with_global_invalid_payload_handler f)" "act_keeps same_books (with_pubsub_options os)"
  by (auto simp: act_keeps_def same_books_def with_logger_def with_publish_timeout_def with_gossipsub_params_def
      with_metrics_def with_global_invalid_payload_handler_def with_pubsub_options_def)

lemma initialize_pubsub_same: "act_keeps same_books (initialize_pubsub lib)"
  by (auto simp: act_keeps_def initialize_pubsub_def act_run ps_call_def same_books_def Let_def split: option.splits)

lemma options_list_same:
  "\<forall>opt \<in> set opts. act_keeps same_books opt \<Longrightarrow>
     act_keeps same_books (act_list (map (act_wrap ''failed to apply option'') opts))"
  by (induction opts) (auto intro!: same_books_intros)

lemma empty_gossip_inv: "gossip_inv empty_gossip"
  by (simp add: gossip_inv_def empty_gossip_def registry_ok_def new_registry_def)

lemma gossip_init_inv: "gossip_init lib g \<Longrightarrow> gossip_inv g"
proof -
  assume "gossip_init lib g"
  then obtain opts where opts: "\<forall>opt \<in> set opts. act_keeps same_books opt"
    and new: "new_gossip lib True True opts = Inr g" by (auto simp: gossip_init_def)
  obtain r g1 where run: "act_bind (act_list (map (act_wrap ''failed to apply option'') opts))
               (\<lambda>_. act_wrap ''failed to initialize pubsub'' (initialize_pubsub lib)) empty_gossip = (r, g1)"
    by fastforce
  with new have g: "g = g1\<lparr>g_started := True\<rparr>" by (simp add: new_gossip_def split: sum.splits)
  have "act_keeps same_books (act_bind (act_list (map (act_wrap ''failed to apply option'') opts))
               (\<lambda>_. act_wrap ''failed to initialize pubsub'' (initialize_pubsub lib)))"
    using opts by (intro same_books_intros options_list_same initialize_pubsub_same)
  from act_keepsD [OF this run] have "gossip_inv g1" using empty_gossip_inv by (rule same_books_inv)
  then show "gossip_inv g" by (simp add: g gossip_inv_def)
qed

interpretation gossip: step_machine "gossip_init lib" "gossip_step lib" gossip_inv for lib
  by unfold_locales (blast intro: gossip_init_inv gossip_step_inv)+



end
