(* ===== verification/Cache.thy ===== *)
theory Cache
  imports Prelude "HOL-Library.Char_ord" "HOL-Library.List_Lexorder" "HOL-Library.Multiset"
begin

text \<open>
  The duplicate cache and its metrics (\<open>pkg/cache/duplicate.go\<close>, \<open>metrics.go\<close>). The TTL cache
  behind it is a parameter of three operations on a value of \<open>'c\<close>; a Prometheus registerer is a
  parameter with the behaviour its documentation gives: collectors with the same descriptors count
  as equal, a second one is refused, and \<open>Unregister\<close> removes the equal one whoever registered
  it. Collectors are named by their descriptors: the prefix of the configuration, the name, and the
  label names. \<open>sort.Strings\<close> is the lexicographic sort of byte strings.
\<close>

section \<open>Metrics\<close>

record metrics_config =
  mc_namespace :: string
  mc_subsystem :: string
  mc_const_labels :: "(string \<times> string) list"
  mc_instance_labels :: "string \<rightharpoonup> string"

record collector =
  co_namespace :: string
  co_subsystem :: string
  co_name :: string
  co_const_labels :: "(string \<times> string) list"
  co_labels :: "string list"

record cache_metrics =
  cm_labels :: "string list"
  cm_collectors :: "collector list"
  cm_registered :: bool

definition metric_names :: "string list" where
  "metric_names = [''insertions_total'', ''hits_total'', ''misses_total'', ''evictions_total'', ''size'']"

text \<open>\<open>keys\<close> are the keys of the label map in the order the runtime visits them.\<close>

definition new_cache_metrics :: "string list \<Rightarrow> metrics_config \<Rightarrow> cache_metrics" where
  "new_cache_metrics keys cfg =
     (let subsystem = (if mc_subsystem cfg = [] then ''cache'' else mc_subsystem cfg);
          labels = sort keys
      in \<lparr>cm_labels = labels,
          cm_collectors = map (\<lambda>n. \<lparr>co_namespace = mc_namespace cfg, co_subsystem = subsystem, co_name = n,
                                  co_const_labels = mc_const_labels cfg, co_labels = labels\<rparr>) metric_names,
          cm_registered = False\<rparr>)"

text \<open>A missing key of a Go map reads as the empty string.\<close>

definition extract_label_values :: "cache_metrics \<Rightarrow> (string \<rightharpoonup> string) \<Rightarrow> string list" where
  "extract_label_values m labels =
     map (\<lambda>l. case labels l of Some v \<Rightarrow> v | None \<Rightarrow> []) (cm_labels m)"

record 'r registerer =
  rg_register :: "collector \<Rightarrow> 'r \<Rightarrow> string option \<times> 'r"
  rg_unregister :: "collector \<Rightarrow> 'r \<Rightarrow> 'r"
  rg_has :: "'r \<Rightarrow> collector \<Rightarrow> bool"

definition registerer_lawful :: "'r registerer \<Rightarrow> bool" where
  "registerer_lawful R \<longleftrightarrow>
     (\<forall>c r. rg_has R r c \<longrightarrow> (\<exists>e. rg_register R c r = (Some e, r)))
     \<and> (\<forall>c r. \<not> rg_has R r c \<longrightarrow>
          fst (rg_register R c r) = None \<and> rg_has R (snd (rg_register R c r)) = (rg_has R r)(c := True))
     \<and> (\<forall>c r. rg_has R (rg_unregister R c r) = (rg_has R r)(c := False))"

fun register_each :: "'r registerer \<Rightarrow> collector list \<Rightarrow> 'r \<Rightarrow> string option \<times> 'r" where
  "register_each R [] r = (None, r)"
| "register_each R (c # cs) r =
     (case rg_register R c r of
        (Some e, r') \<Rightarrow> (Some e, r')
      | (None, r') \<Rightarrow> register_each R cs r')"

definition unregister_each :: "'r registerer \<Rightarrow> collector list \<Rightarrow> 'r \<Rightarrow> 'r" where
  "unregister_each R cs r = fold (rg_unregister R) cs r"

text \<open>On an error every collector of the list is unregistered, the ones not reached included.\<close>

definition register_metrics ::
  "'r registerer \<Rightarrow> cache_metrics \<Rightarrow> 'r \<Rightarrow> string option \<times> cache_metrics \<times> 'r" where
  "register_metrics R m r =
     (if cm_registered m then (None, m, r)
      else case register_each R (cm_collectors m) r of
        (Some e, r') \<Rightarrow> (Some e, m, unregister_each R (cm_collectors m) r')
      | (None, r') \<Rightarrow> (None, m\<lparr>cm_registered := True\<rparr>, r'))"

definition unregister_metrics :: "'r registerer \<Rightarrow> cache_metrics \<Rightarrow> 'r \<Rightarrow> cache_metrics \<times> 'r" where
  "unregister_metrics R m r =
     (if \<not> cm_registered m then (m, r)
      else (m\<lparr>cm_registered := False\<rparr>, unregister_each R (cm_collectors m) r))"

section \<open>The cache\<close>

text \<open>
  The counters of the model are the values of the metric vectors for the labels of this cache;
  without metrics they stay at zero. \<open>dc_live\<close> are the schedulers made by \<open>Start\<close> that were not shut
  down, \<open>dc_scheduler\<close> the one the cache holds. \<open>DefaultTTL\<close> is the library's zero.
\<close>

record ('c, 'k, 'v) ttl_lib =
  tl_set :: "'k \<Rightarrow> 'v \<Rightarrow> int \<Rightarrow> 'c \<Rightarrow> 'c"
  tl_get :: "'k \<Rightarrow> 'c \<Rightarrow> 'v option \<times> 'c"
  tl_has :: "'k \<Rightarrow> 'c \<Rightarrow> bool"
  tl_len :: "'c \<Rightarrow> nat"

record 'c dup_cache =
  dc_cache :: 'c
  dc_metrics :: "cache_metrics option"
  dc_insertions :: nat
  dc_hits :: nat
  dc_misses :: nat
  dc_evictions :: nat
  dc_size :: "nat option"
  dc_scheduler :: "nat option"
  dc_live :: "nat list"

definition DefaultTTL :: int where "DefaultTTL = 0"

definition cache_set :: "('c, 'k, 'v) ttl_lib \<Rightarrow> 'k \<Rightarrow> 'v \<Rightarrow> int list \<Rightarrow> 'c dup_cache \<Rightarrow> 'c dup_cache" where
  "cache_set L k v ttl d =
     (let d1 = d\<lparr>dc_cache := tl_set L k v (case ttl of t # _ \<Rightarrow> t | [] \<Rightarrow> DefaultTTL) (dc_cache d)\<rparr>
      in if dc_metrics d \<noteq> None then d1\<lparr>dc_insertions := Suc (dc_insertions d)\<rparr> else d1)"

definition count_lookup :: "bool \<Rightarrow> 'c dup_cache \<Rightarrow> 'c dup_cache" where
  "count_lookup found d =
     (if dc_metrics d = None then d
      else if found then d\<lparr>dc_hits := Suc (dc_hits d)\<rparr> else d\<lparr>dc_misses := Suc (dc_misses d)\<rparr>)"

definition cache_get :: "('c, 'k, 'v) ttl_lib \<Rightarrow> 'k \<Rightarrow> 'c dup_cache \<Rightarrow> 'v option \<times> 'c dup_cache" where
  "cache_get L k d =
     (case tl_get L k (dc_cache d) of
        (item, c) \<Rightarrow> (item, count_lookup (item \<noteq> None) (d\<lparr>dc_cache := c\<rparr>)))"

definition cache_has :: "('c, 'k, 'v) ttl_lib \<Rightarrow> 'k \<Rightarrow> 'c dup_cache \<Rightarrow> bool \<times> 'c dup_cache" where
  "cache_has L k d = (let has = tl_has L k (dc_cache d) in (has, count_lookup has d))"

text \<open>
  \<open>NewDuplicateCacheWithConfig\<close>: a failed registration is logged only, so the cache counts in
  metrics that no registry has.
\<close>

definition new_duplicate_cache ::
  "'r registerer \<Rightarrow> 'c \<Rightarrow> (string list \<times> metrics_config) option \<Rightarrow> 'r \<Rightarrow> 'c dup_cache \<times> 'r" where
  "new_duplicate_cache R c0 metrics r =
     (let d = \<lparr>dc_cache = c0, dc_metrics = None, dc_insertions = 0, dc_hits = 0, dc_misses = 0,
            dc_evictions = 0, dc_size = None, dc_scheduler = None, dc_live = []\<rparr>
      in case metrics of
           None \<Rightarrow> (d, r)
         | Some (keys, cfg) \<Rightarrow>
             (case register_metrics R (new_cache_metrics keys cfg) r of
                (_, m, r') \<Rightarrow> (d\<lparr>dc_metrics := Some m\<rparr>, r')))"

text \<open>
  The callback of the TTL cache on an eviction; the result is the call of the user's callback. The TTL
  cache has no callback when neither this one nor metrics are configured.
\<close>

definition cache_evicted :: "bool \<Rightarrow> 'k \<times> 'v \<times> nat \<Rightarrow> 'c dup_cache \<Rightarrow> ('k \<times> 'v \<times> nat) list \<times> 'c dup_cache" where
  "cache_evicted on_eviction item d =
     (if on_eviction then [item] else [],
      if dc_metrics d \<noteq> None then d\<lparr>dc_evictions := Suc (dc_evictions d)\<rparr> else d)"

definition cache_update_metrics :: "('c, 'k, 'v) ttl_lib \<Rightarrow> 'c dup_cache \<Rightarrow> 'c dup_cache" where
  "cache_update_metrics L d =
     (if dc_metrics d = None then d else d\<lparr>dc_size := Some (tl_len L (dc_cache d))\<rparr>)"

text \<open>
  \<open>startMetricsScheduler\<close>: \<open>n\<close> is the scheduler \<open>gocron.NewScheduler\<close> gives, which runs until it is shut
  down; \<open>new_result\<close> and \<open>job_result\<close> are the errors of the library.
\<close>

definition start_metrics_scheduler ::
  "nat \<Rightarrow> string option \<Rightarrow> string option \<Rightarrow> 'c dup_cache \<Rightarrow> string option \<times> 'c dup_cache" where
  "start_metrics_scheduler n new_result job_result d =
     (case new_result of
        Some e \<Rightarrow> (Some e, d)
      | None \<Rightarrow> (job_result, d\<lparr>dc_scheduler := Some n, dc_live := n # dc_live d\<rparr>))"

definition start_duplicate_cache ::
  "nat \<Rightarrow> string option \<Rightarrow> string option \<Rightarrow> 'c dup_cache \<Rightarrow> string option \<times> 'c dup_cache" where
  "start_duplicate_cache n new_result job_result d =
     (if dc_metrics d \<noteq> None then start_metrics_scheduler n new_result job_result d else (None, d))"

definition stop_duplicate_cache :: "'r registerer \<Rightarrow> string option \<Rightarrow> 'c dup_cache \<Rightarrow> 'r \<Rightarrow> 'c dup_cache \<times> 'r" where
  "stop_duplicate_cache R shutdown d r =
     (let d1 = (case (dc_scheduler d, shutdown) of
                  (Some n, None) \<Rightarrow> d\<lparr>dc_live := removeAll n (dc_live d)\<rparr>
                | _ \<Rightarrow> d)
      in case dc_metrics d1 of
           None \<Rightarrow> (d1, r)
         | Some m \<Rightarrow> (case unregister_metrics R m r of (m', r') \<Rightarrow> (d1\<lparr>dc_metrics := Some m'\<rparr>, r')))"

section \<open>Properties\<close>

lemma lawful_register_known:
  "registerer_lawful R \<Longrightarrow> rg_has R r c \<Longrightarrow> \<exists>e. rg_register R c r = (Some e, r)"
  by (simp add: registerer_lawful_def)

lemma lawful_register_new:
  assumes "registerer_lawful R" "\<not> rg_has R r c"
  obtains r' where "rg_register R c r = (None, r')" "rg_has R r' = (rg_has R r)(c := True)"
  using assms unfolding registerer_lawful_def by (metis prod.collapse)

lemma lawful_unregister: "registerer_lawful R \<Longrightarrow> rg_has R (rg_unregister R c r) = (rg_has R r)(c := False)"
  by (simp add: registerer_lawful_def)

lemma unregister_each_has:
  "registerer_lawful R \<Longrightarrow> rg_has R (unregister_each R cs r) = (\<lambda>c. rg_has R r c \<and> c \<notin> set cs)"
  by (induction cs arbitrary: r) (auto simp: unregister_each_def lawful_unregister fun_eq_iff)

lemma register_each_new:
  assumes "registerer_lawful R" "distinct cs" "\<forall>c \<in> set cs. \<not> rg_has R r c"
  shows "\<exists>r'. register_each R cs r = (None, r') \<and> rg_has R r' = (\<lambda>c. rg_has R r c \<or> c \<in> set cs)"
  using assms(2,3)
proof (induction cs arbitrary: r)
  case Nil
  then show ?case by simp
next
  case (Cons c cs)
  then obtain r1 where r1: "rg_register R c r = (None, r1)" "rg_has R r1 = (rg_has R r)(c := True)"
    using lawful_register_new [OF assms(1), of r c] by auto
  from Cons.prems r1(2) have "distinct cs" "\<forall>x \<in> set cs. \<not> rg_has R r1 x" by auto
  then obtain r' where "register_each R cs r1 = (None, r')"
    "rg_has R r' = (\<lambda>x. rg_has R r1 x \<or> x \<in> set cs)" using Cons.IH by blast
  with r1 show ?case by (auto simp: fun_eq_iff)
qed

lemma register_each_other:
  assumes "registerer_lawful R" "register_each R cs r = (q, r')" "x \<notin> set cs"
  shows "rg_has R r' x = rg_has R r x"
  using assms(2,3)
proof (induction cs arbitrary: r)
  case Nil
  then show ?case by simp
next
  case (Cons c cs)
  show ?case
  proof (cases "rg_has R r c")
    case True
    with Cons.prems lawful_register_known [OF assms(1) True] show ?thesis by auto
  next
    case False
    then obtain r1 where "rg_register R c r = (None, r1)" "rg_has R r1 = (rg_has R r)(c := True)"
      using lawful_register_new [OF assms(1)] by blast
    with Cons.prems Cons.IH [of r1] show ?thesis by simp
  qed
qed

lemma distinct_collectors: "distinct (cm_collectors (new_cache_metrics keys cfg))"
  by (auto simp: new_cache_metrics_def Let_def metric_names_def)

lemma unregistered: "\<not> cm_registered (new_cache_metrics keys cfg)"
  by (simp add: new_cache_metrics_def Let_def)


text \<open>A registry as the list of its collectors, for the witness.\<close>

definition demo_registerer :: "collector list registerer" where
  "demo_registerer =
     \<lparr>rg_register = (\<lambda>c r. if c \<in> set r then (Some ''duplicate metrics collector registration attempted'', r) else (None, c # r)),
      rg_unregister = (\<lambda>c r. removeAll c r), rg_has = (\<lambda>r c. c \<in> set r)\<rparr>"

lemma demo_registerer_lawful: "registerer_lawful demo_registerer"
  by (auto simp: registerer_lawful_def demo_registerer_def fun_eq_iff)

definition demo_metrics_config :: metrics_config where
  "demo_metrics_config = \<lparr>mc_namespace = ''app'', mc_subsystem = [], mc_const_labels = [],
     mc_instance_labels = [''region'' \<mapsto> ''eu'', ''cache'' \<mapsto> ''blocks'']\<rparr>"


text \<open>
  The label names of the metrics do not depend on the order in which the runtime visits the
  label map: they are its keys in ascending order, each once, and the values extracted for them
  are the values of these keys, in that order.
\<close>

theorem metric_labels_deterministic:
  assumes "distinct keys" "set keys = dom labels"
  shows "cm_labels (new_cache_metrics keys cfg) = sorted_list_of_set (dom labels)"
    and "map Some (extract_label_values (new_cache_metrics keys cfg) labels)
           = map labels (sorted_list_of_set (dom labels))"
proof -
  have s: "sort keys = sorted_list_of_set (dom labels)"
    using assms by (metis sorted_list_of_set_sort_remdups distinct_remdups_id)
  show "cm_labels (new_cache_metrics keys cfg) = sorted_list_of_set (dom labels)"
    by (simp add: new_cache_metrics_def Let_def s)
  have "finite (dom labels)" using assms(2) by (metis List.finite_set)
  then show "map Some (extract_label_values (new_cache_metrics keys cfg) labels)
           = map labels (sorted_list_of_set (dom labels))"
    by (auto simp: extract_label_values_def new_cache_metrics_def Let_def s split: option.split)
qed

lemma metric_labels_deterministic_witness:
  "cm_labels (new_cache_metrics [''region'', ''cache''] demo_metrics_config)
     = cm_labels (new_cache_metrics [''cache'', ''region''] demo_metrics_config)"
proof -
  let ?l = "[''region'' \<mapsto> ''eu'', ''cache'' \<mapsto> ''blocks''] :: string \<rightharpoonup> string"
  show ?thesis
    using metric_labels_deterministic(1) [of "[''region'', ''cache'']" ?l demo_metrics_config]
      metric_labels_deterministic(1) [of "[''cache'', ''region'']" ?l demo_metrics_config]
    by auto
qed

section \<open>Start and Stop\<close>

lemma unregister_new:
  assumes "registerer_lawful R" "\<forall>c \<in> set (cm_collectors (new_cache_metrics keys cfg)). \<not> rg_has R r c"
    and "new_duplicate_cache R c0 (Some (keys, cfg)) r = (d, r1)"
  obtains m where "dc_metrics d = Some m" "cm_registered m" "dc_live d = []" "dc_scheduler d = None"
    "rg_has R (snd (unregister_metrics R m r1)) = rg_has R r"
proof -
  let ?m = "new_cache_metrics keys cfg" let ?cs = "cm_collectors (new_cache_metrics keys cfg)"
  obtain r' where reg: "register_each R ?cs r = (None, r')" "rg_has R r' = (\<lambda>c. rg_has R r c \<or> c \<in> set ?cs)"
    using register_each_new [OF assms(1) distinct_collectors assms(2)] by blast
  have d: "dc_metrics d = Some (?m\<lparr>cm_registered := True\<rparr>)" "r1 = r'" "dc_live d = []" "dc_scheduler d = None"
    using assms(3) reg(1) unregistered [of keys cfg] by (auto simp: new_duplicate_cache_def register_metrics_def Let_def)
  have "rg_has R (unregister_each R ?cs r') = rg_has R r"
    using assms(2) reg(2) by (auto simp: unregister_each_has [OF assms(1)] fun_eq_iff)
  with d show thesis by (intro that [of "?m\<lparr>cm_registered := True\<rparr>"]) (simp_all add: unregister_metrics_def)
qed

text \<open>
  a cache that is created, started, whatever its scheduler answers, and stopped leaves nothing
  behind: no scheduler runs, and the registry has the collectors it had before. A second Start makes
  a second scheduler and forgets the first, which a Stop then leaves running.
\<close>

theorem cache_stop_releases:
  assumes "registerer_lawful R" "\<forall>c \<in> set (cm_collectors (new_cache_metrics keys cfg)). \<not> rg_has R r c"
    and "new_duplicate_cache R c0 (Some (keys, cfg)) r = (d, r1)"
  shows "(let d1 = snd (start_duplicate_cache n new_result job_result d);
              (d2, r2) = stop_duplicate_cache R None d1 r1
          in dc_live d2 = [] \<and> rg_has R r2 = rg_has R r)
    \<and> (let d1 = snd (start_duplicate_cache n None job_result d);
           d2 = snd (start_duplicate_cache (Suc n) None job_result d1)
       in dc_live (fst (stop_duplicate_cache R None d2 r1)) = [n])"
proof -
  obtain m where m: "dc_metrics d = Some m" "dc_live d = []" "dc_scheduler d = None"
    and gone: "rg_has R (snd (unregister_metrics R m r1)) = rg_has R r"
    using unregister_new [OF assms] by blast
  obtain m' r2 where u: "unregister_metrics R m r1 = (m', r2)" by fastforce
  then show ?thesis
    using m gone
    by (simp add: start_duplicate_cache_def start_metrics_scheduler_def stop_duplicate_cache_def Let_def split: option.split)
qed

lemma cache_stop_releases_witness:
  "(\<lambda>(d, r1). dc_live (fst (stop_duplicate_cache demo_registerer None
        (snd (start_duplicate_cache 2 None None (snd (start_duplicate_cache 1 None None d)))) r1)))
     (new_duplicate_cache demo_registerer () (Some ([''region''], demo_metrics_config)) []) = [1]"
proof -
  obtain d r1 where d: "new_duplicate_cache demo_registerer () (Some ([''region''], demo_metrics_config)) [] = (d, r1)"
    by fastforce
  have "\<forall>c \<in> set (cm_collectors (new_cache_metrics [''region''] demo_metrics_config)). \<not> rg_has demo_registerer [] c"
    by (simp add: demo_registerer_def)
  from cache_stop_releases [OF demo_registerer_lawful this d, of 1 None None] d show ?thesis
    by (simp add: Let_def numeral_2_eq_2)
qed

end
