(* ===== verification/Meters.thy ===== *)
theory Meters
  imports Cache GoStrings
begin

text \<open>
  Prometheus vectors as the code of the library uses them: the state records the calls that were
  made on each series of each vector, and whether \<open>WithLabelValues\<close> panics is a parameter. \<open>'k\<close> are the
  vectors of one set of metrics. Durations are nanoseconds, \<open>'f\<close> is float64. Registries are those of
  \<open>Cache\<close>.
\<close>

section \<open>UTF-8\<close>

text \<open>\<open>utf8.ValidString\<close>, on the bytes of a string\<close>

definition utf8_cont :: "nat \<Rightarrow> bool" where
  "utf8_cont b \<longleftrightarrow> 0x80 \<le> b \<and> b \<le> 0xBF"

text \<open>The bounds of the second byte, and the number of bytes behind it.\<close>

definition utf8_lead :: "nat \<Rightarrow> (nat \<times> nat \<times> nat) option" where
  "utf8_lead b =
     (if 0xC2 \<le> b \<and> b \<le> 0xDF then Some (0x80, 0xBF, 0)
      else if b = 0xE0 then Some (0xA0, 0xBF, 1)
      else if b = 0xED then Some (0x80, 0x9F, 1)
      else if 0xE1 \<le> b \<and> b \<le> 0xEF then Some (0x80, 0xBF, 1)
      else if b = 0xF0 then Some (0x90, 0xBF, 2)
      else if 0xF1 \<le> b \<and> b \<le> 0xF3 then Some (0x80, 0xBF, 2)
      else if b = 0xF4 then Some (0x80, 0x8F, 2)
      else None)"

fun utf8_bytes :: "nat list \<Rightarrow> bool" where
  "utf8_bytes [] = True"
| "utf8_bytes (b # bs) =
     (if b < 0x80 then utf8_bytes bs
      else case utf8_lead b of
             None \<Rightarrow> False
           | Some (lo, hi, n) \<Rightarrow>
               (case bs of
                  [] \<Rightarrow> False
                | c # cs \<Rightarrow> lo \<le> c \<and> c \<le> hi \<and> n \<le> length cs \<and> list_all utf8_cont (take n cs) \<and> utf8_bytes (drop n cs)))"

definition utf8_valid :: "string \<Rightarrow> bool" where
  "utf8_valid s = utf8_bytes (map of_char s)"

lemma utf8_bytes_ascii_append: "\<forall>b \<in> set bs. b < 0x80 \<Longrightarrow> utf8_bytes (bs @ cs) = utf8_bytes cs"
  by (induction bs) auto

definition ascii :: "string \<Rightarrow> bool" where
  "ascii s = list_all (\<lambda>c. of_char c < (0x80 :: nat)) s"

lemma ascii_append [simp]: "ascii (s @ t) = (ascii s \<and> ascii t)"
  by (simp add: ascii_def)

lemma utf8_valid_ascii: "ascii s \<Longrightarrow> utf8_valid s"
  using utf8_bytes_ascii_append [of "map of_char s" "[]"] by (auto simp: utf8_valid_def ascii_def list_all_iff)

section \<open>Vectors\<close>

datatype 'f gauge_value = GaugeCount int | GaugeFloat 'f

record ('k, 'f) meters =
  mt_made :: "'k \<Rightarrow> bool"
  mt_count :: "'k \<Rightarrow> string list \<Rightarrow> nat"
  mt_gauge :: "'k \<Rightarrow> string list \<Rightarrow> 'f gauge_value option"
  mt_seen :: "'k \<Rightarrow> string list \<Rightarrow> int list"

definition new_meters :: "('k, 'f) meters" where
  "new_meters = \<lparr>mt_made = (\<lambda>_. True), mt_count = (\<lambda>_ _. 0), mt_gauge = (\<lambda>_ _. None), mt_seen = (\<lambda>_ _. [])\<rparr>"

type_synonym ('k, 'f) meter_act = "(('k, 'f) meters, fault, unit) act"

text \<open>
  The library: whether \<open>WithLabelValues\<close> panics for a vector with these label names and these values.
  Its documentation says when: unless there is one value per name, each of them valid UTF-8.
\<close>

type_synonym vec_lib = "string list \<Rightarrow> string list \<Rightarrow> string option"

definition lawful_vectors :: "vec_lib \<Rightarrow> bool" where
  "lawful_vectors V \<longleftrightarrow> (\<forall>names vals. V names vals = None \<longleftrightarrow> length vals = length names \<and> list_all utf8_valid vals)"

definition with_label_values ::
  "vec_lib \<Rightarrow> ('k \<Rightarrow> string list) \<Rightarrow> 'k \<Rightarrow> string list \<Rightarrow> (('k, 'f) meters \<Rightarrow> ('k, 'f) meters) \<Rightarrow> ('k, 'f) meter_act" where
  "with_label_values V names k vals f m =
     (case V (names k) vals of Some e \<Rightarrow> (Inl (Panic e), m) | None \<Rightarrow> (Inr (), f m))"

text \<open>\<open>if m.V != nil { m.V.WithLabelValues(vals...).Inc() }\<close>, and the same for \<open>Set\<close> and \<open>Observe\<close>\<close>

definition if_made :: "'k \<Rightarrow> ('k, 'f) meter_act \<Rightarrow> ('k, 'f) meter_act" where
  "if_made k a m = (if mt_made m k then a m else (Inr (), m))"

definition count_up :: "'k \<Rightarrow> string list \<Rightarrow> ('k, 'f) meters \<Rightarrow> ('k, 'f) meters" where
  "count_up k vals m = m\<lparr>mt_count := (mt_count m)(k := (mt_count m k)(vals := Suc (mt_count m k vals)))\<rparr>"

definition gauge_to :: "'k \<Rightarrow> string list \<Rightarrow> 'f gauge_value \<Rightarrow> ('k, 'f) meters \<Rightarrow> ('k, 'f) meters" where
  "gauge_to k vals v m = m\<lparr>mt_gauge := (mt_gauge m)(k := (mt_gauge m k)(vals := Some v))\<rparr>"

definition see :: "'k \<Rightarrow> string list \<Rightarrow> int \<Rightarrow> ('k, 'f) meters \<Rightarrow> ('k, 'f) meters" where
  "see k vals d m = m\<lparr>mt_seen := (mt_seen m)(k := (mt_seen m k)(vals := mt_seen m k vals @ [d]))\<rparr>"

lemma with_label_values_ok:
  "lawful_vectors V \<Longrightarrow> length vals = length (names k) \<Longrightarrow> list_all utf8_valid vals \<Longrightarrow>
   with_label_values V names k vals f m = (Inr (), f m)"
  unfolding with_label_values_def lawful_vectors_def by (metis option.simps(4))

lemma with_label_values_panics:
  "lawful_vectors V \<Longrightarrow> \<not> list_all utf8_valid vals \<Longrightarrow> panics (fst (with_label_values V names k vals f m))"
  by (cases "V (names k) vals") (auto simp: with_label_values_def lawful_vectors_def)

definition demo_vectors :: vec_lib where
  "demo_vectors names vals =
     (if length vals = length names \<and> list_all utf8_valid vals then None else Some ''inconsistent label values'')"

lemma demo_vectors_lawful: "lawful_vectors demo_vectors"
  by (simp add: lawful_vectors_def demo_vectors_def)

section \<open>Registration\<close>

text \<open>A loop of \<open>Register\<close> that returns the first error undoes nothing; \<open>MustRegister\<close> panics on an error.\<close>

definition must_register_each :: "'r registerer \<Rightarrow> collector list \<Rightarrow> 'r \<Rightarrow> (fault + unit) \<times> 'r" where
  "must_register_each R cs r =
     (case register_each R cs r of (None, r') \<Rightarrow> (Inr (), r') | (Some e, r') \<Rightarrow> (Inl (Panic e), r'))"

definition vec_collector :: "string \<Rightarrow> string \<Rightarrow> string list \<Rightarrow> collector" where
  "vec_collector namespace name labels = \<lparr>co_namespace = namespace, co_subsystem = [], co_name = name,
     co_const_labels = [], co_labels = labels\<rparr>"

text \<open>Registering up to the first collector that is there already: the ones before it stay.\<close>

lemma register_each_until:
  assumes "registerer_lawful R" "distinct (cs @ c # ds)" "\<forall>x \<in> set cs. \<not> rg_has R r x" "rg_has R r c"
  shows "\<exists>e r'. register_each R (cs @ c # ds) r = (Some e, r') \<and> rg_has R r' = (\<lambda>x. rg_has R r x \<or> x \<in> set cs)"
  using assms(2-4)
proof (induction cs arbitrary: r)
  case Nil
  then show ?case using lawful_register_known [OF assms(1)] by fastforce
next
  case (Cons x cs)
  then obtain r1 where r1: "rg_register R x r = (None, r1)" "rg_has R r1 = (rg_has R r)(x := True)"
    using lawful_register_new [OF assms(1), of r x] by auto
  have "\<exists>e r'. register_each R (cs @ c # ds) r1 = (Some e, r') \<and> rg_has R r' = (\<lambda>y. rg_has R r1 y \<or> y \<in> set cs)"
    using Cons.prems r1(2) by (intro Cons.IH) auto
  with r1 show ?case by (auto simp: fun_eq_iff)
qed

end
