(* ===== verification/GossipMeters.thy ===== *)
theory GossipMeters
  imports Gossip Meters
begin

text \<open>
  The metrics of the gossipsub component (\<open>pubsub/v1/metrics.go\<close>) and the operations of
  \<open>gossipsub.go\<close> and \<open>subscription.go\<close> with their metric calls: \<open>Publish\<close>, the libp2p validator,
  the processor, and the gauge of the subscriptions. The other state is that of \<open>Gossip\<close>, whose
  operations leave the metrics out; the equivalences here say that this loses nothing but panics.
  \<open>time.Since\<close> is an argument of each call.
\<close>

section \<open>The vectors\<close>

datatype gossip_metric =
    MessagesReceived | MessagesPublished | MessagesValidated | MessagesHandled
  | ValidationErrors | HandlerErrors | PublishErrors
  | ValidationDuration | HandlerDuration | PublishDuration
  | ActiveSubscriptions | PeersPerTopic | MessageQueueSize
  | PeerScores | PeersConnected

fun gossip_metric_name :: "gossip_metric \<Rightarrow> string" where
  "gossip_metric_name MessagesReceived = ''messages_received_total''"
| "gossip_metric_name MessagesPublished = ''messages_published_total''"
| "gossip_metric_name MessagesValidated = ''messages_validated_total''"
| "gossip_metric_name MessagesHandled = ''messages_handled_total''"
| "gossip_metric_name ValidationErrors = ''validation_errors_total''"
| "gossip_metric_name HandlerErrors = ''handler_errors_total''"
| "gossip_metric_name PublishErrors = ''publish_errors_total''"
| "gossip_metric_name ValidationDuration = ''validation_duration_seconds''"
| "gossip_metric_name HandlerDuration = ''handler_duration_seconds''"
| "gossip_metric_name PublishDuration = ''publish_duration_seconds''"
| "gossip_metric_name ActiveSubscriptions = ''active_subscriptions''"
| "gossip_metric_name PeersPerTopic = ''peers_per_topic''"
| "gossip_metric_name MessageQueueSize = ''message_queue_size''"
| "gossip_metric_name PeerScores = ''peer_scores''"
| "gossip_metric_name PeersConnected = ''peers_connected''"

fun gossip_labels :: "gossip_metric \<Rightarrow> string list" where
  "gossip_labels MessagesPublished = [''topic'', ''status'']"
| "gossip_labels MessagesValidated = [''topic'', ''result'']"
| "gossip_labels MessagesHandled = [''topic'', ''status'']"
| "gossip_labels ActiveSubscriptions = []"
| "gossip_labels PeerScores = [''peer_id'']"
| "gossip_labels PeersConnected = []"
| "gossip_labels _ = [''topic'']"

type_synonym 'f gossip_meters = "(gossip_metric, 'f) meters"
type_synonym 'f gossip_meter_act = "(gossip_metric, 'f) meter_act"

definition NewMetrics :: "'f gossip_meters" where
  "NewMetrics = new_meters"

text \<open>The list \<open>Register\<close> goes through, by descriptor.\<close>

definition gossip_collectors :: "string \<Rightarrow> collector list" where
  "gossip_collectors namespace =
     map (\<lambda>k. vec_collector namespace (gossip_metric_name k) (gossip_labels k))
       [MessagesReceived, MessagesPublished, MessagesValidated, MessagesHandled,
        ValidationErrors, HandlerErrors, PublishErrors,
        ValidationDuration, HandlerDuration, PublishDuration,
        ActiveSubscriptions, PeersPerTopic, MessageQueueSize, PeerScores, PeersConnected]"

definition gossip_metrics_register :: "'r registerer \<Rightarrow> string \<Rightarrow> 'r \<Rightarrow> string option \<times> 'r" where
  "gossip_metrics_register R namespace = register_each R (gossip_collectors namespace)"

section \<open>The update methods\<close>

definition statusSuccess :: string where "statusSuccess = ''success''"
definition statusError :: string where "statusError = ''error''"

definition gm_count :: "vec_lib \<Rightarrow> gossip_metric \<Rightarrow> string list \<Rightarrow> 'f gossip_meter_act" where
  "gm_count V k vals = if_made k (with_label_values V gossip_labels k vals (count_up k vals))"

definition gm_see :: "vec_lib \<Rightarrow> gossip_metric \<Rightarrow> string list \<Rightarrow> int \<Rightarrow> 'f gossip_meter_act" where
  "gm_see V k vals d = if_made k (with_label_values V gossip_labels k vals (see k vals d))"

definition gm_gauge :: "vec_lib \<Rightarrow> gossip_metric \<Rightarrow> string list \<Rightarrow> 'f gauge_value \<Rightarrow> 'f gossip_meter_act" where
  "gm_gauge V k vals v = if_made k (with_label_values V gossip_labels k vals (gauge_to k vals v))"

definition record_message_received :: "vec_lib \<Rightarrow> string \<Rightarrow> 'f gossip_meter_act" where
  "record_message_received V topic_name = gm_count V MessagesReceived [topic_name]"

definition status_label :: "bool \<Rightarrow> string" where
  "status_label success = (if \<not> success then statusError else statusSuccess)"

definition record_message_published :: "vec_lib \<Rightarrow> string \<Rightarrow> bool \<Rightarrow> 'f gossip_meter_act" where
  "record_message_published V topic_name success = gm_count V MessagesPublished [topic_name, status_label success]"

definition result_label :: "validation_result \<Rightarrow> string" where
  "result_label result =
     (if result = ValidationAccept then ''accept''
      else if result = ValidationReject then ''reject''
      else if result = ValidationIgnore then ''ignore''
      else ''unknown'')"

definition record_message_validated :: "vec_lib \<Rightarrow> string \<Rightarrow> validation_result \<Rightarrow> 'f gossip_meter_act" where
  "record_message_validated V topic_name result = gm_count V MessagesValidated [topic_name, result_label result]"

definition record_message_handled :: "vec_lib \<Rightarrow> string \<Rightarrow> bool \<Rightarrow> int \<Rightarrow> 'f gossip_meter_act" where
  "record_message_handled V topic_name success duration =
     act_bind (gm_count V MessagesHandled [topic_name, status_label success]) (\<lambda>_.
       gm_see V HandlerDuration [topic_name] duration)"

definition record_validation_error :: "vec_lib \<Rightarrow> string \<Rightarrow> 'f gossip_meter_act" where
  "record_validation_error V topic_name = gm_count V ValidationErrors [topic_name]"

definition record_handler_error :: "vec_lib \<Rightarrow> string \<Rightarrow> 'f gossip_meter_act" where
  "record_handler_error V topic_name = gm_count V HandlerErrors [topic_name]"

definition record_publish_error :: "vec_lib \<Rightarrow> string \<Rightarrow> 'f gossip_meter_act" where
  "record_publish_error V topic_name = gm_count V PublishErrors [topic_name]"

definition record_validation_duration :: "vec_lib \<Rightarrow> string \<Rightarrow> int \<Rightarrow> 'f gossip_meter_act" where
  "record_validation_duration V topic_name duration = gm_see V ValidationDuration [topic_name] duration"

definition record_handler_duration :: "vec_lib \<Rightarrow> string \<Rightarrow> int \<Rightarrow> 'f gossip_meter_act" where
  "record_handler_duration V topic_name duration = gm_see V HandlerDuration [topic_name] duration"

definition record_publish_duration :: "vec_lib \<Rightarrow> string \<Rightarrow> int \<Rightarrow> 'f gossip_meter_act" where
  "record_publish_duration V topic_name duration = gm_see V PublishDuration [topic_name] duration"

definition set_active_subscriptions :: "vec_lib \<Rightarrow> int \<Rightarrow> 'f gossip_meter_act" where
  "set_active_subscriptions V n = gm_gauge V ActiveSubscriptions [] (GaugeCount n)"

definition set_peers_per_topic :: "vec_lib \<Rightarrow> string \<Rightarrow> int \<Rightarrow> 'f gossip_meter_act" where
  "set_peers_per_topic V topic_name n = gm_gauge V PeersPerTopic [topic_name] (GaugeCount n)"

definition set_message_queue_size :: "vec_lib \<Rightarrow> string \<Rightarrow> int \<Rightarrow> 'f gossip_meter_act" where
  "set_message_queue_size V topic_name n = gm_gauge V MessageQueueSize [topic_name] (GaugeCount n)"

definition set_peer_score :: "vec_lib \<Rightarrow> string \<Rightarrow> 'f \<Rightarrow> 'f gossip_meter_act" where
  "set_peer_score V pid score = gm_gauge V PeerScores [pid] (GaugeFloat score)"

text \<open>A plain gauge takes no labels and cannot panic.\<close>

definition set_peers_connected :: "int \<Rightarrow> 'f gossip_meter_act" where
  "set_peers_connected n = if_made PeersConnected (\<lambda>m. (Inr (), gauge_to PeersConnected [] (GaugeCount n) m))"

section \<open>Metered operations\<close>

text \<open>A state and the metrics of the component, \<open>None\<close> for nil: \<open>if g.metrics != nil\<close>.\<close>

definition metered :: "'f gossip_meter_act \<Rightarrow> ('s \<times> 'f gossip_meters option, fault, unit) act" where
  "metered a = (\<lambda>(s, ms). case ms of None \<Rightarrow> (Inr (), s, None) | Some m \<Rightarrow> (case a m of (r, m') \<Rightarrow> (r, s, Some m')))"

definition on_state :: "('s, fault, 'a) act \<Rightarrow> ('s \<times> 'f gossip_meters option, fault, 'a) act" where
  "on_state a = (\<lambda>(s, ms). case a s of (r, s') \<Rightarrow> (r, s', ms))"

text \<open>The validator; its state are the invalid payload calls made so far.\<close>

definition report_invalid ::
  "'a handler_config \<Rightarrow> nat option \<Rightarrow> string \<Rightarrow> bytes \<Rightarrow> string \<Rightarrow> peer_id \<Rightarrow> (payload_call list, fault, unit) act" where
  "report_invalid h global topic_name d e from = (\<lambda>calls. (Inr (), calls @ invalid_calls h global topic_name d e from))"

type_synonym ('f, 'r) path_act = "(payload_call list \<times> 'f gossip_meters option, fault, 'r) act"

definition validate_metered ::
  "vec_lib \<Rightarrow> 'a handler_config \<Rightarrow> nat option \<Rightarrow> string \<Rightarrow> peer_id \<Rightarrow> bytes \<Rightarrow> int \<Rightarrow> ('f, pubsub_result) path_act" where
  "validate_metered V h global topic_name pid msg_data took =
     act_bind (metered (record_message_received V topic_name)) (\<lambda>_.
     case (case hc_compressor h of None \<Rightarrow> Inr msg_data | Some c \<Rightarrow> comp_decompress c msg_data) of
       Inl e \<Rightarrow>
         act_bind (on_state (report_invalid h global topic_name msg_data e pid)) (\<lambda>_.
         act_bind (metered (record_message_validated V topic_name ValidationReject)) (\<lambda>_. act_return PsReject))
     | Inr d \<Rightarrow>
         (case (case hc_decoder h of Some f \<Rightarrow> Some f | None \<Rightarrow> map_option enc_decode (hc_encoder h)) of
            None \<Rightarrow> act_bind (metered (record_message_validated V topic_name ValidationReject)) (\<lambda>_. act_return PsReject)
          | Some decoder \<Rightarrow>
              (case decoder d of
                 Inl (Panic m) \<Rightarrow> act_fail (Panic m)
               | Inl (Err e) \<Rightarrow>
                   act_bind (on_state (report_invalid h global topic_name d e pid)) (\<lambda>_.
                   act_bind (metered (record_message_validated V topic_name ValidationReject)) (\<lambda>_. act_return PsReject))
               | Inr decoded \<Rightarrow>
                   (case hc_validator h of
                      None \<Rightarrow> act_fail nil_deref
                    | Some validator \<Rightarrow>
                        let res = validator decoded pid in
                        act_bind (metered (record_validation_duration V topic_name took)) (\<lambda>_.
                        act_bind (metered (record_message_validated V topic_name res)) (\<lambda>_.
                        act_return (to_pubsub_result res)))))))"

definition process_metered ::
  "vec_lib \<Rightarrow> 'a handler_config \<Rightarrow> nat option \<Rightarrow> string \<Rightarrow> peer_id \<Rightarrow> bytes \<Rightarrow> int \<Rightarrow> ('f, ('a \<times> string option) option) path_act" where
  "process_metered V h global topic_name from msg_data took =
     act_bind (metered (record_message_received V topic_name)) (\<lambda>_.
     case (case hc_compressor h of None \<Rightarrow> Inr msg_data | Some c \<Rightarrow> comp_decompress c msg_data) of
       Inl e \<Rightarrow> act_bind (on_state (report_invalid h global topic_name msg_data e from)) (\<lambda>_. act_return None)
     | Inr d \<Rightarrow>
         (case (case hc_decoder h of Some f \<Rightarrow> Some f | None \<Rightarrow> map_option enc_decode (hc_encoder h)) of
            None \<Rightarrow> act_return None
          | Some decoder \<Rightarrow>
              (case decoder d of
                 Inl (Panic m) \<Rightarrow> act_fail (Panic m)
               | Inl (Err e) \<Rightarrow> act_bind (on_state (report_invalid h global topic_name d e from)) (\<lambda>_. act_return None)
               | Inr decoded \<Rightarrow>
                   (case hc_processor h of
                      None \<Rightarrow> act_return None
                    | Some processor \<Rightarrow>
                        let err = processor decoded from in
                        act_bind (metered (record_message_handled V topic_name (err = None) took)) (\<lambda>_.
                        act_bind (if err = None then act_return () else metered (record_handler_error V topic_name)) (\<lambda>_.
                        act_return (Some (decoded, err))))))))"

definition publish_metered ::
  "vec_lib \<Rightarrow> ps_lib \<Rightarrow> string list \<Rightarrow> topic \<Rightarrow> 'a \<Rightarrow> int \<Rightarrow> ('a gossip \<times> 'f gossip_meters option, fault, unit) act" where
  "publish_metered V lib order t msg took = (\<lambda>(g, ms).
     if \<not> g_started g then (Inl (Err ''gossipsub not started''), g, ms)
     else
       case get_handler order (g_registry g) (t_name t) of
         Inl f \<Rightarrow> (Inl f, g, ms)
       | Inr None \<Rightarrow> (Inl (Err (''no handler registered for topic '' @ t_name t)), g, ms)
       | Inr (Some h) \<Rightarrow>
           (case hc_encoder h of
              None \<Rightarrow> (Inl (Err (''no encoder configured for topic '' @ t_name t)), g, ms)
            | Some enc \<Rightarrow>
                (case enc_encode enc msg of
                   Inl (Panic m) \<Rightarrow> (Inl (Panic m), g, ms)
                 | Inl (Err e) \<Rightarrow>
                     act_bind (metered (record_publish_error V (t_name t)))
                       (\<lambda>_. act_fail (Err (err_wrap ''failed to encode message'' e))) (g, ms)
                 | Inr d \<Rightarrow>
                     (case (case hc_compressor h of None \<Rightarrow> Inr d | Some c \<Rightarrow> comp_compress c d) of
                        Inl e \<Rightarrow>
                          act_bind (metered (record_publish_error V (t_name t)))
                            (\<lambda>_. act_fail (Err (err_wrap (''failed to compress message for topic '' @ t_name t) e))) (g, ms)
                      | Inr out \<Rightarrow>
                          (case ps_call lib (PsPublish (t_name t) out) g of
                             (Inl e, g') \<Rightarrow>
                               act_bind (metered (record_publish_error V (t_name t))) (\<lambda>_.
                               act_bind (metered (record_message_published V (t_name t) False)) (\<lambda>_.
                               act_fail (Err (err_wrap (''failed to publish to topic '' @ t_name t) e)))) (g', ms)
                           | (Inr _, g') \<Rightarrow>
                               act_bind (metered (record_publish_duration V (t_name t) took)) (\<lambda>_.
                               metered (record_message_published V (t_name t) True)) (g', ms))))))"

text \<open>The gauge of the subscriptions: set under the lock in \<open>Subscribe\<close>, after it in \<open>removeProcessor\<close>.\<close>

definition subscribe_metered ::
  "vec_lib \<Rightarrow> ps_lib \<Rightarrow> string list \<Rightarrow> topic \<Rightarrow> ('a gossip \<times> 'f gossip_meters option, fault, nat) act" where
  "subscribe_metered V lib order t =
     act_bind (on_state (subscribe lib order t)) (\<lambda>i.
     act_bind (\<lambda>(g, ms). metered (set_active_subscriptions V (int (length (g_subscriptions g)))) (g, ms)) (\<lambda>_.
     act_return i))"

definition remove_processor_metered ::
  "vec_lib \<Rightarrow> ps_lib \<Rightarrow> string \<Rightarrow> ('a gossip \<times> 'f gossip_meters option, fault, unit) act" where
  "remove_processor_metered V lib name = (\<lambda>(g, ms).
     let g' = remove_processor lib name g; sub_count = length (g_subscriptions g') in
     metered (set_active_subscriptions V (int sub_count)) (g', ms))"

section \<open>What a call leaves in the metrics\<close>

definition tick :: "'k \<Rightarrow> string list \<Rightarrow> ('k, 'f) meters \<Rightarrow> ('k, 'f) meters" where
  "tick k vals m = (if mt_made m k then count_up k vals m else m)"

definition observed :: "'k \<Rightarrow> string list \<Rightarrow> int \<Rightarrow> ('k, 'f) meters \<Rightarrow> ('k, 'f) meters" where
  "observed k vals d m = (if mt_made m k then see k vals d m else m)"

lemma gm_count_ok:
  "lawful_vectors V \<Longrightarrow> length vals = length (gossip_labels k) \<Longrightarrow> list_all utf8_valid vals \<Longrightarrow> gm_count V k vals m = (Inr (), tick k vals m)"
  by (simp add: gm_count_def if_made_def with_label_values_ok tick_def)

lemma gm_see_ok:
  "lawful_vectors V \<Longrightarrow> length vals = length (gossip_labels k) \<Longrightarrow> list_all utf8_valid vals \<Longrightarrow> gm_see V k vals d m = (Inr (), observed k vals d m)"
  by (simp add: gm_see_def if_made_def with_label_values_ok observed_def)

lemma utf8_label_words [simp]:
  "utf8_valid ''success''" "utf8_valid ''error''" "utf8_valid ''accept''" "utf8_valid ''reject''"
  "utf8_valid ''ignore''" "utf8_valid ''unknown''"
  by (simp_all add: utf8_valid_def)

lemma utf8_labels [simp]: "utf8_valid (status_label b)" "utf8_valid (result_label r)"
  by (simp_all add: status_label_def statusSuccess_def statusError_def result_label_def)

lemmas meter_op_defs = record_message_received_def record_message_validated_def record_message_handled_def
  record_handler_error_def record_validation_duration_def record_publish_error_def record_message_published_def
  record_publish_duration_def

lemma metered_ok: "(\<And>m. a m = (Inr (), f m)) \<Longrightarrow> metered a (s, ms) = (Inr (), s, map_option f ms)"
  by (simp add: metered_def split: option.splits)

lemma metered_count [act_simps]:
  "lawful_vectors V \<Longrightarrow> length vals = length (gossip_labels k) \<Longrightarrow> list_all utf8_valid vals \<Longrightarrow>
   metered (gm_count V k vals) (s, ms) = (Inr (), s, map_option (tick k vals) ms)"
  by (intro metered_ok gm_count_ok)

lemma metered_see [act_simps]:
  "lawful_vectors V \<Longrightarrow> length vals = length (gossip_labels k) \<Longrightarrow> list_all utf8_valid vals \<Longrightarrow>
   metered (gm_see V k vals d) (s, ms) = (Inr (), s, map_option (observed k vals d) ms)"
  by (intro metered_ok gm_see_ok)

lemma metered_handled [act_simps]:
  "lawful_vectors V \<Longrightarrow> utf8_valid t \<Longrightarrow> metered (record_message_handled V t b d) (s, ms) =
     (Inr (), s, map_option (observed HandlerDuration [t] d \<circ> tick MessagesHandled [t, status_label b]) ms)"
  by (rule metered_ok) (simp add: record_message_handled_def act_bind_apply gm_count_ok gm_see_ok)

text \<open>The metrics after the validator and after the processor, from what the message decodes to.\<close>

definition validation_meters ::
  "'a handler_config \<Rightarrow> string \<Rightarrow> peer_id \<Rightarrow> bytes \<Rightarrow> int \<Rightarrow> 'f gossip_meters \<Rightarrow> 'f gossip_meters" where
  "validation_meters h t pid data took m =
     (let m1 = tick MessagesReceived [t] m in
      case decode_payload h data of
        Inl (DecoderPanic _) \<Rightarrow> m1
      | Inl _ \<Rightarrow> tick MessagesValidated [t, ''reject''] m1
      | Inr msg \<Rightarrow>
          (case hc_validator h of
             None \<Rightarrow> m1
           | Some validator \<Rightarrow>
               tick MessagesValidated [t, result_label (validator msg pid)] (observed ValidationDuration [t] took m1)))"

definition processing_meters ::
  "'a handler_config \<Rightarrow> string \<Rightarrow> peer_id \<Rightarrow> bytes \<Rightarrow> int \<Rightarrow> 'f gossip_meters \<Rightarrow> 'f gossip_meters" where
  "processing_meters h t from data took m =
     (let m1 = tick MessagesReceived [t] m in
      case process_message h None t from data of
        (Inr (Some (_, None)), _) \<Rightarrow> observed HandlerDuration [t] took (tick MessagesHandled [t, ''success''] m1)
      | (Inr (Some (_, Some _)), _) \<Rightarrow>
          tick HandlerErrors [t] (observed HandlerDuration [t] took (tick MessagesHandled [t, ''error''] m1))
      | _ \<Rightarrow> m1)"

lemma label_simps [simp]:
  "result_label ValidationReject = ''reject''" "status_label True = ''success''" "status_label False = ''error''"
  by (simp_all add: result_label_def validation_consts status_label_def statusSuccess_def statusError_def)

lemma validate_metered_eq:
  assumes "lawful_vectors V" "utf8_valid t"
  shows "validate_metered V h global t pid data took (calls, ms) =
           (case validate_message h global t pid data of
              (r, cs) \<Rightarrow> (r, calls @ cs, map_option (validation_meters h t pid data took) ms))"
  using assms
  by (cases ms) (auto simp: validate_metered_def validate_message_def decode_payload_def validation_meters_def meter_op_defs
      act_run act_simps on_state_def report_invalid_def Let_def option.map_comp comp_def nil_deref_def
      split: sum.splits option.splits fault.splits)

lemma process_metered_eq:
  assumes "lawful_vectors V" "utf8_valid t"
  shows "process_metered V h global t pid data took (calls, ms) =
           (case process_message h global t pid data of
              (r, cs) \<Rightarrow> (r, calls @ cs, map_option (processing_meters h t pid data took) ms))"
  using assms
  by (cases ms) (auto simp: process_metered_def process_message_def decode_payload_def processing_meters_def
      record_message_received_def record_handler_error_def
      act_run act_simps on_state_def report_invalid_def Let_def option.map_comp comp_def
      split: sum.splits option.splits fault.splits)

text \<open>Whether \<open>Publish\<close> gets as far as encoding: the earlier errors are not counted.\<close>

definition publish_reaches_encoder :: "string list \<Rightarrow> topic \<Rightarrow> 'a gossip \<Rightarrow> bool" where
  "publish_reaches_encoder order t g =
     (g_started g \<and> (case get_handler order (g_registry g) (t_name t) of
        Inr (Some h) \<Rightarrow> (case hc_encoder h of None \<Rightarrow> False | Some _ \<Rightarrow> True) | _ \<Rightarrow> False))"

definition publish_meters ::
  "ps_lib \<Rightarrow> string list \<Rightarrow> topic \<Rightarrow> 'a \<Rightarrow> int \<Rightarrow> 'a gossip \<Rightarrow> 'f gossip_meters \<Rightarrow> 'f gossip_meters" where
  "publish_meters lib order t msg took g m =
     (let sent = g_history (snd (publish lib order t msg g)) \<noteq> g_history g in
      case fst (publish lib order t msg g) of
        Inr _ \<Rightarrow> tick MessagesPublished [t_name t, ''success''] (observed PublishDuration [t_name t] took m)
      | Inl (Panic _) \<Rightarrow> m
      | Inl (Err _) \<Rightarrow>
          if sent then tick MessagesPublished [t_name t, ''error''] (tick PublishErrors [t_name t] m)
          else if publish_reaches_encoder order t g then tick PublishErrors [t_name t] m
          else m)"

lemma publish_metered_eq:
  assumes "lawful_vectors V" "utf8_valid (t_name t)"
  shows "publish_metered V lib order t msg took (g, ms) =
           (case publish lib order t msg g of (r, g') \<Rightarrow> (r, g', map_option (publish_meters lib order t msg took g) ms))"
  using assms
  by (cases ms) (auto simp: publish_metered_def publish_def publish_meters_def publish_reaches_encoder_def
      record_publish_error_def record_message_published_def record_publish_duration_def
      act_run act_simps ps_call_def Let_def
      split: sum.splits option.splits fault.splits)

text \<open>
  C36: on a topic whose name is valid UTF-8 the metrics change nothing the message path does: the
  validator, the processor and \<open>Publish\<close> each return what they return without metrics, make the same
  calls and leave the same state, and the metrics end as the result, the verdict and the error say.
\<close>

theorem metered_path_agrees:
  assumes "lawful_vectors V" "utf8_valid (t_name t)"
  shows "validate_metered V h global (t_name t) pid data took (calls, ms) =
           (case validate_message h global (t_name t) pid data of
              (r, cs) \<Rightarrow> (r, calls @ cs, map_option (validation_meters h (t_name t) pid data took) ms)) \<and>
         process_metered V h global (t_name t) pid data took (calls, ms) =
           (case process_message h global (t_name t) pid data of
              (r, cs) \<Rightarrow> (r, calls @ cs, map_option (processing_meters h (t_name t) pid data took) ms)) \<and>
         publish_metered V lib order t msg took (g, ms) =
           (case publish lib order t msg g of
              (r, g') \<Rightarrow> (r, g', map_option (publish_meters lib order t msg took g) ms))"
  using assms by (simp add: validate_metered_eq process_metered_eq publish_metered_eq)

lemma metered_path_agrees_witness:
  "process_metered demo_vectors echo_handler None ''blocks'' ''p'' [7] 5 ([], Some (NewMetrics :: nat gossip_meters)) =
     (Inr (Some (7, None)), [], Some (processing_meters echo_handler ''blocks'' ''p'' [7] 5 NewMetrics)) \<and>
   mt_count (processing_meters echo_handler ''blocks'' ''p'' [7] 5 (NewMetrics :: nat gossip_meters))
     MessagesHandled [''blocks'', ''success''] = 1"
proof -
  have p: "process_message echo_handler g ''blocks'' ''p'' [7] = (Inr (Some (7, None)), [])" for g
    by (simp add: process_message_def decode_payload_def)
  have "utf8_valid (t_name \<lparr>t_name = ''blocks''\<rparr>)" by (simp add: utf8_valid_def)
  from metered_path_agrees [OF demo_vectors_lawful this, of echo_handler None "''p''" "[7]" 5 "[]" "Some (NewMetrics :: nat gossip_meters)" "\<lambda>_ _. None" "[]" 7 demo_gossip]
  show ?thesis by (simp add: p processing_meters_def Let_def tick_def observed_def count_up_def see_def NewMetrics_def new_meters_def)
qed

text \<open>A topic name that is not UTF-8 makes the first metric call of the validator panic.\<close>

lemma metered_validator_panics:
  assumes "lawful_vectors V" "\<not> utf8_valid t" "mt_made m MessagesReceived"
  shows "panics (fst (validate_metered V h global t pid data took (calls, Some m)))"
proof -
  obtain e where "V [''topic''] [t] = Some e"
    using assms(1,2) by (cases "V [''topic''] [t]") (auto simp: lawful_vectors_def)
  then show ?thesis using assms(3)
    by (simp add: validate_metered_def act_run metered_def record_message_received_def gm_count_def if_made_def
        with_label_values_def)
qed

section \<open>The books of a topic\<close>

text \<open>
  What libp2p does with the messages of a subscribed topic: each one goes to the validator, and to the
  processor if it was accepted. A panic ends the program. The results of the processor are kept with
  the verdicts.
\<close>

type_synonym delivery = "peer_id \<times> bytes \<times> int \<times> int"
type_synonym 'a outcome = "pubsub_result \<times> ('a \<times> string option) option"

definition deliver_metered ::
  "vec_lib \<Rightarrow> 'a handler_config \<Rightarrow> nat option \<Rightarrow> string \<Rightarrow> delivery \<Rightarrow> ('f, 'a outcome) path_act" where
  "deliver_metered V h global t = (\<lambda>(pid, data, took1, took2).
     act_bind (validate_metered V h global t pid data took1) (\<lambda>v.
     if v = PsAccept then act_bind (process_metered V h global t pid data took2) (\<lambda>p. act_return (v, p))
     else act_return (v, None)))"

fun deliver_all ::
  "vec_lib \<Rightarrow> 'a handler_config \<Rightarrow> nat option \<Rightarrow> string \<Rightarrow> delivery list \<Rightarrow> ('f, 'a outcome list) path_act" where
  "deliver_all V h global t [] = act_return []"
| "deliver_all V h global t (d # ds) =
     act_bind (deliver_metered V h global t d) (\<lambda>r. act_bind (deliver_all V h global t ds) (\<lambda>rs. act_return (r # rs)))"

definition accepted_in :: "'a outcome list \<Rightarrow> nat" where
  "accepted_in rs = length (filter (\<lambda>(v, _). v = PsAccept) rs)"

definition handled_in :: "(string option \<Rightarrow> bool) \<Rightarrow> 'a outcome list \<Rightarrow> nat" where
  "handled_in P rs = length (filter (\<lambda>(_, p). case p of Some (_, e) \<Rightarrow> P e | None \<Rightarrow> False) rs)"

definition validated_sum :: "string \<Rightarrow> 'f gossip_meters \<Rightarrow> nat" where
  "validated_sum t m =
     (\<Sum>r \<leftarrow> [''accept'', ''reject'', ''ignore'', ''unknown'']. mt_count m MessagesValidated [t, r])"

text \<open>The counters a topic's messages move, as one value.\<close>

definition topic_counts :: "string \<Rightarrow> 'f gossip_meters \<Rightarrow> nat list" where
  "topic_counts t m =
     [mt_count m MessagesReceived [t], validated_sum t m, mt_count m MessagesValidated [t, ''accept''],
      mt_count m MessagesHandled [t, ''success''], mt_count m MessagesHandled [t, ''error''],
      mt_count m HandlerErrors [t]]"

definition outcome_counts :: "'a outcome list \<Rightarrow> nat list" where
  "outcome_counts rs =
     [length rs + accepted_in rs, length rs, accepted_in rs,
      handled_in (\<lambda>e. e = None) rs, handled_in (\<lambda>e. e \<noteq> None) rs, handled_in (\<lambda>e. e \<noteq> None) rs]"

lemma mt_simps [simp]:
  "mt_made (tick k vals m) = mt_made m" "mt_made (observed k vals d m) = mt_made m"
  "mt_count (observed k vals d m) = mt_count m"
  "mt_count (tick k vals m) k' vals' =
     (if mt_made m k \<and> k' = k \<and> vals' = vals then Suc (mt_count m k' vals') else mt_count m k' vals')"
  by (simp_all add: tick_def observed_def count_up_def see_def)

lemma result_label_iffs [simp]:
  "(result_label r = ''accept'') = (r = ValidationAccept)" "(''accept'' = result_label r) = (r = ValidationAccept)"
  "(''reject'' = result_label r) = (r = ValidationReject)" "(''ignore'' = result_label r) = (r = ValidationIgnore)"
  "(''unknown'' = result_label r) = (r \<notin> {ValidationAccept, ValidationReject, ValidationIgnore})"
  by (auto simp: result_label_def validation_consts)

lemma validation_counts:
  assumes "mt_made m = (\<lambda>_. True)" "fst (validate_message h global t pid data) = Inr v"
  shows "mt_made (validation_meters h t pid data took m) = (\<lambda>_. True) \<and>
         topic_counts t (validation_meters h t pid data took m) =
           map2 (+) (topic_counts t m) [1, 1, if v = PsAccept then 1 else 0, 0, 0, 0]"
  using assms
  by (auto simp: validate_message_def validation_meters_def topic_counts_def validated_sum_def Let_def
      to_pubsub_result_def validation_consts split: sum.splits option.splits payload_fault.splits if_splits)

lemma processing_counts:
  assumes "mt_made m = (\<lambda>_. True)" "fst (process_message h global t pid data) = Inr p"
  shows "mt_made (processing_meters h t pid data took m) = (\<lambda>_. True) \<and>
         topic_counts t (processing_meters h t pid data took m) =
           map2 (+) (topic_counts t m) [1, 0, 0, handled_in (\<lambda>e. e = None) [(PsAccept, p)],
             handled_in (\<lambda>e. e \<noteq> None) [(PsAccept, p)], handled_in (\<lambda>e. e \<noteq> None) [(PsAccept, p)]]"
  using assms
  by (auto simp: process_message_def processing_meters_def topic_counts_def validated_sum_def Let_def handled_in_def
      split: sum.splits option.splits payload_fault.splits if_splits)

lemma deliver_counts:
  assumes "lawful_vectors V" "utf8_valid t" "mt_made m = (\<lambda>_. True)"
    and "deliver_metered V h global t d (calls, Some m) = (Inr r, calls', Some m')"
  shows "mt_made m' = (\<lambda>_. True) \<and> topic_counts t m' = map2 (+) (topic_counts t m) (outcome_counts [r])"
proof -
  obtain pid data took1 took2 where d: "d = (pid, data, took1, took2)" by (cases d)
  obtain v cs where v: "validate_message h global t pid data = (Inr v, cs)"
    using assms by (auto simp: d deliver_metered_def act_ok_iff validate_metered_eq split: prod.splits)
  let ?m1 = "validation_meters h t pid data took1 m"
  have m1: "mt_made ?m1 = (\<lambda>_. True)"
    "topic_counts t ?m1 = map2 (+) (topic_counts t m) [1, 1, if v = PsAccept then 1 else 0, 0, 0, 0]"
    using validation_counts [OF assms(3), of h global t pid data v took1] v by simp_all
  show ?thesis
  proof (cases "v = PsAccept")
    case False
    then have "r = (v, None) \<and> m' = ?m1"
      using assms by (auto simp: d deliver_metered_def act_ok_iff validate_metered_eq v)
    with m1 False show ?thesis by (simp add: topic_counts_def outcome_counts_def accepted_in_def handled_in_def)
  next
    case True
    then obtain p cs' where p: "process_message h global t pid data = (Inr p, cs')" "r = (v, p)"
      "m' = processing_meters h t pid data took2 ?m1"
      using assms by (auto simp: d deliver_metered_def act_ok_iff validate_metered_eq process_metered_eq v split: prod.splits)
    with processing_counts [OF m1(1), of h global t pid data p took2] m1 True show ?thesis
      by (simp add: topic_counts_def outcome_counts_def accepted_in_def handled_in_def)
  qed
qed

lemma outcome_counts_Cons:
  "outcome_counts (r # rs) = map2 (+) (outcome_counts [r]) (outcome_counts rs)"
  by (cases r) (auto simp: outcome_counts_def accepted_in_def handled_in_def split: option.splits)

lemma metered_keeps_metrics: "metered a (s, Some m) = (r, s', ms') \<Longrightarrow> \<exists>m'. ms' = Some m'"
  by (auto simp: metered_def split: prod.splits)

lemma deliver_keeps_metrics:
  assumes "lawful_vectors V" "utf8_valid t" "deliver_metered V h global t d (calls, Some m) = (r, calls', ms')"
  shows "\<exists>m'. ms' = Some m'"
  using assms by (cases d) (auto simp: deliver_metered_def act_run validate_metered_eq process_metered_eq
      split: prod.splits sum.splits if_splits)


definition picky_handler :: "u8 handler_config" where
  "picky_handler = new_handler_config [with_encoder (Some (new_ssz_encoder (byte_type False))),
     with_validator (Some (\<lambda>b _. if b = 0 then ValidationReject else ValidationAccept)),
     with_processor (Some (\<lambda>b _. if b = 1 then Some ''one'' else None))]"


section \<open>The gauge of the subscriptions\<close>

lemma gm_gauge_ok:
  "lawful_vectors V \<Longrightarrow> length vals = length (gossip_labels k) \<Longrightarrow> list_all utf8_valid vals \<Longrightarrow>
   gm_gauge V k vals v m = (Inr (), if mt_made m k then gauge_to k vals v m else m)"
  by (simp add: gm_gauge_def if_made_def with_label_values_ok)

lemma set_active_ok: "lawful_vectors V \<Longrightarrow> set_active_subscriptions V n m = (Inr (), if mt_made m ActiveSubscriptions then
     gauge_to ActiveSubscriptions [] (GaugeCount n) m else m)"
  by (simp add: set_active_subscriptions_def gm_gauge_ok)

definition active_gauge :: "'f gossip_meters \<Rightarrow> 'f gauge_value option" where
  "active_gauge m = mt_gauge m ActiveSubscriptions []"

text \<open>Called one after the other, \<open>Subscribe\<close> and \<open>removeProcessor\<close> leave the gauge at the number of topics.\<close>

lemma sequential_gauge:
  assumes "lawful_vectors V" "mt_made m = (\<lambda>_. True)"
  shows "subscribe_metered V lib order t (g, Some m) = (Inr i, g', Some m') \<Longrightarrow>
           active_gauge m' = Some (GaugeCount (int (gossip_topic_count g')))"
    and "remove_processor_metered V lib name (g, Some m) = (r, g', Some m') \<Longrightarrow>
           active_gauge m' = Some (GaugeCount (int (gossip_topic_count g')))"
  using assms
  by (auto simp: subscribe_metered_def remove_processor_metered_def act_ok_iff on_state_def metered_def set_active_ok
      Let_def active_gauge_def gauge_to_def gossip_topic_count_def split: prod.splits)

text \<open>
  The steps as they interleave: \<open>removeProcessor\<close> reads the number under the lock (\<open>GRemoveSubscription\<close>)
  and sets the gauge after it; the numbers read and not yet set are the last component.
\<close>

inductive gauge_step ::
  "vec_lib \<Rightarrow> ps_lib \<Rightarrow> 'a gossip \<times> 'f gossip_meters option \<times> int list \<Rightarrow> 'a gossip \<times> 'f gossip_meters option \<times> int list \<Rightarrow> bool"
  for V lib where
  gauge_subscribe:
    "subscribe_metered V lib order t (g, ms) = (r, g', ms') \<Longrightarrow> gauge_step V lib (g, ms, ns) (g', ms', ns)"
| gauge_delete:
    "gossip_step lib g (GRemoveSubscription i) g' \<Longrightarrow>
     gauge_step V lib (g, ms, ns) (g', ms, ns @ [int (length (g_subscriptions g'))])"
| gauge_set:
    "n \<in> set ns \<Longrightarrow> metered (set_active_subscriptions V n) (g, ms) = (r, g, ms') \<Longrightarrow>
     gauge_step V lib (g, ms, ns) (g, ms', remove1 n ns)"
| gauge_other:
    "gossip_step lib g l g' \<Longrightarrow> (\<And>order t. l \<noteq> GSubscribe order t) \<Longrightarrow> (\<And>i. l \<noteq> GRemoveSubscription i) \<Longrightarrow>
     gauge_step V lib (g, ms, ns) (g', ms, ns)"

definition two_topics :: "u8 gossip" where
  "two_topics = empty_gossip\<lparr>g_started := True,
     g_registry := \<lparr>reg_handlers = [(''a'', echo_handler), (''b'', echo_handler)], reg_subnet_handlers = []\<rparr>\<rparr>"

lemma two_topics_subscribe:
  assumes "g_started g" "g_registry g = g_registry two_topics" "n \<in> {''a'', ''b''}" "g_subscriptions g = []"
    "mt_made m = (\<lambda>_. True)"
  shows "subscribe (\<lambda>_ _. None) [] \<lparr>t_name = n\<rparr> g = (Inr (g_next g), add_subscription n (g\<lparr>g_history :=
           g_history g @ [(PsJoin n, None), (PsSubscribe n, None)]\<rparr>))"
    and "subscribe_metered demo_vectors (\<lambda>_ _. None) [] \<lparr>t_name = n\<rparr> (g, Some m) =
      (Inr (g_next g), snd (subscribe (\<lambda>_ _. None) [] \<lparr>t_name = n\<rparr> g), Some (gauge_to ActiveSubscriptions [] (GaugeCount 1) m))"
  using assms
  by (auto simp: subscribe_metered_def act_run on_state_def metered_def set_active_ok [OF demo_vectors_lawful] add_subscription_def Let_def
      subscribe_def subscribe_calls_def ps_call_def get_handler_def two_topics_def)

text \<open>
  The gauge can be left wrong for good: a subscription whose removal read 0 topics, a new one that
  sets the gauge to 1, then the late 0 on top. No removal is under way any more, one topic is
  subscribed, and the gauge says none.
\<close>

theorem active_gauge_lost_update:
  "\<exists>g m. (gauge_step demo_vectors (\<lambda>_ _. None))\<^sup>*\<^sup>* (two_topics, Some (NewMetrics :: nat gossip_meters), []) (g, Some m, []) \<and>
     gossip_topic_count g = 1 \<and> g_removing g = [] \<and> (\<forall>(i, name) \<in> set (g_waiting g). \<not> sub_ctx_done g i) \<and>
     active_gauge m = Some (GaugeCount 0)"
proof -
  let ?L = "\<lambda>_ _. None"
  let ?set = "\<lambda>n. gauge_to ActiveSubscriptions [] (GaugeCount n) :: nat gossip_meters \<Rightarrow> nat gossip_meters"
  define g1 where "g1 = snd (subscribe ?L [] \<lparr>t_name = ''a''\<rparr> two_topics)"
  define g2 where "g2 = g1\<lparr>g_store := cancel_subscription (Some 0) (g_store g1)\<rparr>"
  define r3 where "r3 = remove_processor_entry ?L ''a'' g2"
  define g3 where "g3 = r3\<lparr>g_waiting := removeAll (0, ''a'') (g_waiting r3), g_removing := g_removing r3 @ [(0, ''a'')]\<rparr>"
  define r4 where "r4 = remove_subscription_entry ?L ''a'' g3"
  define g4 where "g4 = r4\<lparr>g_removing := removeAll (0, ''a'') (g_removing r4)\<rparr>"
  define g5 where "g5 = snd (subscribe ?L [] \<lparr>t_name = ''b''\<rparr> g4)"
  have m: "mt_made (NewMetrics :: nat gossip_meters) = (\<lambda>_. True)" "mt_made (?set n m) = mt_made m" for n m
    by (simp_all add: NewMetrics_def new_meters_def gauge_to_def)
  have 0: "g_started two_topics" "g_subscriptions two_topics = []" "g_waiting two_topics = []"
    "g_processors two_topics = []" "g_next two_topics = 0" "g_removing two_topics = []" "g_ctx_done two_topics = []"
    by (simp_all add: two_topics_def empty_gossip_def)
  note s1 = two_topics_subscribe [of two_topics "''a''", OF 0(1) refl _ 0(2) m(1), simplified]
  have 1: "g_waiting g1 = [(0, ''a'')]" "g_processors g1 = [(''a'', 0)]" "g_subscriptions g1 = [(''a'', 0)]"
    "g_started g1" "g_registry g1 = g_registry two_topics" "g_next g1 = 1" "g_removing g1 = []" "g_ctx_done g1 = []"
    by (simp_all add: g1_def s1 0 add_subscription_def Let_def)
  have 3: "g_waiting g3 = []" "g_subscriptions g3 = [(''a'', 0)]" "g_removing g3 = [(0, ''a'')]" "g_ctx_done g3 = []"
    "g_started g3" "g_registry g3 = g_registry two_topics" "g_next g3 = 1"
    by (simp_all add: g3_def r3_def g2_def 1 remove_processor_entry_def stop_processor_def ps_call_def)
  have 4: "g_waiting g4 = []" "g_subscriptions g4 = []" "g_removing g4 = []" "g_ctx_done g4 = []"
    "g_started g4" "g_registry g4 = g_registry two_topics" "g_next g4 = 1"
    by (simp_all add: g4_def r4_def 3 remove_subscription_entry_def ps_call_def Let_def)
  note s5 = two_topics_subscribe [of g4 "''b''", OF 4(5,6) _ 4(2), simplified]
  have 5: "g_waiting g5 = [(1, ''b'')]" "g_subscriptions g5 = [(''b'', 1)]" "g_removing g5 = []" "g_ctx_done g5 = []"
    "\<not> sub_cancelled (ss_subs (g_store g5) 1)"
    by (simp_all add: g5_def s5 [OF m(1)] 4 add_subscription_def Let_def)
  have "gauge_step demo_vectors ?L (two_topics, Some NewMetrics, []) (g1, Some (?set 1 NewMetrics), [])"
    unfolding g1_def by (rule gauge_subscribe [OF s1(2)])
  moreover have "gauge_step demo_vectors ?L (g1, ms, []) (g2, ms, [])" for ms :: "nat gossip_meters option"
    unfolding g2_def by (rule gauge_other [OF step_cancel]) simp_all
  moreover have "gauge_step demo_vectors ?L (g2, ms, []) (g3, ms, [])" for ms :: "nat gossip_meters option"
  proof (rule gauge_other)
    show "gossip_step ?L g2 (GRemoveProcessor 0) g3"
      unfolding g3_def by (rule step_remove_processor) (simp_all add: g2_def 1 r3_def sub_ctx_done_def cancel_subscription_def)
  qed simp_all
  moreover have "gauge_step demo_vectors ?L (g3, ms, []) (g4, ms, [0])" for ms :: "nat gossip_meters option"
  proof -
    have "gossip_step ?L g3 (GRemoveSubscription 0) g4"
      unfolding g4_def by (rule step_remove_subscription) (simp_all add: 3 r4_def)
    from gauge_delete [OF this, of demo_vectors ms "[]"] show ?thesis by (simp add: 4)
  qed
  moreover have "gauge_step demo_vectors ?L (g4, Some (?set 1 NewMetrics), [0]) (g5, Some (?set 1 (?set 1 NewMetrics)), [0])"
    unfolding g5_def by (rule gauge_subscribe [OF s5(2)]) (simp add: m)
  moreover have "gauge_step demo_vectors ?L (g5, Some (?set 1 (?set 1 NewMetrics)), [0]) (g5, Some (?set 0 (?set 1 (?set 1 NewMetrics))), [])"
    using gauge_set [of 0 "[0]" demo_vectors g5 "Some (?set 1 (?set 1 NewMetrics))" "Inr ()" "Some (?set 0 (?set 1 (?set 1 NewMetrics)))" ?L]
    by (simp add: metered_def set_active_ok [OF demo_vectors_lawful] m)
  ultimately have "(gauge_step demo_vectors ?L)\<^sup>*\<^sup>* (two_topics, Some NewMetrics, []) (g5, Some (?set 0 (?set 1 (?set 1 NewMetrics))), [])"
    by (meson converse_rtranclp_into_rtranclp rtranclp.rtrancl_refl)
  moreover have "gossip_topic_count g5 = 1" "g_removing g5 = []" "\<forall>(i, name) \<in> set (g_waiting g5). \<not> sub_ctx_done g5 i"
    "active_gauge (?set 0 m) = Some (GaugeCount 0)" for m
    using 5 by (simp_all add: gossip_topic_count_def sub_ctx_done_def active_gauge_def gauge_to_def)
  ultimately show ?thesis by blast
qed

end
