(* ===== verification/Peers.thy ===== *)
theory Peers
  imports GoStrings
begin

text \<open>
  Nodes and the peers derived from them: \<open>pkg/discovery/peer.go\<close> and \<open>manual.go\<close>. A node is a
  value of \<open>'n\<close>; go-ethereum's accessors of its record, prysm's key conversion and the parsers of
  libp2p are the parameter \<open>node_lib\<close>. \<open>net.IP\<close> is Go's own: a byte slice, nil when empty.
\<close>

record ('n, 'k) node_lib =
  node_pubkey :: "'n \<Rightarrow> 'k option"
  convert_pubkey :: "'k \<Rightarrow> string + 'k"
  id_from_public_key :: "'k \<Rightarrow> string + string"
  node_ip :: "'n \<Rightarrow> bytes"
  node_udp :: "'n \<Rightarrow> nat"
  node_tcp :: "'n \<Rightarrow> nat"
  new_multiaddr :: "string \<Rightarrow> string + string"
  load_eth2 :: "'n \<Rightarrow> string + bytes"
  unmarshal_fork_id :: "bytes \<Rightarrow> string + bytes"

section \<open>IP addresses\<close>

definition v4_in_v6_prefix :: bytes where
  "v4_in_v6_prefix = replicate 10 0 @ [0xff, 0xff]"

definition ip_to4 :: "bytes \<Rightarrow> bytes option" where
  "ip_to4 ip =
     (if length ip = 4 then Some ip
      else if length ip = 16 \<and> take 12 ip = v4_in_v6_prefix then Some (drop 12 ip)
      else None)"

definition ip_to16 :: "bytes \<Rightarrow> bytes option" where
  "ip_to16 ip =
     (if length ip = 4 then Some (v4_in_v6_prefix @ ip) else if length ip = 16 then Some ip else None)"

section \<open>Connectable peers\<close>

record 'n connectable_peer =
  cp_id :: string
  cp_addrs :: "string list"
  cp_enode :: 'n

text \<open>The version of the address, \<open>None\<close> for neither.\<close>

definition ip_version :: "bytes \<Rightarrow> string option" where
  "ip_version ip =
     (if ip_to4 ip \<noteq> None \<and> length (the (ip_to4 ip)) = 4 then Some ''ip4''
      else if ip_to16 ip \<noteq> None \<and> length (the (ip_to16 ip)) = 16 then Some ''ip6''
      else None)"

text \<open>One address per transport whose port is set; \<open>show_ip\<close> is how \<open>%s\<close> prints the address.\<close>

definition transport_addr ::
  "('n, 'k) node_lib \<Rightarrow> (bytes \<Rightarrow> string) \<Rightarrow> string \<Rightarrow> string \<Rightarrow> bytes \<Rightarrow> nat \<Rightarrow> string + string list" where
  "transport_addr L show_ip version transport ip port =
     (if port = 0 then Inr []
      else
        let s = ''/'' @ version @ ''/'' @ show_ip ip @ ''/'' @ transport @ ''/'' @ dec_of_nat port in
        case new_multiaddr L s of
          Inl e \<Rightarrow> Inl (err_wrap (''failed to parse multiaddress '' @ s) e)
        | Inr a \<Rightarrow> Inr [a])"

definition derive_addrs :: "('n, 'k) node_lib \<Rightarrow> (bytes \<Rightarrow> string) \<Rightarrow> 'n \<Rightarrow> string + string list" where
  "derive_addrs L show_ip n =
     (case ip_version (node_ip L n) of
        None \<Rightarrow> Inl ''no IP address found in ENR''
      | Some version \<Rightarrow>
          (case transport_addr L show_ip version ''udp'' (node_ip L n) (node_udp L n) of
             Inl e \<Rightarrow> Inl e
           | Inr udp \<Rightarrow>
               (case transport_addr L show_ip version ''tcp'' (node_ip L n) (node_tcp L n) of
                  Inl e \<Rightarrow> Inl e
                | Inr tcp \<Rightarrow> Inr (udp @ tcp))))"

definition derive_details_from_node ::
  "('n, 'k) node_lib \<Rightarrow> (bytes \<Rightarrow> string) \<Rightarrow> 'n option \<Rightarrow> string + 'n connectable_peer" where
  "derive_details_from_node L show_ip node =
     (case node of
        None \<Rightarrow> Inl ''node is nil''
      | Some n \<Rightarrow>
          (case node_pubkey L n of
             None \<Rightarrow> Inl ''public key is nil''
           | Some k \<Rightarrow>
               (case convert_pubkey L k of
                  Inl e \<Rightarrow> Inl (err_wrap ''failed to convert ECDSA public key'' e)
                | Inr secp \<Rightarrow>
                    (case id_from_public_key L secp of
                       Inl e \<Rightarrow> Inl (err_wrap ''failed to get peer ID from public key'' e)
                     | Inr pid \<Rightarrow>
                         (case derive_addrs L show_ip n of
                            Inl e \<Rightarrow> Inl e
                          | Inr addrs \<Rightarrow> Inr \<lparr>cp_id = pid, cp_addrs = addrs, cp_enode = n\<rparr>)))))"

text \<open>The peer keeps the node it was derived from, under the id of the node's key.\<close>

lemma derive_details_Inr:
  "derive_details_from_node L show_ip node = Inr p \<Longrightarrow>
     node = Some (cp_enode p) \<and>
     (\<exists>k s. node_pubkey L (cp_enode p) = Some k \<and> convert_pubkey L k = Inr s \<and> id_from_public_key L s = Inr (cp_id p)) \<and>
     derive_addrs L show_ip (cp_enode p) = Inr (cp_addrs p)"
  by (auto simp: derive_details_from_node_def split: option.splits sum.splits)

lemma ip_version_iff: "ip_version ip \<noteq> None \<longleftrightarrow> length ip = 4 \<or> length ip = 16"
  by (simp add: ip_version_def ip_to4_def ip_to16_def v4_in_v6_prefix_def)

lemma ip_version_4: "ip_version ip = Some ''ip4'' \<longleftrightarrow> length ip = 4 \<or> length ip = 16 \<and> take 12 ip = v4_in_v6_prefix"
  by (auto simp: ip_version_def ip_to4_def ip_to16_def v4_in_v6_prefix_def)

text \<open>
  a node that has a usable key and an IP address of either version gives a peer with an address
  for each transport whose port is set, UDP first, and none for the other; without an IP address
  it gives none. The parsers of the library are taken to accept such addresses and return them.
\<close>

theorem derive_details_exact:
  assumes "node_pubkey L n = Some k" and "convert_pubkey L k = Inr s" and "id_from_public_key L s = Inr pid"
    and "\<And>v t p. v \<in> {''ip4'', ''ip6''} \<Longrightarrow> t \<in> {''udp'', ''tcp''} \<Longrightarrow> 0 < p \<Longrightarrow>
           new_multiaddr L (''/'' @ v @ ''/'' @ show_ip (node_ip L n) @ ''/'' @ t @ ''/'' @ dec_of_nat p) =
             Inr (''/'' @ v @ ''/'' @ show_ip (node_ip L n) @ ''/'' @ t @ ''/'' @ dec_of_nat p)"
  shows "derive_details_from_node L show_ip (Some n) =
    (if length (node_ip L n) \<noteq> 4 \<and> length (node_ip L n) \<noteq> 16 then Inl ''no IP address found in ENR''
     else
       let v = (if length (node_ip L n) = 4 \<or> take 12 (node_ip L n) = v4_in_v6_prefix then ''ip4'' else ''ip6'');
           addr = (\<lambda>t p. ''/'' @ v @ ''/'' @ show_ip (node_ip L n) @ ''/'' @ t @ ''/'' @ dec_of_nat p) in
       Inr \<lparr>cp_id = pid,
         cp_addrs = (if node_udp L n = 0 then [] else [addr ''udp'' (node_udp L n)]) @
                    (if node_tcp L n = 0 then [] else [addr ''tcp'' (node_tcp L n)]),
         cp_enode = n\<rparr>)"
proof -
  have t: "transport_addr L show_ip v t (node_ip L n) p =
      Inr (if p = 0 then [] else [''/'' @ v @ ''/'' @ show_ip (node_ip L n) @ ''/'' @ t @ ''/'' @ dec_of_nat p])"
    if "v = ''ip4'' \<or> v = ''ip6''" and "t = ''udp'' \<or> t = ''tcp''" for v t p
    using that assms(4) [of v t p] by (simp add: transport_addr_def)
  have v: "ip_version (node_ip L n) =
      (if length (node_ip L n) \<noteq> 4 \<and> length (node_ip L n) \<noteq> 16 then None
       else Some (if length (node_ip L n) = 4 \<or> take 12 (node_ip L n) = v4_in_v6_prefix then ''ip4'' else ''ip6''))"
    by (auto simp: ip_version_def ip_to4_def ip_to16_def v4_in_v6_prefix_def)
  show ?thesis
    by (simp add: derive_details_from_node_def assms(1-3) derive_addrs_def v t Let_def)
qed

section \<open>Manual discovery\<close>

text \<open>A handler is a name; adding a node calls the handler that was set last.\<close>

record 'h manual =
  m_handler :: "'h option"

definition manual_start :: "'h manual \<Rightarrow> (string + unit) \<times> 'h manual" where
  "manual_start m = (Inr (), m)"

definition manual_stop :: "'h manual \<Rightarrow> (string + unit) \<times> 'h manual" where
  "manual_stop m = (Inr (), m)"

definition manual_on_node_record :: "'h \<Rightarrow> 'h manual \<Rightarrow> 'h manual" where
  "manual_on_node_record h m = m\<lparr>m_handler := Some h\<rparr>"

definition manual_add_node :: "('n option \<Rightarrow> ('s, string, unit) act) manual \<Rightarrow> 'n option \<Rightarrow> ('s, string, unit) act" where
  "manual_add_node m node =
     (case m_handler m of None \<Rightarrow> act_fail ''no handler set'' | Some h \<Rightarrow> h node)"

lemma manual_add_node_set: "manual_add_node (manual_on_node_record h m) node = h node"
  by (simp add: manual_add_node_def manual_on_node_record_def)

definition demo_nodes :: "(nat, nat) node_lib" where
  "demo_nodes = \<lparr>node_pubkey = Some, convert_pubkey = Inr, id_from_public_key = (\<lambda>k. Inr (dec_of_nat k)),
     node_ip = (\<lambda>_. [10, 0, 0, 1]), node_udp = (\<lambda>_. 0), node_tcp = (\<lambda>_. 9), new_multiaddr = Inr,
     load_eth2 = (\<lambda>_. Inr [1, 2, 3, 4]), unmarshal_fork_id = (\<lambda>b. Inr (take 4 b))\<rparr>"

lemma derive_details_exact_witness:
  "derive_details_from_node demo_nodes (\<lambda>_. ''10.0.0.1'') (Some 5) =
     Inr \<lparr>cp_id = dec_of_nat 5, cp_addrs = [''/ip4/10.0.0.1/tcp/'' @ dec_of_nat 9], cp_enode = 5\<rparr>"
  using derive_details_exact [of demo_nodes 5 5 5 "dec_of_nat 5" "\<lambda>_. ''10.0.0.1''"]
  by (simp add: demo_nodes_def Let_def)

end
