(* ===== verification/EthMessages.thy ===== *)
theory EthMessages
  imports Prelude
begin

text \<open>
  The versioned consensus messages of \<open>pkg/consensus/mimicry/p2p/eth\<close>: \<open>status.go\<close>,
  \<open>metadata.go\<close>, \<open>goodbye.go\<close> and the protocol ids of \<open>topic.go\<close>. The SSZ library (ztyp) is a
  parameter \<open>ssz_lib\<close>: what \<open>FixedLenContainer\<close> writes for the values of the fields, reads for
  their types, and what its hash function makes of them. \<open>common.Status\<close> and \<open>common.MetaData\<close>
  are the library's structs.
\<close>

section \<open>Fields of SSZ containers\<close>

datatype ssz_field =
    ForkDigestField bytes | RootField bytes | EpochField u64 | SlotField u64 | SeqNrField u64
  | AttnetField bytes | SyncnetField bytes | CustodyField u64

datatype ssz_kind = ForkDigestKind | RootKind | EpochKind | SlotKind | SeqNrKind | AttnetKind | SyncnetKind | CustodyKind

fun kind_of :: "ssz_field \<Rightarrow> ssz_kind" where
  "kind_of (ForkDigestField _) = ForkDigestKind"
| "kind_of (RootField _) = RootKind"
| "kind_of (EpochField _) = EpochKind"
| "kind_of (SlotField _) = SlotKind"
| "kind_of (SeqNrField _) = SeqNrKind"
| "kind_of (AttnetField _) = AttnetKind"
| "kind_of (SyncnetField _) = SyncnetKind"
| "kind_of (CustodyField _) = CustodyKind"

text \<open>The fixed length of the type of a field; its value has that length.\<close>

fun kind_length :: "ssz_kind \<Rightarrow> nat" where
  "kind_length ForkDigestKind = 4"
| "kind_length RootKind = 32"
| "kind_length AttnetKind = 8"
| "kind_length SyncnetKind = 1"
| "kind_length _ = 8"

fun field_ok :: "ssz_field \<Rightarrow> bool" where
  "field_ok (ForkDigestField b) = (length b = 4)"
| "field_ok (RootField b) = (length b = 32)"
| "field_ok (AttnetField b) = (length b = 8)"
| "field_ok (SyncnetField b) = (length b = 1)"
| "field_ok _ = True"

record ssz_lib =
  ssz_write :: "ssz_field list \<Rightarrow> bytes"
  ssz_read :: "ssz_kind list \<Rightarrow> bytes \<Rightarrow> string + ssz_field list"
  ssz_root :: "ssz_field list \<Rightarrow> bytes"

text \<open>
  What the library documents: a container of fixed-length fields is written in as many bytes as
  its fields' types have, and reading the types of its fields gives the fields back.
\<close>

definition lawful_ssz :: "ssz_lib \<Rightarrow> bool" where
  "lawful_ssz L \<longleftrightarrow>
     (\<forall>fs. list_all field_ok fs \<longrightarrow>
        ssz_read L (map kind_of fs) (ssz_write L fs) = Inr fs \<and>
        length (ssz_write L fs) = sum_list (map (kind_length \<circ> kind_of) fs))"

section \<open>Status\<close>

record status_v1 =
  sv_fork_digest :: bytes
  sv_finalized_root :: bytes
  sv_finalized_epoch :: u64
  sv_head_root :: bytes
  sv_head_slot :: u64

record status_v2 =
  s2_fork_digest :: bytes
  s2_finalized_root :: bytes
  s2_finalized_epoch :: u64
  s2_head_root :: bytes
  s2_head_slot :: u64
  s2_earliest_available_slot :: u64

text \<open>The Go types are arrays of fixed length.\<close>

definition status_v1_ok :: "status_v1 \<Rightarrow> bool" where
  "status_v1_ok s \<longleftrightarrow> length (sv_fork_digest s) = 4 \<and> length (sv_finalized_root s) = 32 \<and> length (sv_head_root s) = 32"

definition status_v2_ok :: "status_v2 \<Rightarrow> bool" where
  "status_v2_ok s \<longleftrightarrow> length (s2_fork_digest s) = 4 \<and> length (s2_finalized_root s) = 32 \<and> length (s2_head_root s) = 32"

definition StatusV2ByteLen :: nat where
  "StatusV2ByteLen = 4 + 32 + 8 + 32 + 8 + 8"

definition status_v2_deserialize :: "ssz_lib \<Rightarrow> bytes \<Rightarrow> string + status_v2" where
  "status_v2_deserialize L d =
     (case ssz_read L [ForkDigestKind, RootKind, EpochKind, RootKind, SlotKind, SlotKind] d of
        Inl e \<Rightarrow> Inl e
      | Inr [ForkDigestField fork_digest, RootField finalized_root, EpochField finalized_epoch,
             RootField head_root, SlotField head_slot, SlotField earliest] \<Rightarrow>
          Inr \<lparr>s2_fork_digest = fork_digest, s2_finalized_root = finalized_root,
            s2_finalized_epoch = finalized_epoch, s2_head_root = head_root, s2_head_slot = head_slot,
            s2_earliest_available_slot = earliest\<rparr>
      | Inr _ \<Rightarrow> Inl ''wrong fields'')"

definition status_v2_serialize :: "ssz_lib \<Rightarrow> status_v2 \<Rightarrow> bytes" where
  "status_v2_serialize L s =
     ssz_write L [ForkDigestField (s2_fork_digest s), RootField (s2_finalized_root s), EpochField (s2_finalized_epoch s),
       RootField (s2_head_root s), SlotField (s2_head_slot s), SlotField (s2_earliest_available_slot s)]"

definition status_v2_byte_length :: "status_v2 \<Rightarrow> nat" where
  "status_v2_byte_length s = StatusV2ByteLen"

definition status_v2_fixed_length :: nat where
  "status_v2_fixed_length = StatusV2ByteLen"

definition status_v2_hash_tree_root :: "ssz_lib \<Rightarrow> status_v2 \<Rightarrow> bytes" where
  "status_v2_hash_tree_root L s =
     ssz_root L [ForkDigestField (s2_fork_digest s), RootField (s2_finalized_root s), EpochField (s2_finalized_epoch s),
       RootField (s2_head_root s), SlotField (s2_head_slot s), SlotField (s2_earliest_available_slot s)]"

definition status_to_v1 :: "status_v2 \<Rightarrow> status_v1" where
  "status_to_v1 s =
     \<lparr>sv_fork_digest = s2_fork_digest s, sv_finalized_root = s2_finalized_root s,
      sv_finalized_epoch = s2_finalized_epoch s, sv_head_root = s2_head_root s, sv_head_slot = s2_head_slot s\<rparr>"

definition status_v2_from_v1 :: "status_v1 \<Rightarrow> status_v2" where
  "status_v2_from_v1 s =
     \<lparr>s2_fork_digest = sv_fork_digest s, s2_finalized_root = sv_finalized_root s,
      s2_finalized_epoch = sv_finalized_epoch s, s2_head_root = sv_head_root s, s2_head_slot = sv_head_slot s,
      s2_earliest_available_slot = 0\<rparr>"

section \<open>Metadata\<close>

record metadata_v2 =
  mv_seq_number :: u64
  mv_attnets :: bytes
  mv_syncnets :: bytes

record metadata_v3 =
  m3_seq_number :: u64
  m3_attnets :: bytes
  m3_syncnets :: bytes
  m3_custody_group_count :: u64

definition metadata_v3_ok :: "metadata_v3 \<Rightarrow> bool" where
  "metadata_v3_ok m \<longleftrightarrow> length (m3_attnets m) = 8 \<and> length (m3_syncnets m) = 1"

definition DefaultCustodyGroupCount :: u64 where "DefaultCustodyGroupCount = 4"

definition custody_byte_length :: nat where "custody_byte_length = 8"

definition MetaDataV3ByteLen :: nat where "MetaDataV3ByteLen = 8 + 8 + 1 + 8"

definition metadata_v3_deserialize :: "ssz_lib \<Rightarrow> bytes \<Rightarrow> string + metadata_v3" where
  "metadata_v3_deserialize L d =
     (case ssz_read L [SeqNrKind, AttnetKind, SyncnetKind, CustodyKind] d of
        Inl e \<Rightarrow> Inl e
      | Inr [SeqNrField seq_number, AttnetField attnets, SyncnetField syncnets, CustodyField custody] \<Rightarrow>
          Inr \<lparr>m3_seq_number = seq_number, m3_attnets = attnets, m3_syncnets = syncnets, m3_custody_group_count = custody\<rparr>
      | Inr _ \<Rightarrow> Inl ''wrong fields'')"

definition metadata_v3_serialize :: "ssz_lib \<Rightarrow> metadata_v3 \<Rightarrow> bytes" where
  "metadata_v3_serialize L m =
     ssz_write L [SeqNrField (m3_seq_number m), AttnetField (m3_attnets m), SyncnetField (m3_syncnets m),
       CustodyField (m3_custody_group_count m)]"

definition metadata_v3_byte_length :: "metadata_v3 \<Rightarrow> nat" where
  "metadata_v3_byte_length m = MetaDataV3ByteLen"

definition metadata_v3_fixed_length :: nat where
  "metadata_v3_fixed_length = MetaDataV3ByteLen"

definition metadata_v3_hash_tree_root :: "ssz_lib \<Rightarrow> metadata_v3 \<Rightarrow> bytes" where
  "metadata_v3_hash_tree_root L m =
     ssz_root L [SeqNrField (m3_seq_number m), AttnetField (m3_attnets m), SyncnetField (m3_syncnets m),
       CustodyField (m3_custody_group_count m)]"

definition metadata_to_v2 :: "metadata_v3 \<Rightarrow> metadata_v2" where
  "metadata_to_v2 m =
     \<lparr>mv_seq_number = m3_seq_number m, mv_attnets = m3_attnets m, mv_syncnets = m3_syncnets m\<rparr>"

definition metadata_v3_from_v2 :: "metadata_v2 \<Rightarrow> metadata_v3" where
  "metadata_v3_from_v2 m =
     \<lparr>m3_seq_number = mv_seq_number m, m3_attnets = mv_attnets m, m3_syncnets = mv_syncnets m,
      m3_custody_group_count = DefaultCustodyGroupCount\<rparr>"

section \<open>Goodbye reasons and protocol ids\<close>

definition GoodbyeReasonClientShutdown :: u8 where "GoodbyeReasonClientShutdown = 0"
definition GoodbyeReasonIrrelevantNetwork :: u8 where "GoodbyeReasonIrrelevantNetwork = 1"
definition GoodbyeReasonFaultError :: u8 where "GoodbyeReasonFaultError = 2"

definition ProtocolVersionV1 :: string where "ProtocolVersionV1 = ''1''"
definition ProtocolVersionV2 :: string where "ProtocolVersionV2 = ''2''"
definition ProtocolVersionV3 :: string where "ProtocolVersionV3 = ''3''"

text \<open>The last argument is the suffix, a constant of prysm.\<close>

definition req_protocol :: "string \<Rightarrow> string \<Rightarrow> string \<Rightarrow> string" where
  "req_protocol name version x = (''/eth2/beacon_chain/req/'' @ name @ ''/'' @ version @ ''/'') @ x"

definition StatusV1ProtocolID :: "string \<Rightarrow> string" where
  "StatusV1ProtocolID = req_protocol ''status'' ProtocolVersionV1"
definition StatusV2ProtocolID :: "string \<Rightarrow> string" where
  "StatusV2ProtocolID = req_protocol ''status'' ProtocolVersionV2"
definition GoodbyeV1ProtocolID :: "string \<Rightarrow> string" where
  "GoodbyeV1ProtocolID = req_protocol ''goodbye'' ProtocolVersionV1"
definition PingV1ProtocolID :: "string \<Rightarrow> string" where
  "PingV1ProtocolID = req_protocol ''ping'' ProtocolVersionV1"
definition MetaDataV1ProtocolID :: "string \<Rightarrow> string" where
  "MetaDataV1ProtocolID = req_protocol ''metadata'' ProtocolVersionV1"
definition MetaDataV2ProtocolID :: "string \<Rightarrow> string" where
  "MetaDataV2ProtocolID = req_protocol ''metadata'' ProtocolVersionV2"
definition MetaDataV3ProtocolID :: "string \<Rightarrow> string" where
  "MetaDataV3ProtocolID = req_protocol ''metadata'' ProtocolVersionV3"
definition BeaconBlocksByRangeV1ProtocolID :: "string \<Rightarrow> string" where
  "BeaconBlocksByRangeV1ProtocolID = req_protocol ''beacon_blocks_by_range'' ProtocolVersionV1"
definition BeaconBlocksByRangeV2ProtocolID :: "string \<Rightarrow> string" where
  "BeaconBlocksByRangeV2ProtocolID = req_protocol ''beacon_blocks_by_range'' ProtocolVersionV2"
definition BeaconBlocksByRootV1ProtocolID :: "string \<Rightarrow> string" where
  "BeaconBlocksByRootV1ProtocolID = req_protocol ''beacon_blocks_by_root'' ProtocolVersionV1"
definition BeaconBlocksByRootV2ProtocolID :: "string \<Rightarrow> string" where
  "BeaconBlocksByRootV2ProtocolID = req_protocol ''beacon_blocks_by_root'' ProtocolVersionV2"
definition BlobSidecarsByRangeV1ProtocolID :: "string \<Rightarrow> string" where
  "BlobSidecarsByRangeV1ProtocolID = req_protocol ''blob_sidecars_by_range'' ProtocolVersionV1"
definition BlobSidecarsByRootV1ProtocolID :: "string \<Rightarrow> string" where
  "BlobSidecarsByRootV1ProtocolID = req_protocol ''blob_sidecars_by_root'' ProtocolVersionV1"

definition req_protocol_ids :: "string \<Rightarrow> string list" where
  "req_protocol_ids x = [StatusV1ProtocolID x, StatusV2ProtocolID x, GoodbyeV1ProtocolID x, PingV1ProtocolID x,
     MetaDataV1ProtocolID x, MetaDataV2ProtocolID x, MetaDataV3ProtocolID x,
     BeaconBlocksByRangeV1ProtocolID x, BeaconBlocksByRangeV2ProtocolID x, BeaconBlocksByRootV1ProtocolID x,
     BeaconBlocksByRootV2ProtocolID x, BlobSidecarsByRangeV1ProtocolID x, BlobSidecarsByRootV1ProtocolID x]"

lemmas protocol_id_defs = StatusV1ProtocolID_def StatusV2ProtocolID_def GoodbyeV1ProtocolID_def PingV1ProtocolID_def
  MetaDataV1ProtocolID_def MetaDataV2ProtocolID_def MetaDataV3ProtocolID_def BeaconBlocksByRangeV1ProtocolID_def
  BeaconBlocksByRangeV2ProtocolID_def BeaconBlocksByRootV1ProtocolID_def BeaconBlocksByRootV2ProtocolID_def
  BlobSidecarsByRangeV1ProtocolID_def BlobSidecarsByRootV1ProtocolID_def
  ProtocolVersionV1_def ProtocolVersionV2_def ProtocolVersionV3_def

lemma req_protocol_eq:
  "req_protocol n v x = req_protocol n' v' x \<longleftrightarrow> n @ ''/'' @ v = n' @ ''/'' @ v'"
  by (simp add: req_protocol_def)

lemma req_protocol_ids_distinct: "distinct (req_protocol_ids x)"
  by (simp add: req_protocol_ids_def protocol_id_defs req_protocol_eq)

section \<open>Round trips\<close>

lemma status_v2_wire:
  assumes "lawful_ssz L" and "status_v2_ok s"
  shows "status_v2_deserialize L (status_v2_serialize L s) = Inr s" and "length (status_v2_serialize L s) = StatusV2ByteLen"
proof -
  let ?fs = "[ForkDigestField (s2_fork_digest s), RootField (s2_finalized_root s), EpochField (s2_finalized_epoch s),
    RootField (s2_head_root s), SlotField (s2_head_slot s), SlotField (s2_earliest_available_slot s)]"
  have "list_all field_ok ?fs" using assms(2) by (simp add: status_v2_ok_def)
  with assms(1) have "ssz_read L (map kind_of ?fs) (ssz_write L ?fs) = Inr ?fs"
    and "length (ssz_write L ?fs) = sum_list (map (kind_length \<circ> kind_of) ?fs)"
    unfolding lawful_ssz_def by blast+
  then show "status_v2_deserialize L (status_v2_serialize L s) = Inr s" and "length (status_v2_serialize L s) = StatusV2ByteLen"
    by (simp_all add: status_v2_deserialize_def status_v2_serialize_def StatusV2ByteLen_def)
qed

text \<open>
  C21: a status of the new version survives the wire in exactly 92 bytes, the two versions convert
  into each other without losing what both have, and what the old version cannot say comes
  back as slot 0.
\<close>

theorem status_roundtrip:
  assumes "lawful_ssz L" and "status_v2_ok s"
  shows "status_v2_deserialize L (status_v2_serialize L s) = Inr s \<and>
         length (status_v2_serialize L s) = status_v2_byte_length s \<and> status_v2_byte_length s = 92 \<and>
         status_to_v1 (status_v2_from_v1 v) = v \<and>
         status_v2_from_v1 (status_to_v1 s) = s\<lparr>s2_earliest_available_slot := 0\<rparr>"
  using status_v2_wire [OF assms]
  by (simp add: status_v2_byte_length_def StatusV2ByteLen_def status_to_v1_def status_v2_from_v1_def)

text \<open>
  a metadata message of the new version survives the wire in exactly 25 bytes; the conversions
  keep sequence number and subnets, and a converted old message has the default custody count.
\<close>

theorem metadata_roundtrip:
  assumes "lawful_ssz L" and "metadata_v3_ok m"
  shows "metadata_v3_deserialize L (metadata_v3_serialize L m) = Inr m \<and>
         length (metadata_v3_serialize L m) = metadata_v3_byte_length m \<and> metadata_v3_byte_length m = 25 \<and>
         metadata_to_v2 (metadata_v3_from_v2 v) = v \<and>
         metadata_v3_from_v2 (metadata_to_v2 m) = m\<lparr>m3_custody_group_count := 4\<rparr>"
proof -
  let ?fs = "[SeqNrField (m3_seq_number m), AttnetField (m3_attnets m), SyncnetField (m3_syncnets m),
    CustodyField (m3_custody_group_count m)]"
  have "list_all field_ok ?fs" using assms(2) by (simp add: metadata_v3_ok_def)
  with assms(1) have "ssz_read L (map kind_of ?fs) (ssz_write L ?fs) = Inr ?fs"
    and "length (ssz_write L ?fs) = sum_list (map (kind_length \<circ> kind_of) ?fs)"
    unfolding lawful_ssz_def by blast+
  then show ?thesis
    by (simp add: metadata_v3_deserialize_def metadata_v3_serialize_def metadata_v3_byte_length_def MetaDataV3ByteLen_def
        metadata_to_v2_def metadata_v3_from_v2_def DefaultCustodyGroupCount_def)
qed

section \<open>An SSZ library\<close>

text \<open>Little-endian numbers, fields one after the other.\<close>

fun le_digits :: "nat \<Rightarrow> u64 \<Rightarrow> bytes" where
  "le_digits 0 w = []"
| "le_digits (Suc n) w = ucast w # le_digits n (drop_bit 8 w)"

definition le_bytes :: "u64 \<Rightarrow> bytes" where
  "le_bytes w = le_digits 8 w"

fun of_le_bytes :: "bytes \<Rightarrow> u64" where
  "of_le_bytes [] = 0"
| "of_le_bytes (b # bs) = ucast b OR push_bit 8 (of_le_bytes bs)"

lemma of_le_digits: "of_le_bytes (le_digits n w) = take_bit (8 * n) w"
proof (induction n arbitrary: w)
  case 0
  show ?case by simp
next
  case (Suc n)
  show ?case
    by (rule bit_word_eqI)
      (auto simp: Suc bit_or_iff bit_push_bit_iff bit_ucast_iff bit_take_bit_iff bit_drop_bit_eq)
qed

lemma length_le_digits: "length (le_digits n w) = n"
  by (induction n arbitrary: w) simp_all

fun field_bytes :: "ssz_field \<Rightarrow> bytes" where
  "field_bytes (ForkDigestField b) = b"
| "field_bytes (RootField b) = b"
| "field_bytes (AttnetField b) = b"
| "field_bytes (SyncnetField b) = b"
| "field_bytes (EpochField w) = le_bytes w"
| "field_bytes (SlotField w) = le_bytes w"
| "field_bytes (SeqNrField w) = le_bytes w"
| "field_bytes (CustodyField w) = le_bytes w"

fun make_field :: "ssz_kind \<Rightarrow> bytes \<Rightarrow> ssz_field" where
  "make_field ForkDigestKind b = ForkDigestField b"
| "make_field RootKind b = RootField b"
| "make_field AttnetKind b = AttnetField b"
| "make_field SyncnetKind b = SyncnetField b"
| "make_field EpochKind b = EpochField (of_le_bytes b)"
| "make_field SlotKind b = SlotField (of_le_bytes b)"
| "make_field SeqNrKind b = SeqNrField (of_le_bytes b)"
| "make_field CustodyKind b = CustodyField (of_le_bytes b)"

fun read_fields :: "ssz_kind list \<Rightarrow> bytes \<Rightarrow> string + ssz_field list" where
  "read_fields [] b = (if b = [] then Inr [] else Inl ''trailing bytes'')"
| "read_fields (k # ks) b =
     (if length b < kind_length k then Inl ''unexpected end''
      else map_sum id (Cons (make_field k (take (kind_length k) b))) (read_fields ks (drop (kind_length k) b)))"

definition plain_ssz :: ssz_lib where
  "plain_ssz = \<lparr>ssz_write = (\<lambda>fs. concat (map field_bytes fs)), ssz_read = read_fields, ssz_root = (\<lambda>fs. concat (map field_bytes fs))\<rparr>"

lemma length_le_bytes [simp]: "length (le_bytes w) = 8"
  by (simp add: le_bytes_def length_le_digits)

lemma of_le_bytes_le_bytes [simp]: "of_le_bytes (le_bytes w) = w"
  by (simp add: le_bytes_def of_le_digits take_bit_word_eq_self)

lemma length_field_bytes: "field_ok f \<Longrightarrow> length (field_bytes f) = kind_length (kind_of f)"
  by (cases f) simp_all

lemma make_field_bytes: "make_field (kind_of f) (field_bytes f) = f"
  by (cases f) simp_all

lemma plain_ssz_lawful: "lawful_ssz plain_ssz"
proof -
  have read: "read_fields (map kind_of fs) (concat (map field_bytes fs)) = Inr fs" if "list_all field_ok fs" for fs
    using that by (induction fs) (simp_all add: length_field_bytes [symmetric] make_field_bytes)
  have "length (concat (map field_bytes fs)) = sum_list (map (kind_length \<circ> kind_of) fs)" if "list_all field_ok fs" for fs
    using that by (induction fs) (simp_all add: length_field_bytes)
  with read show ?thesis by (simp add: lawful_ssz_def plain_ssz_def)
qed

lemma status_ok_convert: "status_v1_ok s \<Longrightarrow> status_v2_ok (status_v2_from_v1 s)"
  by (simp add: status_v1_ok_def status_v2_ok_def status_v2_from_v1_def)

lemma status_v1_v2_v1: "status_to_v1 (status_v2_from_v1 s) = s"
  by (simp add: status_to_v1_def status_v2_from_v1_def)

definition demo_status :: status_v2 where
  "demo_status = \<lparr>s2_fork_digest = replicate 4 1, s2_finalized_root = replicate 32 2, s2_finalized_epoch = 3,
     s2_head_root = replicate 32 4, s2_head_slot = 96, s2_earliest_available_slot = 7\<rparr>"

lemma status_roundtrip_witness:
  "status_v2_deserialize plain_ssz (status_v2_serialize plain_ssz demo_status) = Inr demo_status"
  using status_roundtrip [OF plain_ssz_lawful, of demo_status] by (simp add: status_v2_ok_def demo_status_def)

lemma metadata_roundtrip_witness:
  "metadata_v3_from_v2 (metadata_to_v2 \<lparr>m3_seq_number = 1, m3_attnets = replicate 8 0, m3_syncnets = [0], m3_custody_group_count = 128\<rparr>) =
     \<lparr>m3_seq_number = 1, m3_attnets = replicate 8 0, m3_syncnets = [0], m3_custody_group_count = 4\<rparr>"
  using metadata_roundtrip [OF plain_ssz_lawful,
      of "\<lparr>m3_seq_number = 1, m3_attnets = replicate 8 0, m3_syncnets = [0], m3_custody_group_count = 128\<rparr>"]
  by (simp add: metadata_v3_ok_def)

end
