(* ===== verification/Wire.thy ===== *)
theory Wire
  imports Interfaces GoStrings
begin

text \<open>
  The byte level of the request/response protocol (\<open>pkg/consensus/mimicry/p2p/req.go\<close>,
  \<open>resp.go\<close>): a libp2p stream as its two byte queues, and the varint length prefix that
  both write loops and the read loop implement by hand.

  A stream belongs to libp2p. What the code sees of it is the outcome of each call: the
  plan \<open>s_plan\<close> lists the outcomes of the calls still to come (\<open>None\<close> a success, \<open>Some e\<close>
  the error \<open>e\<close>; an empty plan is a stream on which every further call succeeds). The log
  \<open>s_log\<close> records the calls the code makes, in order, so that a theorem can speak about
  what was called and when.
\<close>

section \<open>Streams\<close>

datatype stream_op =
    OpSetReadDeadline | OpSetWriteDeadline | OpRead nat | OpReadAll | OpWrite bytes
  | OpCloseRead | OpCloseWrite | OpClose

record stream =
  s_in :: bytes
  s_out :: bytes
  s_plan :: "string option list"
  s_log :: "stream_op list"

definition stream_call :: "stream_op \<Rightarrow> (stream, string, unit) act" where
  "stream_call op st =
     (let st' = st\<lparr>s_plan := tl (s_plan st), s_log := s_log st @ [op]\<rparr>
      in case s_plan st of Some e # _ \<Rightarrow> (Inl e, st') | _ \<Rightarrow> (Inr (), st'))"

definition stream_write :: "bytes \<Rightarrow> (stream, string, unit) act" where
  "stream_write d = act_bind (stream_call (OpWrite d)) (\<lambda>_ st. (Inr (), st\<lparr>s_out := s_out st @ d\<rparr>))"

text \<open>\<open>io.ReadFull(stream, buf)\<close> with \<open>len(buf) = n\<close>, and \<open>io.ReadAll(stream)\<close>.\<close>

definition read_full :: "nat \<Rightarrow> (stream, string, bytes) act" where
  "read_full n = act_bind (stream_call (OpRead n)) (\<lambda>_ st.
     if n \<le> length (s_in st) then (Inr (take n (s_in st)), st\<lparr>s_in := drop n (s_in st)\<rparr>)
     else (Inl (if s_in st = [] then ''EOF'' else ''unexpected EOF''), st\<lparr>s_in := []\<rparr>))"

definition read_all :: "(stream, string, bytes) act" where
  "read_all = act_bind (stream_call OpReadAll) (\<lambda>_ st. (Inr (s_in st), st\<lparr>s_in := []\<rparr>))"

text \<open>A stream on which no call fails.\<close>

definition smooth :: "stream \<Rightarrow> bool" where
  "smooth st = (\<forall>o1 \<in> set (s_plan st). o1 = None)"

definition call_done :: "stream_op \<Rightarrow> stream \<Rightarrow> stream" where
  "call_done op st = st\<lparr>s_plan := tl (s_plan st), s_log := s_log st @ [op]\<rparr>"

lemma smooth_call_done [simp]: "smooth st \<Longrightarrow> smooth (call_done op st)"
  by (auto simp: smooth_def call_done_def dest: list.set_sel(2) [rotated])
     (metis list.sel(2) list.set_sel(2))

lemma call_done_sel [simp]:
  "s_in (call_done op st) = s_in st" "s_out (call_done op st) = s_out st"
  "s_log (call_done op st) = s_log st @ [op]"
  by (simp_all add: call_done_def)

lemma smooth_update [simp]:
  "smooth (st\<lparr>s_in := i\<rparr>) = smooth st" "smooth (st\<lparr>s_out := w\<rparr>) = smooth st"
  by (simp_all add: smooth_def)

lemma stream_call_smooth: "smooth st \<Longrightarrow> stream_call op st = (Inr (), call_done op st)"
  by (auto simp: stream_call_def smooth_def call_done_def Let_def split: list.splits option.splits)

lemma stream_write_smooth:
  "smooth st \<Longrightarrow> stream_write d st = (Inr (), (call_done (OpWrite d) st)\<lparr>s_out := s_out st @ d\<rparr>)"
  by (simp add: stream_write_def act_bind_Inr [OF stream_call_smooth])

lemma read_full_smooth:
  "smooth st \<Longrightarrow> n \<le> length (s_in st) \<Longrightarrow>
     read_full n st = (Inr (take n (s_in st)), (call_done (OpRead n) st)\<lparr>s_in := drop n (s_in st)\<rparr>)"
  by (simp add: read_full_def act_bind_Inr [OF stream_call_smooth])

lemmas smooth_ops = stream_call_smooth stream_write_smooth read_full_smooth

text \<open>What a call may change: the log grows, the received and the written bytes only move on.\<close>

definition stream_le :: "stream \<Rightarrow> stream \<Rightarrow> bool" where
  "stream_le st st' \<longleftrightarrow> prefix (s_log st) (s_log st') \<and> prefix (s_out st) (s_out st') \<and> suffix (s_in st') (s_in st)"

lemma stream_le_refl [simp, intro]: "stream_le st st"
  by (simp add: stream_le_def)

lemma stream_le_trans [trans]: "stream_le a b \<Longrightarrow> stream_le b c \<Longrightarrow> stream_le a c"
  by (auto simp: stream_le_def intro: prefix_order.trans suffix_order.trans)

lemma stream_call_le: "act_keeps stream_le (stream_call op)"
  by (auto simp: act_keeps_def stream_call_def stream_le_def Let_def split: list.splits option.splits)

lemma transp_stream_le: "transp stream_le"
  by (rule transpI) (rule stream_le_trans)

lemma reflp_stream_le: "reflp stream_le"
  by (rule reflpI) simp

lemma stream_write_le: "act_keeps stream_le (stream_write d)"
  unfolding stream_write_def
  by (rule act_keeps_bind [OF transp_stream_le stream_call_le]) (auto simp: act_keeps_def stream_le_def)

lemma read_full_le: "act_keeps stream_le (read_full n)"
  unfolding read_full_def
  by (rule act_keeps_bind [OF transp_stream_le stream_call_le])
     (auto simp: act_keeps_def stream_le_def suffix_drop)

lemma read_all_le: "act_keeps stream_le read_all"
  unfolding read_all_def
  by (rule act_keeps_bind [OF transp_stream_le stream_call_le]) (auto simp: act_keeps_def stream_le_def)

lemmas stream_keeps = act_keeps_bind [OF transp_stream_le] act_keeps_map_err
  act_keeps_return [OF reflp_stream_le] act_keeps_fail [OF reflp_stream_le]
  stream_call_le stream_write_le read_full_le read_all_le

section \<open>The varint prefix\<close>

text \<open>The loop that fills \<open>varintBuf\<close>.\<close>

function write_uvarint :: "u64 \<Rightarrow> bytes" where
  "write_uvarint n =
     (if n < 0x80 then [ucast n]
      else ucast ((n AND 0x7F) OR 0x80) # write_uvarint (drop_bit 7 n))"
  by pat_completeness auto
termination
proof (relation "measure unat")
  show "wf (measure (unat :: u64 \<Rightarrow> nat))" by simp
next
  fix n :: u64
  assume "\<not> n < 0x80"
  then have "128 \<le> unat n" by (simp add: word_less_nat_alt)
  moreover have "unat (drop_bit 7 n) = unat n div 128"
    by (simp add: drop_bit_eq_div unat_div_distrib)
  ultimately show "(drop_bit 7 n, n) \<in> measure unat" by simp
qed

declare write_uvarint.simps [simp del]

text \<open>
  The reading loop, over the bytes still to come: \<open>shift\<close> and \<open>len\<close> are the loop variables
  \<open>shift\<close> and \<open>length\<close>. It looks at the shift only after a byte with the continuation bit.
\<close>

fun parse_uvarint :: "nat \<Rightarrow> u64 \<Rightarrow> bytes \<Rightarrow> string + (u64 \<times> bytes)" where
  "parse_uvarint shift len [] = Inl ''failed to read varint: EOF''"
| "parse_uvarint shift len (b # bs) =
     (let len' = len OR push_bit shift (ucast (b AND 0x7F)) in
      if b AND 0x80 = 0 then Inr (len', bs)
      else if 64 \<le> shift + 7 then Inl ''varint overflows uint64''
      else parse_uvarint (shift + 7) len' bs)"

text \<open>The same loop on the stream: one byte per \<open>io.ReadFull\<close>.\<close>

function read_uvarint :: "nat \<Rightarrow> u64 \<Rightarrow> (stream, string, u64) act" where
  "read_uvarint shift len =
     act_bind (act_wrap ''failed to read varint'' (read_full 1)) (\<lambda>buf.
       let b = buf ! 0; len' = len OR push_bit shift (ucast (b AND 0x7F)) in
       if b AND 0x80 = 0 then act_return len'
       else if 64 \<le> shift + 7 then act_fail ''varint overflows uint64''
       else read_uvarint (shift + 7) len')"
  by pat_completeness auto
termination
  by (relation "measure (\<lambda>(shift, len). 64 - shift)") auto

declare read_uvarint.simps [simp del]

lemma write_uvarint_small: "n < 0x80 \<Longrightarrow> write_uvarint n = [ucast n]"
  by (simp add: write_uvarint.simps)

lemma write_uvarint_big:
  "\<not> n < 0x80 \<Longrightarrow> write_uvarint n = ucast ((n AND 0x7F) OR 0x80) # write_uvarint (drop_bit 7 n)"
  by (subst write_uvarint.simps) simp

text \<open>Bytes of the prefix: seven payload bits each, the continuation bit on all but the last.\<close>

lemma and_7F: "(x :: 'a::len word) AND 0x7F = take_bit 7 x"
proof -
  have "(0x7F :: 'a word) = mask 7" by (simp add: mask_eq_exp_minus_1)
  then show ?thesis by (simp add: take_bit_eq_mask)
qed
lemma bit_80: "bit (0x80 :: int) i \<longleftrightarrow> i = 7"
  using bit_exp_iff [of 7 i, where 'a = int] by auto

lemma small_take: "(n :: u64) < 0x80 \<Longrightarrow> take_bit 7 n = n"
  by (rule word_unat_eq_iff [THEN iffD2]) (simp add: unsigned_take_bit_eq take_bit_nat_eq_self word_less_nat_alt)

lemma low_bits_byte:
  fixes n :: u64
  shows "(ucast (((ucast ((n AND 0x7F) OR 0x80)) :: u8) AND 0x7F) :: u64) = n AND 0x7F"
    and "((ucast ((n AND 0x7F) OR 0x80)) :: u8) AND 0x80 \<noteq> 0"
proof -
  show "(ucast (((ucast ((n AND 0x7F) OR 0x80)) :: u8) AND 0x7F) :: u64) = n AND 0x7F"
    by (rule bit_word_eqI) (auto simp: bit_simps and_7F bit_80)
  have "bit (((ucast ((n AND 0x7F) OR 0x80)) :: u8) AND 0x80) 7"
    by (simp add: bit_simps bit_80)
  then show "((ucast ((n AND 0x7F) OR 0x80)) :: u8) AND 0x80 \<noteq> 0" by auto
qed

lemma last_byte:
  fixes n :: u64
  assumes "n < 0x80"
  shows "(ucast ((ucast n :: u8) AND 0x7F) :: u64) = n"
    and "(ucast n :: u8) AND 0x80 = 0"
proof -
  from assms have t: "take_bit 7 n = n" by (rule small_take)
  then have b: "bit n i \<Longrightarrow> i < 7" for i by (metis bit_take_bit_iff)
  show "(ucast ((ucast n :: u8) AND 0x7F) :: u64) = n"
    by (rule bit_word_eqI) (auto simp: bit_simps and_7F dest: b)
  show "(ucast n :: u8) AND 0x80 = 0"
    by (rule bit_word_eqI) (auto simp: bit_simps bit_80 dest: b)
qed

lemma split7:
  fixes n :: u64
  shows "(acc OR push_bit shift (n AND 0x7F)) OR push_bit (shift + 7) (drop_bit 7 n) = acc OR push_bit shift n"
proof (rule bit_word_eqI)
  fix i :: nat
  assume "i < LENGTH(64)"
  moreover have "shift + 7 \<le> i \<Longrightarrow> 7 + (i - (shift + 7)) = i - shift" by arith
  moreover have "\<not> shift + 7 \<le> i \<Longrightarrow> shift \<le> i \<Longrightarrow> i - shift < 7" by arith
  ultimately show "bit ((acc OR push_bit shift (n AND 0x7F)) OR push_bit (shift + 7) (drop_bit 7 n)) i
        = bit (acc OR push_bit shift n) i"
    by (cases "shift + 7 \<le> i") (auto simp: bit_simps and_7F)
qed

lemma unat_drop7: "unat (drop_bit 7 (n :: u64)) = unat n div 128"
  by (simp add: drop_bit_eq_div unat_div_distrib)

lemma parse_write_uvarint:
  assumes "shift < 64" and "unat n < 2 ^ (64 - shift)"
  shows "parse_uvarint shift acc (write_uvarint n @ rest) = Inr (acc OR push_bit shift n, rest)"
  using assms
proof (induction n arbitrary: shift acc rule: write_uvarint.induct)
  case (1 n)
  show ?case
  proof (cases "n < 0x80")
    case True
    then show ?thesis by (simp add: write_uvarint_small last_byte Let_def)
  next
    case False
    then have big: "128 \<le> unat n" by (simp add: word_less_nat_alt)
    have "(7::nat) < 64 - shift"
    proof (rule ccontr)
      assume "\<not> (7::nat) < 64 - shift"
      then have "(2::nat) ^ (64 - shift) \<le> 2 ^ 7" by (intro power_increasing) auto
      with big "1.prems"(2) show False by simp
    qed
    then have sh: "shift + 7 < 64" by arith
    then have "64 - shift = 7 + (64 - (shift + 7))" by arith
    then have "(2::nat) ^ (64 - shift) = 2 ^ 7 * 2 ^ (64 - (shift + 7))"
      by (simp only: power_add)
    with "1.prems"(2) have "unat (drop_bit 7 n) < 2 ^ (64 - (shift + 7))"
      by (simp add: unat_drop7 less_mult_imp_div_less mult.commute)
    from "1.IH" [OF False sh this]
    show ?thesis using sh
      by (simp add: write_uvarint_big [OF False] low_bits_byte Let_def split7 [simplified])
  qed
qed

lemma unat_u64_less: "unat (n :: u64) < 2 ^ 64"
  using unsigned_less [of n, where 'a = nat] by simp

interpretation uvarint: prefix_codec write_uvarint "parse_uvarint 0 0"
  by unfold_locales (simp add: parse_write_uvarint unat_u64_less [simplified])

lemma write_uvarint_length:
  assumes "unat n < 2 ^ (7 * k)" and "0 < k"
  shows "0 < length (write_uvarint n) \<and> length (write_uvarint n) \<le> k"
  using assms
proof (induction n arbitrary: k rule: write_uvarint.induct)
  case (1 n)
  show ?case
  proof (cases "n < 0x80")
    case True
    with "1.prems" show ?thesis by (simp add: write_uvarint_small)
  next
    case False
    then have big: "128 \<le> unat n" by (simp add: word_less_nat_alt)
    obtain j where k: "k = Suc j" using "1.prems"(2) by (cases k) auto
    with "1.prems"(1) big have "0 < j" by (cases j) auto
    moreover have "unat (drop_bit 7 n) < 2 ^ (7 * j)"
      using "1.prems"(1) k by (simp add: unat_drop7 power_add less_mult_imp_div_less mult.commute)
    ultimately show ?thesis using "1.IH" [OF False] k by (simp add: write_uvarint_big [OF False])
  qed
qed

text \<open>The number a sequence of varint bytes stands for.\<close>

fun uvarint_value :: "bytes \<Rightarrow> nat" where
  "uvarint_value [] = 0"
| "uvarint_value (b # bs) = unat b mod 128 + 128 * uvarint_value bs"

lemma or_push_bit_add:
  fixes acc x :: u64
  assumes "unat acc < 2 ^ shift"
  shows "acc OR push_bit shift x = acc + push_bit shift x"
proof (rule disjunctive_add_eq_or [symmetric], rule bit_word_eqI)
  fix i
  assume "i < LENGTH(64)"
  have "take_bit shift acc = acc"
    by (rule word_unat_eq_iff [THEN iffD2]) (simp add: unsigned_take_bit_eq take_bit_nat_eq_self assms)
  then have "bit acc i \<Longrightarrow> i < shift" by (metis bit_take_bit_iff)
  then show "bit (acc AND push_bit shift x) i = bit (0 :: u64) i" by (auto simp: bit_simps)
qed

lemma unat_ucast_byte: "unat (ucast (b :: u8) :: u64) = unat b"
proof -
  have "unat b < 2 ^ 64" using unat_byte_less [of b] by simp
  then show ?thesis by (simp add: unsigned_ucast_eq take_bit_nat_eq_self)
qed

lemma unat_low7: "unat (ucast ((b :: u8) AND 0x7F) :: u64) = unat b mod 128"
proof -
  have "unat (b AND 0x7F) = take_bit 7 (unat b)"
    by (simp only: and_7F unsigned_take_bit_eq)
  also have "\<dots> = unat b mod 128" using take_bit_eq_mod [of 7 "unat b"] by simp
  finally show ?thesis by (simp only: unat_ucast_byte)
qed

lemma unat_push_bit: "unat (push_bit s (x :: u64)) = unat x * 2 ^ s mod 2 ^ 64"
proof -
  have "unat (push_bit s x) = take_bit 64 (push_bit s (unat x))"
    using unsigned_push_bit_eq [of s x, where 'a = nat] by simp
  also have "\<dots> = unat x * 2 ^ s mod 2 ^ 64"
    by (rule trans [OF take_bit_eq_mod]) (simp add: push_bit_eq_mult)
  finally show ?thesis .
qed

text \<open>
  What the reading loop computes, on every input: the value of the bytes it consumed, modulo
  \<open>2 ^ 64\<close>. At most ten bytes are consumed.
\<close>

lemma parse_uvarint_value:
  assumes "parse_uvarint shift acc bs = Inr (v, rest)"
    and "unat acc < 2 ^ shift" and "shift \<le> 63"
  shows "\<exists>used. bs = used @ rest \<and> used \<noteq> [] \<and> length used \<le> (70 - shift) div 7 \<and>
           unat v = (unat acc + 2 ^ shift * uvarint_value used) mod 2 ^ 64"
  using assms
proof (induction shift acc bs rule: parse_uvarint.induct)
  case (1 shift len)
  then show ?case by simp
next
  case (2 shift len b bs)
  define len' where "len' = len OR push_bit shift (ucast (b AND 0x7F) :: u64)"
  have low: "unat (ucast (b AND 0x7F) :: u64) = unat b mod 128" by (rule unat_low7)
  have "unat len' = (unat len + 2 ^ shift * (unat b mod 128) mod 2 ^ 64) mod 2 ^ 64"
    by (simp add: len'_def or_push_bit_add [OF "2.prems"(2)] unat_word_ariths unat_push_bit low mult.commute)
  then have len': "unat len' = (unat len + 2 ^ shift * (unat b mod 128)) mod 2 ^ 64"
    by (simp add: mod_add_right_eq)
  show ?case
  proof (cases "b AND 0x80 = 0")
    case True
    with "2.prems"(1) have "v = len'" and "bs = rest" by (auto simp: len'_def Let_def)
    with len' "2.prems"(3) show ?thesis by (intro exI [of _ "[b]"]) auto
  next
    case False
    with "2.prems"(1) have sh: "\<not> 64 \<le> shift + 7"
      and rec: "parse_uvarint (shift + 7) len' bs = Inr (v, rest)"
      by (auto simp: len'_def Let_def split: if_splits)
    have "unat len + 2 ^ shift * (unat b mod 128) < 2 ^ (shift + 7)"
    proof -
      have "2 ^ shift * (unat b mod 128) \<le> 2 ^ shift * (127::nat)"
        by (rule mult_le_mono2) (simp add: less_Suc_eq_le [symmetric])
      moreover have "(2::nat) ^ (shift + 7) = 2 ^ shift * 128" by (simp add: power_add)
      ultimately show ?thesis using "2.prems"(2) by linarith
    qed
    moreover have "(2::nat) ^ (shift + 7) \<le> 2 ^ 64" using sh by (intro power_increasing) auto
    ultimately have exact: "unat len' = unat len + 2 ^ shift * (unat b mod 128)"
      and small: "unat len' < 2 ^ (shift + 7)" using len' by auto
    have "shift + 7 \<le> 63" using sh by arith
    with "2.IH" [of len', OF _ False sh rec small] obtain used where
      "bs = used @ rest" "used \<noteq> []" "length used \<le> (70 - (shift + 7)) div 7"
      "unat v = (unat len' + 2 ^ (shift + 7) * uvarint_value used) mod 2 ^ 64"
      by (auto simp: len'_def)
    moreover have "unat len' + 2 ^ (shift + 7) * uvarint_value used =
        unat len + 2 ^ shift * uvarint_value (b # used)"
      by (simp add: exact power_add algebra_simps)
    moreover have "Suc ((70 - (shift + 7)) div 7) \<le> (70 - shift) div 7" using sh by arith
    ultimately show ?thesis by (intro exI [of _ "b # used"]) auto
  qed
qed

text \<open>The reading loop on a stream is the same loop over the bytes still to come.\<close>

lemma read_uvarint_smooth:
  assumes "smooth st"
  shows "(\<forall>v rest. parse_uvarint shift len (s_in st) = Inr (v, rest) \<longrightarrow>
            (\<exists>st'. read_uvarint shift len st = (Inr v, st') \<and> s_in st' = rest \<and>
                   s_out st' = s_out st \<and> smooth st')) \<and>
         (\<forall>e. parse_uvarint shift len (s_in st) = Inl e \<longrightarrow> (\<exists>st'. read_uvarint shift len st = (Inl e, st')))"
  using assms
proof (induction shift len arbitrary: st rule: read_uvarint.induct)
  case (1 shift len)
  show ?case
  proof (cases "s_in st")
    case Nil
    then have "\<exists>st'. read_full 1 st = (Inl ''EOF'', st')"
      using "1.prems" by (simp add: read_full_def act_bind_Inr [OF stream_call_smooth])
    then obtain st' where "read_full 1 st = (Inl ''EOF'', st')" by blast
    then have "read_uvarint shift len st = (Inl ''failed to read varint: EOF'', st')"
      by (subst read_uvarint.simps) (simp add: act_bind_def act_map_err_def err_wrap_def)
    with Nil show ?thesis by auto
  next
    case (Cons b bs)
    define st1 where "st1 = (call_done (OpRead 1) st)\<lparr>s_in := bs\<rparr>"
    have rd: "read_full 1 st = (Inr [b], st1)"
      using "1.prems" Cons by (simp add: read_full_smooth st1_def)
    have sm: "smooth st1" and ins: "s_in st1 = bs" and out: "s_out st1 = s_out st"
      using "1.prems" by (simp_all add: st1_def)
    define len' where "len' = len OR push_bit shift (ucast (b AND 0x7F) :: u64)"
    have unfold: "read_uvarint shift len st =
       (if b AND 0x80 = 0 then (Inr len', st1)
        else if 64 \<le> shift + 7 then (Inl ''varint overflows uint64'', st1)
        else read_uvarint (shift + 7) len' st1)"
      by (subst read_uvarint.simps) (simp add: act_bind_def act_map_err_def rd [simplified] len'_def Let_def)
    show ?thesis
    proof (cases "b AND 0x80 \<noteq> 0 \<and> \<not> 64 \<le> shift + 7")
      case False
      with unfold Cons sm ins out show ?thesis by (auto simp: Let_def len'_def)
    next
      case True
      note ih = "1.IH" [OF nth_Cons_0 [symmetric] len'_def conjunct1 [OF True] conjunct2 [OF True] sm]
      from True unfold have "read_uvarint shift len st = read_uvarint (shift + 7) len' st1" by simp
      moreover from True Cons have "parse_uvarint shift len (s_in st) = parse_uvarint (shift + 7) len' bs"
        by (simp add: Let_def len'_def)
      ultimately show ?thesis using ih by (simp add: ins out)
    qed
  qed
qed

end
