(* ===== verification/ReqResp.thy ===== *)
theory ReqResp
  imports Wire
begin

text \<open>
  The request/response layer of the consensus client: \<open>pkg/consensus/mimicry/p2p/req.go\<close>,
  \<open>resp.go\<close> and \<open>req_resp.go\<close>. The SSZ network encoder (prysm) and snappy are parameters:
  a \<open>net_encoder\<close> is what \<open>EncodeWithMaxLength\<close> and \<open>DecodeWithMaxLength\<close> do to a stream,
  \<open>snap_enc\<close> and \<open>snap_dec\<close> are \<open>snappy.Encode\<close> and \<open>snappy.Decode\<close>. Deadlines are values
  the stream is given and the code never reads back; only the calls that set them remain.
\<close>

record 'o net_encoder =
  encode_with_max_length :: "'o \<Rightarrow> (stream, string, unit) act"
  decode_with_max_length :: "(stream, string, 'o) act"

section \<open>Request errors\<close>

record request_error =
  rerr_msg :: string
  rerr_type :: string

definition new_request_error :: "string \<Rightarrow> request_error" where
  "new_request_error msg = \<lparr>rerr_msg = msg, rerr_type = msg\<rparr>"

definition request_error_add :: "request_error \<Rightarrow> string \<Rightarrow> request_error" where
  "request_error_add e msg = \<lparr>rerr_msg = rerr_msg e @ '': '' @ msg, rerr_type = rerr_type e\<rparr>"

definition ErrInvalidResponse :: request_error where
  "ErrInvalidResponse = new_request_error ''received invalid response''"

definition ErrFailedToCreateStream :: request_error where
  "ErrFailedToCreateStream = new_request_error ''failed to create stream''"

definition ErrFailedToEncodeRequest :: request_error where
  "ErrFailedToEncodeRequest = new_request_error ''failed to encode request''"

definition ErrFailedToReadResponse :: request_error where
  "ErrFailedToReadResponse = new_request_error ''failed to read response''"

definition ErrFailedToDecodeResponse :: request_error where
  "ErrFailedToDecodeResponse = new_request_error ''failed to decode response''"

definition ErrFailedToCloseWriteStream :: request_error where
  "ErrFailedToCloseWriteStream = new_request_error ''failed to close write stream''"

lemmas request_error_consts = ErrInvalidResponse_def ErrFailedToCreateStream_def
  ErrFailedToEncodeRequest_def ErrFailedToReadResponse_def ErrFailedToDecodeResponse_def
  ErrFailedToCloseWriteStream_def

definition request_error_kinds :: "request_error list" where
  "request_error_kinds = [ErrInvalidResponse, ErrFailedToCreateStream, ErrFailedToEncodeRequest,
     ErrFailedToReadResponse, ErrFailedToDecodeResponse, ErrFailedToCloseWriteStream]"

section \<open>Requests\<close>

definition read_request :: "'o net_encoder \<Rightarrow> (stream, string, 'o) act" where
  "read_request E =
     act_bind (act_wrap ''failed to set read deadline on stream'' (stream_call OpSetReadDeadline)) (\<lambda>_.
     act_bind (act_wrap ''failed to decode request payload'' (decode_with_max_length E)) (\<lambda>payload.
     act_bind (act_wrap ''failed to close read stream'' (stream_call OpCloseRead)) (\<lambda>_.
     act_return payload)))"

definition write_request :: "'o net_encoder \<Rightarrow> 'o \<Rightarrow> (stream, string, unit) act" where
  "write_request E payload =
     act_bind (act_wrap ''failed to set write deadline on stream'' (stream_call OpSetWriteDeadline)) (\<lambda>_.
     act_bind (act_wrap ''failed to encode request payload'' (encode_with_max_length E payload)) (\<lambda>_.
     act_bind (act_wrap ''failed to close write stream'' (stream_call OpCloseWrite)) (\<lambda>_.
     act_return ())))"

text \<open>A payload of \<open>None\<close> is the nil slice: nothing is written.\<close>

definition write_request_bytes :: "(bytes \<Rightarrow> bytes) \<Rightarrow> bytes option \<Rightarrow> (stream, string, unit) act" where
  "write_request_bytes snap_enc payload =
     act_bind (act_wrap ''failed to set write deadline on stream'' (stream_call OpSetWriteDeadline)) (\<lambda>_.
     act_bind
       (case payload of
          None \<Rightarrow> act_return ()
        | Some p \<Rightarrow>
            (let compressed = snap_enc p; varint_buf = write_uvarint (word_of_nat (length compressed)) in
             act_bind (act_wrap ''failed to write varint length'' (stream_write varint_buf)) (\<lambda>_.
             act_wrap ''failed to write compressed request'' (stream_write compressed)))) (\<lambda>_.
     act_bind (act_wrap ''failed to close write stream'' (stream_call OpCloseWrite)) (\<lambda>_.
     act_return ())))"

text \<open>
  The part of \<open>SendRequest\<close> after the stream is open. A request without a payload (metadata)
  closes the write side before it waits for the answer; the other requests close it at the end.
\<close>

definition send_request_answer ::
  "'o net_encoder \<Rightarrow> 'o option \<Rightarrow> (stream, request_error, 'o) act" where
  "send_request_answer E payload =
     act_bind (act_map_err (request_error_add ErrFailedToReadResponse) (read_full 1)) (\<lambda>buf.
     if buf ! 0 \<noteq> 0 then
       act_fail (request_error_add ErrInvalidResponse
         (''received invalid response code: 0x'' @ hex_of_nat (unat (buf ! 0))))
     else
       act_bind (act_map_err (\<lambda>e. request_error_add ErrFailedToDecodeResponse (''failed to decode response: '' @ e))
                  (decode_with_max_length E)) (\<lambda>rsp.
       if payload \<noteq> None then
         act_bind (act_map_err (request_error_add ErrFailedToCloseWriteStream) (stream_call OpCloseWrite)) (\<lambda>_.
         act_return rsp)
       else act_return rsp))"

definition send_request_body ::
  "'o net_encoder \<Rightarrow> 'o option \<Rightarrow> (stream, request_error, 'o) act" where
  "send_request_body E payload =
     act_bind
       (case payload of
          Some p \<Rightarrow> act_map_err (request_error_add ErrFailedToEncodeRequest) (encode_with_max_length E p)
        | None \<Rightarrow> act_map_err (request_error_add ErrFailedToCloseWriteStream) (stream_call OpCloseWrite))
       (\<lambda>_. send_request_answer E payload)"

text \<open>
  \<open>SendRequest\<close>: \<open>opened\<close> is the result of \<open>host.NewStream\<close>. The deferred \<open>Close\<close> runs on every
  path after the stream is open; its error is only logged. The second component is the
  stream when the call returns, if one was opened.
\<close>

definition send_request ::
  "'o net_encoder \<Rightarrow> string + stream \<Rightarrow> 'o option \<Rightarrow> (request_error + 'o) \<times> stream option" where
  "send_request E opened payload =
     (case opened of
        Inl e \<Rightarrow> (Inl (request_error_add ErrFailedToCreateStream e), None)
      | Inr st \<Rightarrow>
          (case send_request_body E payload st of
             (r, st') \<Rightarrow> (r, Some (snd (stream_call OpClose st')))))"

section \<open>Responses\<close>

text \<open>
  The response code: one byte, 0 for success; anything else is an error whose text is the
  rest of the stream.
\<close>

definition read_response_code :: "(stream, string, unit) act" where
  "read_response_code =
     act_bind (act_wrap ''failed to read response code'' (read_full 1)) (\<lambda>code.
     if code ! 0 \<noteq> 0 then
       act_bind (act_wrap (''failed to read error data (code '' @ dec_of_nat (unat (code ! 0)) @ '')'') read_all) (\<lambda>err_data.
       act_fail (''got error response ('' @ dec_of_nat (unat (code ! 0)) @ ''): '' @ str_of_bytes err_data))
     else act_return ())"

definition read_response :: "'o net_encoder \<Rightarrow> (stream, string, 'o) act" where
  "read_response E =
     act_bind (act_wrap ''failed to set read deadline'' (stream_call OpSetReadDeadline)) (\<lambda>_.
     act_bind read_response_code (\<lambda>_.
     act_bind (act_wrap ''failed to decode response payload'' (decode_with_max_length E)) (\<lambda>payload.
     act_bind (act_wrap ''failed to close read stream'' (stream_call OpCloseRead)) (\<lambda>_.
     act_return payload))))"

text \<open>\<open>err_msg\<close> is the handler's error; only whether it is nil reaches the wire.\<close>

definition write_response_code :: "string option \<Rightarrow> (stream, string, unit) act" where
  "write_response_code err_msg =
     (case err_msg of
        Some _ \<Rightarrow> act_wrap ''failed to write error response code'' (stream_write [0x01])
      | None \<Rightarrow> act_wrap ''failed to write success response code'' (stream_write [0x00]))"

definition write_response ::
  "'o net_encoder \<Rightarrow> 'o option \<Rightarrow> string option \<Rightarrow> (stream, string, unit) act" where
  "write_response E payload err_msg =
     act_bind (act_wrap ''failed to set write deadline'' (stream_call OpSetWriteDeadline)) (\<lambda>_.
     act_bind (write_response_code err_msg) (\<lambda>_.
     act_bind
       (case payload of
          Some p \<Rightarrow> act_wrap ''failed to write response'' (encode_with_max_length E p)
        | None \<Rightarrow> act_return ()) (\<lambda>_.
     act_bind (act_wrap ''failed to close writing side of stream'' (stream_call OpCloseWrite)) (\<lambda>_.
     act_return ()))))"

definition max_response_bytes :: nat where
  "max_response_bytes = 10000000"

definition read_response_bytes :: "(bytes \<Rightarrow> string + bytes) \<Rightarrow> (stream, string, bytes) act" where
  "read_response_bytes snap_dec =
     act_bind (act_wrap ''failed to set read deadline'' (stream_call OpSetReadDeadline)) (\<lambda>_.
     act_bind read_response_code (\<lambda>_.
     act_bind (read_uvarint 0 0) (\<lambda>len.
     if len = 0 then act_fail ''zero length response''
     else if max_response_bytes < unat len then
       act_fail (''response too large: '' @ dec_of_nat (unat len) @ '' bytes'')
     else
       act_bind (act_wrap ''failed to read compressed data'' (read_full (unat len))) (\<lambda>compressed.
       act_bind (act_wrap ''failed to decompress snappy data'' (\<lambda>st. (snap_dec compressed, st))) (\<lambda>decompressed.
       act_bind (act_wrap ''failed to close read stream'' (stream_call OpCloseRead)) (\<lambda>_.
       act_return decompressed))))))"

definition write_response_bytes ::
  "(bytes \<Rightarrow> bytes) \<Rightarrow> bytes option \<Rightarrow> string option \<Rightarrow> (stream, string, unit) act" where
  "write_response_bytes snap_enc payload err_msg =
     act_bind (act_wrap ''failed to set write deadline'' (stream_call OpSetWriteDeadline)) (\<lambda>_.
     act_bind (write_response_code err_msg) (\<lambda>_.
     act_bind
       (case payload of
          None \<Rightarrow> act_return ()
        | Some p \<Rightarrow>
            (let compressed = snap_enc p; varint_buf = write_uvarint (word_of_nat (length compressed)) in
             act_bind (act_wrap ''failed to write varint length'' (stream_write varint_buf)) (\<lambda>_.
             act_wrap ''failed to write compressed response'' (stream_write compressed)))) (\<lambda>_.
     act_bind (act_wrap ''failed to close writing side of stream'' (stream_call OpCloseWrite)) (\<lambda>_.
     act_return ()))))"

section \<open>The protocol registry\<close>

text \<open>
  \<open>rr_stream_handlers\<close> lists the calls of \<open>host.SetStreamHandler\<close>: what the libp2p host was
  told to run for which protocol.
\<close>

record 'h req_resp =
  rr_protocols :: "string list"
  rr_stream_handlers :: "(string \<times> 'h) list"

definition new_req_resp :: "'h req_resp" where
  "new_req_resp = \<lparr>rr_protocols = [], rr_stream_handlers = []\<rparr>"

definition supported_protocols :: "'h req_resp \<Rightarrow> string list" where
  "supported_protocols r = rr_protocols r"

definition register_handler :: "string \<Rightarrow> 'h \<Rightarrow> ('h req_resp, string, unit) act" where
  "register_handler proto h =
     (\<lambda>r. if proto \<in> set (rr_protocols r) then (Inl (''protocol already registered: '' @ proto), r)
          else (Inr (), r\<lparr>rr_protocols := rr_protocols r @ [proto],
                          rr_stream_handlers := rr_stream_handlers r @ [(proto, h)]\<rparr>))"

text \<open>The wrapper the host runs for an incoming stream: no deadline, no handler.\<close>

definition handler_wrapper :: "(stream \<Rightarrow> string option \<times> stream) \<Rightarrow> stream \<Rightarrow> stream" where
  "handler_wrapper handler st =
     (case stream_call OpSetReadDeadline st of
        (Inl e, st1) \<Rightarrow> st1
      | (Inr _, st1) \<Rightarrow> snd (handler st1))"

section \<open>What goes over the wire\<close>

text \<open>On a stream without failures the byte writers produce exactly these bytes.\<close>

definition frame :: "(bytes \<Rightarrow> bytes) \<Rightarrow> bytes \<Rightarrow> bytes" where
  "frame snap_enc p = write_uvarint (word_of_nat (length (snap_enc p))) @ snap_enc p"

lemma write_response_code_smooth:
  assumes "smooth st"
  shows "\<exists>st'. write_response_code err st = (Inr (), st') \<and> smooth st' \<and> s_in st' = s_in st \<and>
               s_out st' = s_out st @ [if err = None then 0 else 1]"
  using assms by (cases err) (simp_all add: write_response_code_def act_run stream_write_smooth)

lemma write_frame_smooth:
  assumes "smooth st"
  shows "\<exists>st'. act_bind (act_wrap m1 (stream_write (write_uvarint (word_of_nat (length (snap_enc p))))))
                 (\<lambda>_. act_wrap m2 (stream_write (snap_enc p))) st = (Inr (), st') \<and>
               smooth st' \<and> s_in st' = s_in st \<and> s_out st' = s_out st @ frame snap_enc p"
  using assms by (simp add: act_run stream_write_smooth frame_def)

lemma write_response_bytes_smooth:
  assumes "smooth st"
  shows "\<exists>st'. write_response_bytes snap_enc payload err st = (Inr (), st') \<and> smooth st' \<and>
               s_out st' = s_out st @ [if err = None then 0 else 1] @
                 (case payload of None \<Rightarrow> [] | Some p \<Rightarrow> frame snap_enc p)"
  using assms
  by (cases err; cases payload)
     (simp_all add: write_response_bytes_def write_response_code_def Let_def act_run stream_call_smooth
        stream_write_smooth frame_def)

lemma write_request_bytes_smooth:
  assumes "smooth st"
  shows "\<exists>st'. write_request_bytes snap_enc payload st = (Inr (), st') \<and> smooth st' \<and>
               s_out st' = s_out st @ (case payload of None \<Rightarrow> [] | Some p \<Rightarrow> frame snap_enc p)"
  using assms
  by (cases payload)
     (simp_all add: write_request_bytes_def Let_def act_run stream_call_smooth stream_write_smooth frame_def)

lemma read_byte_smooth:
  "smooth st \<Longrightarrow> s_in st = b # rest \<Longrightarrow> read_full 1 st = (Inr [b], (call_done (OpRead 1) st)\<lparr>s_in := rest\<rparr>)"
  by (simp add: read_full_smooth)

lemma read_all_smooth:
  "smooth st \<Longrightarrow> read_all st = (Inr (s_in st), (call_done OpReadAll st)\<lparr>s_in := []\<rparr>)"
  by (simp add: read_all_def act_run stream_call_smooth)

lemma read_response_code_smooth:
  assumes "smooth st" and "s_in st = b # rest"
  shows "read_response_code st =
     (if b = 0 then (Inr (), (call_done (OpRead 1) st)\<lparr>s_in := rest\<rparr>)
      else (Inl (''got error response ('' @ dec_of_nat (unat b) @ ''): '' @ str_of_bytes rest),
            (call_done OpReadAll ((call_done (OpRead 1) st)\<lparr>s_in := rest\<rparr>))\<lparr>s_in := []\<rparr>))"
  using assms
  by (simp add: read_response_code_def act_run read_byte_smooth [simplified] read_all_smooth)

lemma read_frame_smooth:
  assumes "smooth st" and "s_in st = frame snap_enc p @ rest"
  shows "\<exists>st1 st2. read_uvarint 0 0 st = (Inr (word_of_nat (length (snap_enc p))), st1) \<and>
           read_full (length (snap_enc p)) st1 = (Inr (snap_enc p), st2) \<and> smooth st2 \<and> s_in st2 = rest"
proof -
  have "parse_uvarint 0 0 (s_in st) = Inr (word_of_nat (length (snap_enc p)), snap_enc p @ rest)"
    using assms(2) by (simp add: frame_def uvarint.dec_enc)
  then obtain st1 where r: "read_uvarint 0 0 st = (Inr (word_of_nat (length (snap_enc p))), st1)"
    and i: "s_in st1 = snap_enc p @ rest" and sm: "smooth st1"
    using read_uvarint_smooth [OF assms(1), of 0 0] by auto
  with r show ?thesis by (simp add: read_full_smooth)
qed

lemma frame_length_u64:
  assumes "0 < n" and "n \<le> max_response_bytes"
  shows "unat (word_of_nat n :: u64) = n" and "(word_of_nat n :: u64) \<noteq> 0"
proof -
  show len: "unat (word_of_nat n :: u64) = n"
    using assms(2) by (simp add: max_response_bytes_def unsigned_of_nat take_bit_nat_eq_self)
  show "(word_of_nat n :: u64) \<noteq> 0" using len assms(1) by (metis less_numeral_extra(3) unat_0)
qed

lemma read_response_bytes_frame:
  assumes "smooth st" and "s_in st = 0 # frame snap_enc p @ rest"
    and "snap_dec (snap_enc p) = Inr p"
    and "0 < length (snap_enc p)" and "length (snap_enc p) \<le> max_response_bytes"
  shows "\<exists>st'. read_response_bytes snap_dec st = (Inr p, st') \<and> s_in st' = rest"
proof -
  let ?c1 = "call_done OpSetReadDeadline st"
  let ?c2 = "(call_done (OpRead 1) ?c1)\<lparr>s_in := frame snap_enc p @ rest\<rparr>"
  have c: "read_response_code ?c1 = (Inr (), ?c2)"
    using read_response_code_smooth [of ?c1 0 "frame snap_enc p @ rest"] assms(1,2) by simp
  obtain c3 c4 where v: "read_uvarint 0 0 ?c2 = (Inr (word_of_nat (length (snap_enc p))), c3)"
    and f: "read_full (length (snap_enc p)) c3 = (Inr (snap_enc p), c4)" and "smooth c4" and "s_in c4 = rest"
    using read_frame_smooth [of ?c2 snap_enc p rest] assms(1) by auto
  show ?thesis using assms(1,3-5) \<open>smooth c4\<close> \<open>s_in c4 = rest\<close> frame_length_u64 [OF assms(4,5)] c v f
    by (simp add: read_response_bytes_def act_run stream_call_smooth)
qed

text \<open>
  C1: what a responder writes with \<open>WriteResponseBytes\<close> the requester reads back with
  \<open>ReadResponseBytes\<close>, byte for byte, whenever snappy inverts itself on the payload and the
  compressed payload is not empty and not above the ten megabyte limit.
\<close>

theorem response_bytes_roundtrip:
  assumes "smooth server" and "s_out server = []"
    and "write_response_bytes snap_enc (Some p) None server = (Inr (), server')"
    and "smooth client" and "s_in client = s_out server'"
    and "snap_dec (snap_enc p) = Inr p"
    and "0 < length (snap_enc p)" and "length (snap_enc p) \<le> max_response_bytes"
  shows "fst (read_response_bytes snap_dec client) = Inr p"
proof -
  have "s_out server' = 0 # frame snap_enc p"
    using write_response_bytes_smooth [OF assms(1), of snap_enc "Some p" None] assms(2,3) by simp
  then show ?thesis using read_response_bytes_frame [of client snap_enc p "[]" snap_dec] assms(4-8) by auto
qed


lemma response_bytes_roundtrip_witness:
  "fst (read_response_bytes (\<lambda>c. Inr (tl c)) \<lparr>s_in = [0, 3, 9, 1, 2], s_out = [], s_plan = [], s_log = []\<rparr>) = Inr [1, 2]"
proof -
  let ?w = "\<lparr>s_in = [], s_out = [], s_plan = [], s_log = []\<rparr>"
  let ?enc = "\<lambda>p. (9 :: u8) # p"
  have w: "write_response_bytes ?enc (Some [1, 2]) None ?w = (Inr (), snd (write_response_bytes ?enc (Some [1, 2]) None ?w))"
    by code_simp
  show ?thesis
    by (rule response_bytes_roundtrip [OF _ _ w]) (simp_all add: smooth_def max_response_bytes_def, code_simp)
qed

lemma read_uvarint_parse:
  "read_uvarint shift len st = (Inr v, st') \<Longrightarrow> parse_uvarint shift len (s_in st) = Inr (v, s_in st')"
proof (induction shift len arbitrary: st rule: read_uvarint.induct)
  case (1 shift len)
  from "1.prems" obtain buf st1 where rd: "read_full 1 st = (Inr buf, st1)"
    by (subst (asm) read_uvarint.simps) (auto simp: act_bind_ok_iff act_map_err_ok_iff)
  then obtain b bs where "s_in st = b # bs" and buf: "buf = [b]" and ins: "s_in st1 = bs"
    by (cases "s_in st")
       (auto simp: read_full_def act_bind_ok_iff stream_call_def Let_def split: list.splits option.splits if_splits)
  moreover define len' where "len' = len OR push_bit shift (ucast (b AND 0x7F) :: u64)"
  moreover have "read_uvarint shift len st =
      (if b AND 0x80 = 0 then (Inr len', st1)
       else if 64 \<le> shift + 7 then (Inl ''varint overflows uint64'', st1)
       else read_uvarint (shift + 7) len' st1)"
    by (subst read_uvarint.simps) (simp add: act_bind_def act_map_err_def rd [simplified] buf len'_def Let_def)
  with "1.prems" have step: "(if b AND 0x80 = 0 then (Inr len', st1)
       else if 64 \<le> shift + 7 then (Inl ''varint overflows uint64'', st1)
       else read_uvarint (shift + 7) len' st1) = (Inr v, st')" by (simp only:)
  moreover have "b AND 0x80 \<noteq> 0 \<Longrightarrow> \<not> 64 \<le> shift + 7 \<Longrightarrow> parse_uvarint (shift + 7) len' bs = Inr (v, s_in st')"
    using "1.IH" [OF nth_Cons_0 [symmetric] len'_def _ _] step ins by metis
  ultimately show ?case by (auto simp: Let_def len'_def split: if_splits)
qed

text \<open>
  the hand-written varint loops invert each other on a stream without failures: any
  64-bit length, followed by any bytes, is read back exactly and the following bytes stay.
\<close>

theorem varint_stream_roundtrip:
  assumes "smooth st" and "s_in st = write_uvarint n @ rest"
  shows "\<exists>st'. read_uvarint 0 0 st = (Inr n, st') \<and> s_in st' = rest \<and> smooth st'"
  using read_uvarint_smooth [OF assms(1), of 0 0] assms(2) by (auto simp: uvarint.dec_enc)

lemma varint_stream_roundtrip_witness:
  "\<exists>st'. read_uvarint 0 0 \<lparr>s_in = [0xAC, 0x02, 7], s_out = [], s_plan = [], s_log = []\<rparr> = (Inr 300, st') \<and>
         s_in st' = [7] \<and> smooth st'"
proof -
  have "write_uvarint 300 = [0xAC, 0x02]" by code_simp
  then show ?thesis by (intro varint_stream_roundtrip) (simp_all add: smooth_def)
qed

text \<open>
  C14: on any stream whatsoever, a length the reading loop accepts is the value of the at most
  ten bytes it consumed, modulo \<open>2 ^ 64\<close>; nothing else was consumed.
\<close>

theorem varint_read_value:
  assumes "read_uvarint 0 0 st = (Inr v, st')"
  shows "\<exists>used. s_in st = used @ s_in st' \<and> used \<noteq> [] \<and> length used \<le> 10 \<and>
           unat v = uvarint_value used mod 2 ^ 64"
  using parse_uvarint_value [OF read_uvarint_parse [OF assms]] by simp

lemma varint_read_value_witness:
  "\<exists>used. [0xAC, 0x02, 7] = used @ [7] \<and> used \<noteq> [] \<and> length used \<le> 10 \<and> unat (300 :: u64) = uvarint_value used mod 2 ^ 64"
proof -
  have "read_uvarint 0 0 \<lparr>s_in = [0xAC, 0x02, 7], s_out = [], s_plan = [], s_log = []\<rparr> =
      (Inr 300, \<lparr>s_in = [7], s_out = [], s_plan = [], s_log = [OpRead 1, OpRead 1]\<rparr>)" by code_simp
  from varint_read_value [OF this] show ?thesis by simp
qed

text \<open>
  the loop's guard against lengths above 64 bits has a gap: the tenth byte is only
  checked when it carries the continuation bit, so a prefix whose value is \<open>2 ^ 64\<close> is
  accepted as the length 0 instead of failing with \<open>varint overflows uint64\<close>.
\<close>

theorem varint_overflow_accepted:
  "uvarint_value (replicate 9 0x80 @ [2]) = 2 ^ 64 \<and>
   fst (read_uvarint 0 0 \<lparr>s_in = replicate 9 0x80 @ [2], s_out = [], s_plan = [], s_log = []\<rparr>) = Inr 0"
proof
  have "replicate 9 0x80 = [0x80, 0x80, 0x80, 0x80, 0x80, 0x80, 0x80, 0x80, 0x80 :: u8]" by code_simp
  then show "uvarint_value (replicate 9 0x80 @ [2]) = 2 ^ 64" by simp
  have "parse_uvarint 0 0 (replicate 9 0x80 @ [2]) = Inr (0, [])" by code_simp
  then show "fst (read_uvarint 0 0 \<lparr>s_in = replicate 9 0x80 @ [2], s_out = [], s_plan = [], s_log = []\<rparr>) = Inr 0"
    using read_uvarint_smooth [of "\<lparr>s_in = replicate 9 0x80 @ [2], s_out = [], s_plan = [], s_log = []\<rparr>" 0 0]
    by (auto simp: smooth_def)
qed

text \<open>
  C5: whatever the stream does, \<open>ReadResponseBytes\<close> returns data only if it decompressed a
  frame of at least one and at most ten million bytes: a peer cannot make the client read
  more than that before it is decompressed.
\<close>

theorem read_response_bytes_bounded:
  assumes "read_response_bytes snap_dec st = (Inr out, st')"
  shows "\<exists>frame_data. snap_dec frame_data = Inr out \<and> 0 < length frame_data \<and> length frame_data \<le> max_response_bytes"
proof -
  from assms obtain st1 st2 frame_data and len :: u64 where len: "len \<noteq> 0" "\<not> max_response_bytes < unat len"
    and rd: "read_full (unat len) st1 = (Inr frame_data, st2)" and "snap_dec frame_data = Inr out"
    by (auto simp: read_response_bytes_def act_ok_iff split: if_splits)
  moreover have "length frame_data = unat len"
    using rd by (auto simp: read_full_def act_ok_iff split: if_splits)
  moreover have "0 < unat len" using len(1) by (simp add: unat_gt_0)
  ultimately show ?thesis using len(2) by auto
qed

lemma read_response_bytes_bounded_witness:
  "\<exists>frame_data. (Inr (tl frame_data) :: string + bytes) = Inr [1, 2] \<and> 0 < length frame_data \<and>
     length frame_data \<le> max_response_bytes"
proof -
  let ?st = "\<lparr>s_in = [0, 3, 9, 1, 2], s_out = [], s_plan = [], s_log = []\<rparr>"
  have "frame (\<lambda>p. 9 # p) [1, 2] = [3, 9, 1, 2]" by code_simp
  then obtain st' where "read_response_bytes (\<lambda>c. Inr (tl c)) ?st = (Inr [1, 2], st')"
    using read_response_bytes_frame [of ?st "\<lambda>p. 9 # p" "[1, 2]" "[]" "\<lambda>c. Inr (tl c)"]
    by (auto simp: smooth_def max_response_bytes_def)
  from read_response_bytes_bounded [OF this] show ?thesis .
qed

text \<open>
  a response with a nonzero code is never taken for data: both readers fail, and the
  error carries the code and the rest of the stream as its text.
\<close>

theorem error_response_reported:
  assumes "smooth st" and "s_in st = b # rest" and "b \<noteq> 0"
  shows "fst (read_response_bytes snap_dec st) =
           Inl (''got error response ('' @ dec_of_nat (unat b) @ ''): '' @ str_of_bytes rest) \<and>
         fst (read_response E st) =
           Inl (''got error response ('' @ dec_of_nat (unat b) @ ''): '' @ str_of_bytes rest)"
  using assms
  by (simp add: read_response_bytes_def read_response_def act_run stream_call_smooth read_response_code_smooth)


lemma error_response_reported_witness:
  "fst (read_response_bytes Inr \<lparr>s_in = [2, 0x6E, 0x6F], s_out = [], s_plan = [], s_log = []\<rparr>) =
     Inl ''got error response (2): no''"
proof -
  let ?E = "\<lparr>encode_with_max_length = stream_write, decode_with_max_length = read_all\<rparr>"
  have "''got error response ('' @ dec_of_nat (unat (2 :: u8)) @ ''): '' @ str_of_bytes [0x6E, 0x6F] =
      ''got error response (2): no''" by code_simp
  then show ?thesis
    using error_response_reported [of "\<lparr>s_in = [2, 0x6E, 0x6F], s_out = [], s_plan = [], s_log = []\<rparr>" 2 "[0x6E, 0x6F]" Inr ?E]
    by (simp add: smooth_def)
qed

text \<open>How far a request got, by the kind of its error.\<close>

definition request_failure :: "request_error \<Rightarrow> bool" where
  "request_failure err = (\<exists>k \<in> set request_error_kinds. \<exists>detail. err = request_error_add k detail)"

lemma request_failureI [intro!]: "k \<in> set request_error_kinds \<Longrightarrow> request_failure (request_error_add k detail)"
  by (auto simp: request_failure_def)

lemma request_failure_iff:
  "request_failure err \<longleftrightarrow>
     (\<exists>k \<in> set request_error_kinds. rerr_type err = rerr_type k \<and> (\<exists>detail. rerr_msg err = rerr_msg k @ '': '' @ detail))"
  unfolding request_failure_def request_error_add_def
  by (intro bex_cong refl) (cases err; auto)

lemma send_request_answer_error: "send_request_answer E payload st = (Inl err, st') \<Longrightarrow> request_failure err"
  by (auto simp: send_request_answer_def act_fail_iffs request_error_kinds_def split: if_splits)

lemma send_request_body_error: "send_request_body E payload st = (Inl err, st') \<Longrightarrow> request_failure err"
  by (auto simp: send_request_body_def act_fail_iffs request_error_kinds_def
      split: option.splits dest: send_request_answer_error)

text \<open>
  every failure of \<open>SendRequest\<close> is one of the six named kinds: the error keeps the kind as
  its type and starts with the kind's message, followed by what went wrong.
\<close>

theorem send_request_error_kind:
  assumes "fst (send_request E opened payload) = Inl err"
  shows "\<exists>k \<in> set request_error_kinds. rerr_type err = rerr_type k \<and>
           (\<exists>detail. rerr_msg err = rerr_msg k @ '': '' @ detail)"
proof -
  have "request_failure err"
    using assms send_request_body_error [of E payload]
    by (auto simp: send_request_def request_error_kinds_def split: sum.splits prod.splits)
  then show ?thesis by (simp only: request_failure_iff)
qed

lemma send_request_error_kind_witness:
  "\<exists>k \<in> set request_error_kinds. rerr_type (request_error_add ErrFailedToCreateStream ''no route'') = rerr_type k \<and>
     (\<exists>detail. rerr_msg (request_error_add ErrFailedToCreateStream ''no route'') = rerr_msg k @ '': '' @ detail)"
  by (rule send_request_error_kind
      [of "\<lparr>encode_with_max_length = stream_write, decode_with_max_length = read_all\<rparr>" "Inl ''no route''" None])
     (simp add: send_request_def)

definition keeps_stream_le :: "'o net_encoder \<Rightarrow> bool" where
  "keeps_stream_le E \<longleftrightarrow> (\<forall>p. act_keeps stream_le (encode_with_max_length E p)) \<and>
     act_keeps stream_le (decode_with_max_length E)"

lemma send_request_answer_le:
  "keeps_stream_le E \<Longrightarrow> act_keeps stream_le (send_request_answer E payload)"
  unfolding send_request_answer_def keeps_stream_le_def
  by (intro stream_keeps) (auto intro!: stream_keeps)

text \<open>
  a stream that was opened is closed on every path of \<open>SendRequest\<close>, success or failure, and
  closing it is the last thing done to it; a stream that could not be opened is not touched.
\<close>

theorem send_request_closes:
  "case opened of
     Inl e \<Rightarrow> snd (send_request E opened payload) = None
   | Inr st \<Rightarrow> \<exists>st'. snd (send_request E opened payload) = Some st' \<and> s_log st' \<noteq> [] \<and> last (s_log st') = OpClose"
  by (auto simp: send_request_def stream_call_def Let_def split: sum.splits prod.splits list.splits option.splits)

text \<open>
  a request without a payload closes its write side before anything is read, so that the
  responder sees the end of the (empty) request and answers.
\<close>

theorem send_request_closes_write_first:
  assumes "keeps_stream_le E" and "snd (send_request E (Inr st) None) = Some st'"
  shows "prefix (s_log st @ [OpCloseWrite]) (s_log st')"
proof -
  let ?st1 = "snd (stream_call OpCloseWrite st)"
  have log1: "s_log ?st1 = s_log st @ [OpCloseWrite]"
    by (simp add: stream_call_def Let_def split: list.splits option.splits)
  obtain r st2 where body: "send_request_body E None st = (r, st2)" by fastforce
  have "stream_le ?st1 st2"
  proof (cases "stream_call OpCloseWrite st")
    case (Pair r1 st1)
    show ?thesis
    proof (cases r1)
      case (Inl e)
      with body Pair show ?thesis by (auto simp: send_request_body_def act_run)
    next
      case (Inr u)
      have "send_request_answer E None st1 = (r, st2)" using body Pair Inr
        by (simp add: send_request_body_def act_run)
      moreover note send_request_answer_le [OF assms(1), of None]
      ultimately show ?thesis using Pair by (auto dest: act_keepsD)
    qed
  qed
  then have "prefix (s_log st @ [OpCloseWrite]) (s_log st2)" by (simp add: stream_le_def log1)
  moreover have "stream_le st2 st'"
  proof -
    have "st' = snd (stream_call OpClose st2)" using assms(2) body by (simp add: send_request_def)
    then show ?thesis using stream_call_le [of OpClose] by (simp add: act_keeps_def)
  qed
  ultimately show ?thesis by (auto simp: stream_le_def intro: prefix_order.trans)
qed

lemma send_request_closes_write_first_witness:
  "prefix [OpCloseWrite] (s_log (the (snd (send_request
     \<lparr>encode_with_max_length = stream_write, decode_with_max_length = read_all\<rparr>
     (Inr \<lparr>s_in = [0, 5], s_out = [], s_plan = [], s_log = []\<rparr>) None))))"
proof -
  let ?E = "\<lparr>encode_with_max_length = stream_write, decode_with_max_length = read_all\<rparr>"
  let ?st = "\<lparr>s_in = [0, 5], s_out = [], s_plan = [], s_log = []\<rparr>"
  have le: "keeps_stream_le ?E" by (simp add: keeps_stream_le_def stream_write_le read_all_le)
  have "snd (send_request ?E (Inr ?st) None) = Some (the (snd (send_request ?E (Inr ?st) None)))"
    by (simp add: send_request_def split: prod.splits)
  from send_request_closes_write_first [OF le this] show ?thesis by simp
qed

text \<open>
  A network encoder that writes \<open>enc p\<close> and reads it back in front of anything, for the messages of
  its type (those with \<open>P\<close>: Go's arrays have fixed lengths).
\<close>

definition lawful_encoder :: "('o \<Rightarrow> bool) \<Rightarrow> 'o net_encoder \<Rightarrow> ('o \<Rightarrow> bytes) \<Rightarrow> bool" where
  "lawful_encoder P E enc \<longleftrightarrow>
     (\<forall>p st. P p \<longrightarrow> smooth st \<longrightarrow>
        (\<exists>st'. encode_with_max_length E p st = (Inr (), st') \<and> smooth st' \<and> s_in st' = s_in st \<and>
               s_out st' = s_out st @ enc p)) \<and>
     (\<forall>p st rest. P p \<longrightarrow> smooth st \<longrightarrow> s_in st = enc p @ rest \<longrightarrow>
        (\<exists>st'. decode_with_max_length E st = (Inr p, st') \<and> smooth st' \<and> s_in st' = rest \<and>
               s_out st' = s_out st))"

lemma lawful_encode:
  "lawful_encoder P E enc \<Longrightarrow> P p \<Longrightarrow> smooth st \<Longrightarrow>
     \<exists>st'. encode_with_max_length E p st = (Inr (), st') \<and> smooth st' \<and> s_in st' = s_in st \<and> s_out st' = s_out st @ enc p"
  by (simp add: lawful_encoder_def)

lemma lawful_decode:
  "lawful_encoder P E enc \<Longrightarrow> P p \<Longrightarrow> smooth st \<Longrightarrow> s_in st = enc p @ rest \<Longrightarrow>
     \<exists>st'. decode_with_max_length E st = (Inr p, st') \<and> smooth st' \<and> s_in st' = rest \<and> s_out st' = s_out st"
  unfolding lawful_encoder_def by blast

lemma send_request_lawful:
  assumes "lawful_encoder P E enc" and "P request" and "P answer"
    and "smooth client" and "s_out client = []" and "s_in client = 0 # enc answer"
  shows "\<exists>c'. send_request E (Inr client) (Some request) = (Inr answer, Some c') \<and> s_out c' = enc request"
proof -
  obtain c1 where e: "encode_with_max_length E request client = (Inr (), c1)" and "smooth c1"
    and ins: "s_in c1 = 0 # enc answer" and out: "s_out c1 = enc request"
    using lawful_encode [OF assms(1,2,4)] assms(5,6) by auto
  let ?c2 = "(call_done (OpRead 1) c1)\<lparr>s_in := enc answer\<rparr>"
  have r: "read_full 1 c1 = (Inr [0], ?c2)" using read_byte_smooth [OF \<open>smooth c1\<close> ins] .
  obtain c3 where d: "decode_with_max_length E ?c2 = (Inr answer, c3)" and "smooth c3" and "s_out c3 = enc request"
    using lawful_decode [OF assms(1,3), of ?c2 "[]"] \<open>smooth c1\<close> out by auto
  then show ?thesis
    using e r d by (simp add: send_request_def send_request_body_def send_request_answer_def act_run stream_call_smooth)
qed

lemma read_request_lawful:
  assumes "lawful_encoder P E enc" and "P request" and "smooth st" and "s_in st = enc request @ rest"
  shows "\<exists>st'. read_request E st = (Inr request, st') \<and> smooth st' \<and> s_in st' = rest \<and> s_out st' = s_out st"
proof -
  obtain s2 where "decode_with_max_length E (call_done OpSetReadDeadline st) = (Inr request, s2)" and "smooth s2"
    and "s_in s2 = rest" and "s_out s2 = s_out st"
    using lawful_decode [OF assms(1,2), of "call_done OpSetReadDeadline st" rest] assms(3,4) by auto
  then show ?thesis using assms(3) by (simp add: read_request_def act_run stream_call_smooth)
qed

lemma write_response_lawful:
  assumes "lawful_encoder P E enc" and "P answer" and "smooth st"
  shows "\<exists>st'. write_response E (Some answer) None st = (Inr (), st') \<and> smooth st' \<and> s_out st' = s_out st @ 0 # enc answer"
proof -
  obtain s1 where w: "write_response_code None (call_done OpSetWriteDeadline st) = (Inr (), s1)"
    and "smooth s1" and "s_out s1 = s_out st @ [0]"
    using write_response_code_smooth [of "call_done OpSetWriteDeadline st" None] assms(3) by auto
  moreover obtain s2 where "encode_with_max_length E answer s1 = (Inr (), s2)" and "smooth s2"
    and "s_out s2 = s_out st @ 0 # enc answer"
    using lawful_encode [OF assms(1,2) \<open>smooth s1\<close>] \<open>s_out s1 = s_out st @ [0]\<close> by auto
  ultimately show ?thesis using assms(3) by (simp add: write_response_def act_run stream_call_smooth)
qed

text \<open>
  C2: one whole exchange. A responder that reads the bytes a requester's \<open>SendRequest\<close> wrote gets
  the requester's payload, and the requester gets the payload the responder answers with
  \<open>WriteResponse\<close>, over any network encoder that reads back what it wrote.
\<close>

theorem request_exchange:
  assumes "lawful_encoder P E enc" and "P request" and "P answer" and "smooth client" and "s_out client = []"
    and "s_in client = 0 # enc answer"
    and "smooth server" and "s_in server = enc request" and "s_out server = []"
  shows "(\<exists>c'. send_request E (Inr client) (Some request) = (Inr answer, Some c') \<and> s_out c' = s_in server) \<and>
         fst (read_request E server) = Inr request \<and>
         (\<exists>s'. write_response E (Some answer) None server = (Inr (), s') \<and> s_out s' = s_in client)"
  using send_request_lawful [OF assms(1-6)] read_request_lawful [OF assms(1,2,7), of "[]"]
    write_response_lawful [OF assms(1,3,7)] assms(6,8,9)
  by auto

text \<open>An encoder for single bytes: it writes the byte and reads one byte.\<close>

definition byte_encoder :: "u8 net_encoder" where
  "byte_encoder = \<lparr>encode_with_max_length = (\<lambda>b. stream_write [b]),
     decode_with_max_length = act_bind (read_full 1) (\<lambda>buf. act_return (buf ! 0))\<rparr>"

lemma byte_encoder_lawful: "lawful_encoder (\<lambda>_. True) byte_encoder (\<lambda>b. [b])"
  by (simp add: lawful_encoder_def byte_encoder_def stream_write_smooth act_run read_full_smooth)

lemma request_exchange_witness:
  "\<exists>c'. send_request byte_encoder (Inr \<lparr>s_in = [0, 5], s_out = [], s_plan = [], s_log = []\<rparr>) (Some 7) = (Inr 5, Some c') \<and>
        s_out c' = [7]"
  using request_exchange [OF byte_encoder_lawful TrueI TrueI, of "\<lparr>s_in = [0, 5], s_out = [], s_plan = [], s_log = []\<rparr>" 5
      "\<lparr>s_in = [7], s_out = [], s_plan = [], s_log = []\<rparr>" 7]
  by (simp add: smooth_def)

section \<open>Handlers\<close>

text \<open>
  What an incoming stream of a protocol is served by: the handler given to the host last, if
  the protocol is registered here.
\<close>

definition protocol_handler :: "'h req_resp \<Rightarrow> string \<Rightarrow> 'h option option" where
  "protocol_handler r p =
     (if p \<in> set (rr_protocols r) then Some (map_of (rev (rr_stream_handlers r)) p) else None)"

interpretation rr: register_once register_handler protocol_handler Some "\<lambda>_. True"
  by unfold_locales (auto simp: register_handler_def protocol_handler_def fun_eq_iff map_add_def split: if_splits)

text \<open>
  a protocol has one handler for good: after a successful \<open>RegisterHandler\<close> every further
  registration of the protocol fails and changes nothing, and the protocol is served by the
  handler registered first.
\<close>

theorem register_handler_once:
  assumes "register_handler p h r = (Inr (), r')"
  shows "(\<exists>e. register_handler p h' r' = (Inl e, r')) \<and> protocol_handler r' p = Some (Some h) \<and>
         supported_protocols r' = supported_protocols r @ [p]"
  using rr.register_twice [OF assms] assms
  by (auto simp: supported_protocols_def register_handler_def split: if_splits)

lemma register_handler_once_witness:
  "\<exists>e. register_handler ''/ping'' False \<lparr>rr_protocols = [''/ping''], rr_stream_handlers = [(''/ping'', True)]\<rparr> =
       (Inl e, \<lparr>rr_protocols = [''/ping''], rr_stream_handlers = [(''/ping'', True)]\<rparr>)"
proof -
  have "register_handler ''/ping'' True new_req_resp =
      (Inr (), \<lparr>rr_protocols = [''/ping''], rr_stream_handlers = [(''/ping'', True)]\<rparr>)"
    by (simp add: register_handler_def new_req_resp_def)
  from register_handler_once [OF this, of False] show ?thesis by blast
qed

text \<open>
  an incoming stream whose read deadline cannot be set never reaches its handler; any
  other stream is handled exactly once.
\<close>

theorem handler_wrapper_deadline:
  "handler_wrapper handler st =
     (if is_ok (fst (stream_call OpSetReadDeadline st))
      then snd (handler (snd (stream_call OpSetReadDeadline st)))
      else snd (stream_call OpSetReadDeadline st))"
  by (auto simp: handler_wrapper_def split: prod.splits sum.splits)

end
