(* ===== verification/Crawler.thy ===== *)
theory Crawler
  imports Peers EthMessages ReqResp Interfaces "HOL-Library.Multiset"
begin

text \<open>
  The crawler, \<open>pkg/consensus/mimicry/crawler\<close>: its errors (\<open>error.go\<close>), its state and the
  retry and dial paths of \<open>crawler.go\<close> and \<open>wiring.go\<close>. Peers are named by their ids; the duplicate
  cache is the list of ids it holds (an entry leaves it when its time is over). The channels are
  lists with the capacities the code gives them. Time values are integers.
\<close>

section \<open>Errors\<close>

definition ErrCrawlNetworkMismatchType :: string where "ErrCrawlNetworkMismatchType = ''network_mismatch''"
definition ErrCrawlIdentifyTimeoutType :: string where "ErrCrawlIdentifyTimeoutType = ''identify_timeout''"
definition ErrCrawlTimeoutType :: string where "ErrCrawlTimeoutType = ''timeout''"
definition ErrCrawlProtocolNotSupportedType :: string where "ErrCrawlProtocolNotSupportedType = ''protocol_not_supported''"

record crawl_error =
  ce_msg :: string
  ce_type :: string

definition ErrCrawlTooSoon :: crawl_error where
  "ErrCrawlTooSoon = \<lparr>ce_msg = ''too soon'', ce_type = ''too_soon''\<rparr>"
definition ErrCrawlENRForkDigest :: crawl_error where
  "ErrCrawlENRForkDigest = \<lparr>ce_msg = ''wrong enr fork digest'', ce_type = ErrCrawlNetworkMismatchType\<rparr>"
definition ErrCrawlStatusForkDigest :: crawl_error where
  "ErrCrawlStatusForkDigest = \<lparr>ce_msg = ''wrong fork digest in status message'', ce_type = ErrCrawlNetworkMismatchType\<rparr>"
definition ErrCrawlFailedToRequestStatus :: crawl_error where
  "ErrCrawlFailedToRequestStatus = \<lparr>ce_msg = ''failed to request status'', ce_type = ErrCrawlTimeoutType\<rparr>"
definition ErrCrawlFailedToRequestMetadata :: crawl_error where
  "ErrCrawlFailedToRequestMetadata = \<lparr>ce_msg = ''failed to request metadata'', ce_type = ErrCrawlTimeoutType\<rparr>"
definition ErrCrawlIdentifyTimeout :: crawl_error where
  "ErrCrawlIdentifyTimeout = \<lparr>ce_msg = ''identify protocol timeout'', ce_type = ErrCrawlIdentifyTimeoutType\<rparr>"

lemmas crawl_error_defs = ErrCrawlNetworkMismatchType_def ErrCrawlIdentifyTimeoutType_def ErrCrawlTimeoutType_def
  ErrCrawlProtocolNotSupportedType_def ErrCrawlTooSoon_def ErrCrawlENRForkDigest_def ErrCrawlStatusForkDigest_def
  ErrCrawlFailedToRequestStatus_def ErrCrawlFailedToRequestMetadata_def ErrCrawlIdentifyTimeout_def

definition with_details :: "crawl_error \<Rightarrow> string \<Rightarrow> crawl_error" where
  "with_details e details = \<lparr>ce_msg = ce_msg e @ '': '' @ details, ce_type = ce_type e\<rparr>"

definition new_crawl_error :: "string \<Rightarrow> crawl_error" where
  "new_crawl_error msg = \<lparr>ce_msg = msg, ce_type = msg\<rparr>"

text \<open>An error as \<open>errors.As\<close> and \<open>errors.Is\<close> see it.\<close>

datatype go_error = CrawlErr crawl_error | Canceled | DeadlineExceeded | OtherErr string

definition is_retryable_error :: "go_error option \<Rightarrow> bool" where
  "is_retryable_error err =
     (case err of
        None \<Rightarrow> False
      | Some (CrawlErr e) \<Rightarrow>
          (if ce_type e = ErrCrawlNetworkMismatchType then False
           else if ce_type e = ErrCrawlProtocolNotSupportedType then False
           else True)
      | Some Canceled \<Rightarrow> False
      | Some DeadlineExceeded \<Rightarrow> False
      | Some (OtherErr _) \<Rightarrow> True)"

lemma is_retryable_crawl:
  "is_retryable_error (Some (CrawlErr e)) \<longleftrightarrow>
     ce_type e \<noteq> ErrCrawlNetworkMismatchType \<and> ce_type e \<noteq> ErrCrawlProtocolNotSupportedType"
  by (simp add: is_retryable_error_def)

section \<open>State\<close>

record crawl_config =
  cfg_node :: "bytes option option"
  cfg_namespace :: string
  cfg_beacon :: "string option option"
  cfg_dial_concurrency :: int
  cfg_max_retry_attempts :: int
  cfg_retry_backoff :: int

text \<open>
  \<open>cfg_node\<close> is the host configuration, if any, with its IP address, if any; \<open>cfg_beacon\<close> the
  beacon configuration with the error its own \<open>Validate\<close> returns.
\<close>

definition host_config_validate :: "bytes option \<Rightarrow> string option" where
  "host_config_validate ip = (if ip = None then Some ''ipAddr is required'' else None)"

definition crawl_config_validate :: "crawl_config \<Rightarrow> string option" where
  "crawl_config_validate cfg =
     (if cfg_node cfg = None then Some ''node is required''
      else if cfg_beacon cfg = None then Some ''beacon config is required''
      else if cfg_namespace cfg = '''' then Some ''namespace is required''
      else
        case host_config_validate (the (cfg_node cfg)) of
          Some e \<Rightarrow> Some (err_wrap ''node config is invalid'' e)
        | None \<Rightarrow>
            (case the (cfg_beacon cfg) of
               Some e \<Rightarrow> Some (err_wrap ''beacon config is invalid'' e)
             | None \<Rightarrow>
                 (if cfg_dial_concurrency cfg \<le> 0 then Some ''dial concurrency must be greater than 0'' else None)))"

record 'n retry_info =
  ri_peer :: "'n connectable_peer"
  ri_enr :: 'n
  ri_attempts :: int
  ri_last_attempt :: int
  ri_backoff_delay :: int

record 'n successful_crawl =
  sc_peer_id :: string
  sc_enr :: 'n
  sc_agent_version :: string
  sc_network_id :: nat
  sc_status :: status_v1
  sc_metadata :: metadata_v2
  sc_finalized_epoch_start :: int
  sc_head_slot_start :: int

text \<open>What the crawler emits, and what it does to a connection, in order.\<close>

datatype 'n crawl_event =
    EvFailed string "'n option" crawl_error
  | EvSuccess "'n successful_crawl"
  | EvMetadataReceived string "'n option" metadata_v2
  | EvPeerStatusUpdated string "'n option" status_v1
  | EvRequest string string
  | EvCloseConn string
  | EvClosePeer string

text \<open>
  The fields from \<open>cr_pending\<close> on are the goroutines' own: retries and nodes that passed the
  shutdown check and are not on their channel yet, the entry the retry worker holds, whether
  \<open>Stop\<close> closed the channels, whether a send met a closed channel. \<open>cr_grants\<close> and \<open>cr_sent\<close>
  record the history, newest first: attempts granted to peers and trackings cleared, and the
  retries put on the channel.
\<close>

datatype grant = Granted string int | Cleared string | ClearedAll

record 'n crawler =
  cr_max_retry :: int
  cr_backoff :: int
  cr_status :: status_v1
  cr_metadata :: metadata_v2
  cr_recent :: "string list"
  cr_enrs :: "string \<Rightarrow> 'n option"
  cr_tracker :: "string \<Rightarrow> 'n retry_info option"
  cr_retry_queue :: "'n retry_info list"
  cr_dial_queue :: "'n connectable_peer list"
  cr_shutdown :: bool
  cr_events :: "'n crawl_event list"
  cr_pending :: "(string \<times> 'n retry_info) list"
  cr_offers :: "'n connectable_peer list"
  cr_worker :: "'n retry_info option"
  cr_closed :: bool
  cr_panicked :: bool
  cr_grants :: "grant list"
  cr_sent :: "(string \<times> int) list"

definition retry_queue_capacity :: nat where "retry_queue_capacity = 1000"
definition dial_queue_capacity :: nat where "dial_queue_capacity = 10000"

definition zero_status :: status_v1 where
  "zero_status = \<lparr>sv_fork_digest = replicate 4 0, sv_finalized_root = replicate 32 0, sv_finalized_epoch = 0,
     sv_head_root = replicate 32 0, sv_head_slot = 0\<rparr>"

definition new_crawler :: "crawl_config \<Rightarrow> 'n crawler" where
  "new_crawler cfg =
     \<lparr>cr_max_retry = cfg_max_retry_attempts cfg, cr_backoff = cfg_retry_backoff cfg, cr_status = zero_status,
      cr_metadata = \<lparr>mv_seq_number = 1, mv_attnets = replicate 8 0, mv_syncnets = [0]\<rparr>,
      cr_recent = [], cr_enrs = (\<lambda>_. None), cr_tracker = (\<lambda>_. None), cr_retry_queue = [], cr_dial_queue = [],
      cr_shutdown = False, cr_events = [], cr_pending = [], cr_offers = [], cr_worker = None, cr_closed = False,
      cr_panicked = False, cr_grants = [], cr_sent = []\<rparr>"

definition emit_crawl :: "'n crawl_event \<Rightarrow> 'n crawler \<Rightarrow> 'n crawler" where
  "emit_crawl e c = c\<lparr>cr_events := cr_events c @ [e]\<rparr>"

definition set_status :: "status_v1 \<Rightarrow> 'n crawler \<Rightarrow> 'n crawler" where
  "set_status s c = c\<lparr>cr_status := s\<rparr>"

definition set_enr :: "string \<Rightarrow> 'n option \<Rightarrow> 'n crawler \<Rightarrow> 'n crawler" where
  "set_enr pid n c = c\<lparr>cr_enrs := (cr_enrs c)(pid := n)\<rparr>"

definition get_peer_enr :: "'n crawler \<Rightarrow> string \<Rightarrow> 'n option" where
  "get_peer_enr c pid = cr_enrs c pid"

definition add_recent :: "string \<Rightarrow> 'n crawler \<Rightarrow> 'n crawler" where
  "add_recent pid c = c\<lparr>cr_recent := pid # cr_recent c\<rparr>"

definition clear_tracking :: "string \<Rightarrow> 'n crawler \<Rightarrow> 'n crawler" where
  "clear_tracking pid c = c\<lparr>cr_tracker := (cr_tracker c)(pid := None), cr_grants := Cleared pid # cr_grants c\<rparr>"

definition fail_crawl :: "string \<Rightarrow> crawl_error \<Rightarrow> 'n crawler \<Rightarrow> 'n crawler" where
  "fail_crawl pid err c = emit_crawl (EvFailed pid (get_peer_enr c pid) err) c"

section \<open>Retries\<close>

text \<open>
  \<open>scheduleRetry\<close> up to its shutdown check, in one critical section: the retry it wants to put
  on the channel, if any. \<open>float_mul\<close> is the product of two integers taken through \<open>float64\<close>.
\<close>

definition schedule_begin ::
  "(int \<Rightarrow> int \<Rightarrow> int) \<Rightarrow> int \<Rightarrow> string \<Rightarrow> 'n connectable_peer \<Rightarrow> 'n \<Rightarrow> go_error option \<Rightarrow>
     'n crawler \<Rightarrow> 'n retry_info option \<times> 'n crawler" where
  "schedule_begin float_mul now pid p enr err c =
     (if \<not> is_retryable_error err then (None, c)
      else if cr_max_retry c = 0 then (None, c)
      else
        let ri = (case cr_tracker c pid of
                    Some ri \<Rightarrow> ri
                  | None \<Rightarrow> \<lparr>ri_peer = p, ri_enr = enr, ri_attempts = 0, ri_last_attempt = now, ri_backoff_delay = cr_backoff c\<rparr>) in
        if ri_attempts ri \<ge> cr_max_retry c then (None, clear_tracking pid c)
        else
          let ri' = ri\<lparr>ri_attempts := ri_attempts ri + 1, ri_last_attempt := now,
                       ri_backoff_delay := float_mul (cr_backoff c) (ri_attempts ri + 1)\<rparr>;
              c' = c\<lparr>cr_tracker := (cr_tracker c)(pid \<mapsto> ri'), cr_grants := Granted pid (ri_attempts ri') # cr_grants c\<rparr> in
          if cr_shutdown c' then (None, c') else (Some ri', c'))"

text \<open>The rest: the peer leaves the duplicate cache, the retry goes on the channel unless it is full.\<close>

definition send_retry :: "string \<Rightarrow> 'n retry_info \<Rightarrow> 'n crawler \<Rightarrow> 'n crawler" where
  "send_retry pid ri c =
     (let c' = c\<lparr>cr_recent := removeAll pid (cr_recent c)\<rparr> in
      if cr_closed c' then c'\<lparr>cr_panicked := True\<rparr>
      else if length (cr_retry_queue c') < retry_queue_capacity then
        c'\<lparr>cr_retry_queue := cr_retry_queue c' @ [ri], cr_sent := (pid, ri_attempts ri) # cr_sent c'\<rparr>
      else c')"

definition schedule_retry ::
  "(int \<Rightarrow> int \<Rightarrow> int) \<Rightarrow> int \<Rightarrow> string \<Rightarrow> 'n connectable_peer \<Rightarrow> 'n \<Rightarrow> go_error option \<Rightarrow> 'n crawler \<Rightarrow> 'n crawler" where
  "schedule_retry float_mul now pid p enr err c =
     (case schedule_begin float_mul now pid p enr err c of
        (None, c') \<Rightarrow> c' | (Some ri, c') \<Rightarrow> send_retry pid ri c')"

definition handle_crawl_failure ::
  "('n, 'k) node_lib \<Rightarrow> (bytes \<Rightarrow> string) \<Rightarrow> (int \<Rightarrow> int \<Rightarrow> int) \<Rightarrow> int \<Rightarrow> string \<Rightarrow> crawl_error \<Rightarrow> 'n crawler \<Rightarrow> 'n crawler" where
  "handle_crawl_failure L show_ip float_mul now pid err c =
     (if \<not> is_retryable_error (Some (CrawlErr err)) then fail_crawl pid err c
      else if cr_max_retry c = 0 then fail_crawl pid err c
      else if (case cr_tracker c pid of Some ri \<Rightarrow> ri_attempts ri \<ge> cr_max_retry c | None \<Rightarrow> False) then
        fail_crawl pid err (clear_tracking pid c)
      else
        case get_peer_enr c pid of
          None \<Rightarrow> fail_crawl pid err c
        | Some enr \<Rightarrow>
            (case derive_details_from_node L show_ip (Some enr) of
               Inl _ \<Rightarrow> fail_crawl pid err c
             | Inr p \<Rightarrow> schedule_retry float_mul now pid p enr (Some (CrawlErr err)) c))"

section \<open>Dialling\<close>

text \<open>\<open>hex_show\<close> prints a fork digest as \<open>hex.EncodeToString\<close> and \<open>ForkDigest.String\<close> do.\<close>

definition node_is_on_our_network :: "('n, 'k) node_lib \<Rightarrow> (bytes \<Rightarrow> string) \<Rightarrow> (bytes \<Rightarrow> string) \<Rightarrow> 'n \<Rightarrow> 'n crawler \<Rightarrow> go_error option" where
  "node_is_on_our_network L hex_show digest_show n c =
     (case load_eth2 L n of
        Inl e \<Rightarrow> Some (OtherErr (err_wrap ''failed to load enr fork entry'' e))
      | Inr entry \<Rightarrow>
          (case unmarshal_fork_id L entry of
             Inl e \<Rightarrow> Some (OtherErr (err_wrap ''failed to unmarshal enr fork entry'' e))
           | Inr current \<Rightarrow>
               (if current \<noteq> sv_fork_digest (cr_status c) then
                  Some (CrawlErr (with_details ErrCrawlENRForkDigest
                    (''theirs 0x'' @ hex_show current @ '' != ours '' @ digest_show (sv_fork_digest (cr_status c)))))
                else None)))"

definition go_error_text :: "go_error \<Rightarrow> string" where
  "go_error_text e =
     (case e of CrawlErr e \<Rightarrow> ce_msg e | Canceled \<Rightarrow> ''context canceled''
      | DeadlineExceeded \<Rightarrow> ''context deadline exceeded'' | OtherErr s \<Rightarrow> s)"

text \<open>
  \<open>ConnectToPeer\<close>: \<open>connected\<close> is what the host says of the peer, \<open>connect\<close> and \<open>add_protocols\<close> the
  outcomes of the host's calls.
\<close>

definition connect_to_peer ::
  "('n, 'k) node_lib \<Rightarrow> (bytes \<Rightarrow> string) \<Rightarrow> (bytes \<Rightarrow> string) \<Rightarrow> (bytes \<Rightarrow> string) \<Rightarrow> (int \<Rightarrow> int \<Rightarrow> int) \<Rightarrow> int \<Rightarrow> bool \<Rightarrow>
     string option \<Rightarrow> string option \<Rightarrow> string \<Rightarrow> 'n \<Rightarrow> ('n crawler, string, unit) act" where
  "connect_to_peer L show_ip hex_show digest_show float_mul now connected connect add_protocols pid n = (\<lambda>c.
     case node_is_on_our_network L hex_show digest_show n c of
       Some err \<Rightarrow> (Inr (), handle_crawl_failure L show_ip float_mul now pid (new_crawl_error (go_error_text err)) c)
     | None \<Rightarrow>
         if pid \<in> set (cr_recent c) then (Inr (), handle_crawl_failure L show_ip float_mul now pid ErrCrawlTooSoon c)
         else if connected then (Inl ''already connected to peer'', c)
         else
           (case connect of
              Some e \<Rightarrow> Inl (err_wrap ''failed to connect to peer'' e)
            | None \<Rightarrow>
                (case add_protocols of
                   Some e \<Rightarrow> Inl (err_wrap ''failed to add protocols to peer'' e)
                 | None \<Rightarrow> Inr ()),
            set_enr pid (Some n) c))"

text \<open>
  \<open>handleNewDiscoveryNode\<close> up to its second shutdown check, and the send. The nil test at its top
  guards only the text of a log message, \<open>node.ID()\<close> follows unguarded: a nil node panics.
\<close>

definition new_node_begin ::
  "('n, 'k) node_lib \<Rightarrow> (bytes \<Rightarrow> string) \<Rightarrow> (bytes \<Rightarrow> string) \<Rightarrow> (bytes \<Rightarrow> string) \<Rightarrow> 'n option \<Rightarrow> 'n crawler \<Rightarrow>
     fault + 'n connectable_peer option" where
  "new_node_begin L show_ip hex_show digest_show node c =
     (if cr_shutdown c then Inr None
      else if node = None then Inl (Panic ''invalid memory address or nil pointer dereference'')
      else
        case derive_details_from_node L show_ip node of
          Inl _ \<Rightarrow> Inr None
        | Inr p \<Rightarrow>
            (case node_is_on_our_network L hex_show digest_show (cp_enode p) c of
               Some _ \<Rightarrow> Inr None
             | None \<Rightarrow> if cr_shutdown c then Inr None else Inr (Some p)))"

definition send_dial :: "'n connectable_peer \<Rightarrow> 'n crawler \<Rightarrow> 'n crawler" where
  "send_dial p c =
     (if cr_closed c then c\<lparr>cr_panicked := True\<rparr>
      else if length (cr_dial_queue c) < dial_queue_capacity then c\<lparr>cr_dial_queue := cr_dial_queue c @ [p]\<rparr>
      else c)"

definition handle_new_discovery_node ::
  "('n, 'k) node_lib \<Rightarrow> (bytes \<Rightarrow> string) \<Rightarrow> (bytes \<Rightarrow> string) \<Rightarrow> (bytes \<Rightarrow> string) \<Rightarrow> 'n option \<Rightarrow> ('n crawler, fault, unit) act" where
  "handle_new_discovery_node L show_ip hex_show digest_show node = (\<lambda>c.
     case new_node_begin L show_ip hex_show digest_show node c of
       Inl f \<Rightarrow> (Inl f, c)
     | Inr None \<Rightarrow> (Inr (), c)
     | Inr (Some p) \<Rightarrow> (Inr (), send_dial p c))"

text \<open>\<open>DisconnectFromPeer\<close>: the goodbye's answer is ignored; \<open>close\<close> is the outcome of the host's call.\<close>

definition disconnect_from_peer ::
  "string \<Rightarrow> bool \<Rightarrow> string option \<Rightarrow> string \<Rightarrow> ('n crawler, string, unit) act" where
  "disconnect_from_peer sfx connected close pid = (\<lambda>c.
     if \<not> connected then (Inr (), c)
     else
       (case close of Some e \<Rightarrow> Inl e | None \<Rightarrow> Inr (),
        emit_crawl (EvClosePeer pid) (set_enr pid None (emit_crawl (EvRequest pid (GoodbyeV1ProtocolID sfx)) c))))"

section \<open>Stopping\<close>

text \<open>
  \<open>Stop\<close> in the parts between which other goroutines run: the shutdown mark, the closing of the two
  channels after beacon node, scheduler and discovery were stopped, and the final clean-up.
\<close>

definition mark_shutdown :: "'n crawler \<Rightarrow> 'n crawler" where
  "mark_shutdown c = c\<lparr>cr_shutdown := True\<rparr>"

definition close_channels :: "'n crawler \<Rightarrow> 'n crawler" where
  "close_channels c = c\<lparr>cr_closed := True\<rparr>"

definition clear_all :: "'n crawler \<Rightarrow> 'n crawler" where
  "clear_all c = c\<lparr>cr_enrs := (\<lambda>_. None), cr_tracker := (\<lambda>_. None), cr_grants := ClearedAll # cr_grants c\<rparr>"

section \<open>The outcome of a failed crawl\<close>

definition queued_retry :: "(int \<Rightarrow> int \<Rightarrow> int) \<Rightarrow> int \<Rightarrow> string \<Rightarrow> 'n connectable_peer \<Rightarrow> 'n \<Rightarrow> 'n crawler \<Rightarrow> 'n retry_info" where
  "queued_retry float_mul now pid p enr c =
     (let ri = (case cr_tracker c pid of
                  Some ri \<Rightarrow> ri
                | None \<Rightarrow> \<lparr>ri_peer = p, ri_enr = enr, ri_attempts = 0, ri_last_attempt = now, ri_backoff_delay = cr_backoff c\<rparr>) in
      ri\<lparr>ri_attempts := ri_attempts ri + 1, ri_last_attempt := now, ri_backoff_delay := float_mul (cr_backoff c) (ri_attempts ri + 1)\<rparr>)"

definition attempts_of :: "'n crawler \<Rightarrow> string \<Rightarrow> int" where
  "attempts_of c pid = (case cr_tracker c pid of None \<Rightarrow> 0 | Some ri \<Rightarrow> ri_attempts ri)"

definition may_retry :: "crawl_error \<Rightarrow> string \<Rightarrow> 'n crawler \<Rightarrow> bool" where
  "may_retry err pid c \<longleftrightarrow> is_retryable_error (Some (CrawlErr err)) \<and> attempts_of c pid < cr_max_retry c"

lemma schedule_begin_retry:
  "is_retryable_error err \<Longrightarrow> 0 < cr_max_retry c \<Longrightarrow> attempts_of c pid < cr_max_retry c \<Longrightarrow>
   schedule_begin float_mul now pid p enr err c =
     (if cr_shutdown c then None else Some (queued_retry float_mul now pid p enr c),
      c\<lparr>cr_tracker := (cr_tracker c)(pid \<mapsto> queued_retry float_mul now pid p enr c),
        cr_grants := Granted pid (attempts_of c pid + 1) # cr_grants c\<rparr>)"
  by (auto simp: schedule_begin_def queued_retry_def attempts_of_def Let_def split: option.splits)


definition demo_config :: crawl_config where
  "demo_config = \<lparr>cfg_node = Some (Some [10, 0, 0, 1]), cfg_namespace = ''demo'', cfg_beacon = Some None, cfg_dial_concurrency = 1,
     cfg_max_retry_attempts = 1, cfg_retry_backoff = 10\<rparr>"

definition demo_crawler :: "nat crawler" where
  "demo_crawler = set_enr ''5'' (Some 5) (new_crawler demo_config)"

lemma demo_peer: "derive_details_from_node demo_nodes (\<lambda>_. ''10.0.0.1'') (Some 5) =
     Inr \<lparr>cp_id = dec_of_nat 5, cp_addrs = [''/ip4/10.0.0.1/tcp/'' @ dec_of_nat 9], cp_enode = 5\<rparr>"
  by (simp add: derive_details_from_node_def derive_addrs_def transport_addr_def ip_version_def ip_to4_def demo_nodes_def Let_def)


text \<open>
  a negative limit passes the code's test for 0 and makes every retryable failure vanish: with an
  ENR stored for the peer, nothing is reported and nothing is queued, the peer is only forgotten.
\<close>

theorem negative_limit_silent:
  assumes "cr_max_retry c < 0" and "cr_tracker c pid = None" and "is_retryable_error (Some (CrawlErr err))"
    and "derive_details_from_node L show_ip (cr_enrs c pid) = Inr p"
  shows "handle_crawl_failure L show_ip float_mul now pid err c = clear_tracking pid c"
  using assms
  by (auto simp: handle_crawl_failure_def get_peer_enr_def schedule_retry_def schedule_begin_def Let_def
      derive_details_from_node_def split: option.splits)

lemma negative_limit_silent_witness:
  "cr_events (handle_crawl_failure demo_nodes (\<lambda>_. ''10.0.0.1'') (*) 0 ''5'' ErrCrawlTooSoon
     (demo_crawler\<lparr>cr_max_retry := -1\<rparr>)) = []"
proof -
  let ?c = "demo_crawler\<lparr>cr_max_retry := -1\<rparr>"
  have "cr_max_retry ?c < 0" and "cr_tracker ?c ''5'' = None" and "is_retryable_error (Some (CrawlErr ErrCrawlTooSoon))"
    by (simp_all add: demo_crawler_def demo_config_def new_crawler_def set_enr_def is_retryable_crawl crawl_error_defs)
  moreover have "derive_details_from_node demo_nodes (\<lambda>_. ''10.0.0.1'') (cr_enrs ?c ''5'') =
      Inr \<lparr>cp_id = dec_of_nat 5, cp_addrs = [''/ip4/10.0.0.1/tcp/'' @ dec_of_nat 9], cp_enode = 5\<rparr>"
    by (simp add: demo_crawler_def set_enr_def demo_peer)
  ultimately have "handle_crawl_failure demo_nodes (\<lambda>_. ''10.0.0.1'') (*) 0 ''5'' ErrCrawlTooSoon ?c = clear_tracking ''5'' ?c"
    by (rule negative_limit_silent)
  then show ?thesis by (simp add: clear_tracking_def demo_crawler_def set_enr_def new_crawler_def)
qed

text \<open>
  a peer whose ENR names another network fails in \<open>ConnectToPeer\<close> under an error whose type is its
  text, so that the failure counts as retryable: unlike the same mismatch in a status message it
  is queued for another dial when an ENR of the peer is stored, and reported only when the attempts
  are used up.
\<close>

theorem enr_mismatch_retried:
  assumes "load_eth2 L n = Inr entry" and "unmarshal_fork_id L entry = Inr current"
    and "current \<noteq> sv_fork_digest (cr_status c)"
    and "attempts_of c pid < cr_max_retry c" and "0 < cr_max_retry c" and "\<not> cr_closed c" and "\<not> cr_shutdown c"
    and "length (cr_retry_queue c) < retry_queue_capacity"
    and "derive_details_from_node L show_ip (cr_enrs c pid) = Inr p"
  shows "\<exists>c'. connect_to_peer L show_ip hex_show digest_show float_mul now connected connect add_protocols pid n c = (Inr (), c') \<and>
           cr_retry_queue c' = cr_retry_queue c @ [queued_retry float_mul now pid p (cp_enode p) c] \<and> cr_events c' = cr_events c \<and>
           handle_crawl_failure L show_ip float_mul now pid (with_details ErrCrawlStatusForkDigest details) c =
             fail_crawl pid (with_details ErrCrawlStatusForkDigest details) c"
proof -
  define msg where "msg = ce_msg (with_details ErrCrawlENRForkDigest
    (''theirs 0x'' @ hex_show current @ '' != ours '' @ digest_show (sv_fork_digest (cr_status c))))"
  have net: "node_is_on_our_network L hex_show digest_show n c = Some (CrawlErr (with_details ErrCrawlENRForkDigest
    (''theirs 0x'' @ hex_show current @ '' != ours '' @ digest_show (sv_fork_digest (cr_status c)))))"
    using assms(1-3) by (simp add: node_is_on_our_network_def)
  have retry: "is_retryable_error (Some (CrawlErr (new_crawl_error msg)))"
    by (simp add: is_retryable_crawl new_crawl_error_def msg_def with_details_def crawl_error_defs)
  obtain n' where n': "cr_enrs c pid = Some n'"
    using assms(9) by (cases "cr_enrs c pid") (simp_all add: derive_details_from_node_def)
  with derive_details_Inr [OF assms(9)] have p: "cp_enode p = n'" by simp
  have "\<not> (case cr_tracker c pid of Some ri \<Rightarrow> ri_attempts ri \<ge> cr_max_retry c | None \<Rightarrow> False)"
    using assms(4) by (simp add: attempts_of_def split: option.splits)
  then have "handle_crawl_failure L show_ip float_mul now pid (new_crawl_error msg) c =
      schedule_retry float_mul now pid p n' (Some (CrawlErr (new_crawl_error msg))) c"
    using assms(5,9) n' retry by (simp add: handle_crawl_failure_def get_peer_enr_def)
  then have "connect_to_peer L show_ip hex_show digest_show float_mul now connected connect add_protocols pid n c =
      (Inr (), schedule_retry float_mul now pid p n' (Some (CrawlErr (new_crawl_error msg))) c)"
    by (simp add: connect_to_peer_def net go_error_text_def msg_def)
  moreover have "cr_retry_queue (schedule_retry float_mul now pid p n' (Some (CrawlErr (new_crawl_error msg))) c) =
      cr_retry_queue c @ [queued_retry float_mul now pid p (cp_enode p) c]"
    and "cr_events (schedule_retry float_mul now pid p n' (Some (CrawlErr (new_crawl_error msg))) c) = cr_events c"
    using assms(4-8) retry by (simp_all add: schedule_retry_def schedule_begin_retry send_retry_def Let_def p)
  moreover have "handle_crawl_failure L show_ip float_mul now pid (with_details ErrCrawlStatusForkDigest details) c =
      fail_crawl pid (with_details ErrCrawlStatusForkDigest details) c"
    by (simp add: handle_crawl_failure_def is_retryable_crawl with_details_def crawl_error_defs)
  ultimately show ?thesis by blast
qed

lemma enr_mismatch_retried_witness:
  "\<exists>c'. connect_to_peer demo_nodes (\<lambda>_. ''10.0.0.1'') (\<lambda>_. []) (\<lambda>_. []) (*) 0 False None None ''5'' 5 demo_crawler = (Inr (), c') \<and>
     length (cr_retry_queue c') = 1"
proof -
  have "load_eth2 demo_nodes 5 = Inr [1, 2, 3, 4]" and "unmarshal_fork_id demo_nodes [1, 2, 3, 4] = Inr [1, 2, 3, 4]"
    by (simp_all add: demo_nodes_def)
  moreover have "[1, 2, 3, 4] \<noteq> sv_fork_digest (cr_status demo_crawler)" and "attempts_of demo_crawler ''5'' < cr_max_retry demo_crawler"
    and "0 < cr_max_retry demo_crawler" and "\<not> cr_closed demo_crawler" and "\<not> cr_shutdown demo_crawler"
    and "length (cr_retry_queue demo_crawler) < retry_queue_capacity"
    by (simp_all add: demo_crawler_def demo_config_def new_crawler_def set_enr_def attempts_of_def zero_status_def numeral_eq_Suc
        retry_queue_capacity_def)
  moreover have "derive_details_from_node demo_nodes (\<lambda>_. ''10.0.0.1'') (cr_enrs demo_crawler ''5'') =
      Inr \<lparr>cp_id = dec_of_nat 5, cp_addrs = [''/ip4/10.0.0.1/tcp/'' @ dec_of_nat 9], cp_enode = 5\<rparr>"
    by (simp add: demo_crawler_def set_enr_def demo_peer)
  ultimately obtain c' where
    "connect_to_peer demo_nodes (\<lambda>_. ''10.0.0.1'') (\<lambda>_. []) (\<lambda>_. []) (*) 0 False None None ''5'' 5 demo_crawler = (Inr (), c')"
    and q: "cr_retry_queue c' = cr_retry_queue demo_crawler @ [queued_retry (*) 0 ''5'' \<lparr>cp_id = dec_of_nat 5, cp_addrs = [''/ip4/10.0.0.1/tcp/'' @ dec_of_nat 9], cp_enode = 5\<rparr> 5 demo_crawler]"
    using enr_mismatch_retried [of demo_nodes 5 "[1, 2, 3, 4]" "[1, 2, 3, 4]" demo_crawler "''5''" "\<lambda>_. ''10.0.0.1''"] by fastforce
  moreover from q have "length (cr_retry_queue c') = 1"
    by (simp add: demo_crawler_def set_enr_def new_crawler_def)
  ultimately show ?thesis by blast
qed

end
