(* ===== verification/CrawlerRuns.thy ===== *)
theory CrawlerRuns
  imports Crawler
begin

text \<open>
  The crawler's goroutines interleaved. A step is one critical section or one channel operation;
  a goroutine's earlier tests are not taken to still hold at its later steps, except where the
  state says so, so the runs here include those of the code and the invariants hold for more.
\<close>

section \<open>Steps\<close>

datatype crawler_label =
    LSchedule string | LSend string | LClear string | LEnr string | LRecent string | LExpire string | LStatus
  | LEvent | LOffer | LSendOffer | LTake | LRequeue | LDial | LShutdown | LClose | LClearAll

inductive crawler_step :: "('n, 'k) node_lib \<Rightarrow> (int \<Rightarrow> int \<Rightarrow> int) \<Rightarrow> 'n crawler \<Rightarrow> crawler_label \<Rightarrow> 'n crawler \<Rightarrow> bool"
  for L float_mul where
  step_schedule: "schedule_begin float_mul now pid p enr err c = (Some ri, c') \<Longrightarrow>
     crawler_step L float_mul c (LSchedule pid) (c'\<lparr>cr_pending := (pid, ri) # cr_pending c'\<rparr>)"
| step_no_schedule: "schedule_begin float_mul now pid p enr err c = (None, c') \<Longrightarrow>
     crawler_step L float_mul c (LSchedule pid) c'"
| step_send: "(pid, ri) \<in> set (cr_pending c) \<Longrightarrow>
     crawler_step L float_mul c (LSend pid) (send_retry pid ri (c\<lparr>cr_pending := remove1 (pid, ri) (cr_pending c)\<rparr>))"
| step_clear: "crawler_step L float_mul c (LClear pid) (clear_tracking pid c)"
| step_enr: "crawler_step L float_mul c (LEnr pid) (set_enr pid n c)"
| step_recent: "crawler_step L float_mul c (LRecent pid) (add_recent pid c)"
| step_expire: "crawler_step L float_mul c (LExpire pid) (c\<lparr>cr_recent := removeAll pid (cr_recent c)\<rparr>)"
| step_status: "crawler_step L float_mul c LStatus (set_status s c)"
| step_event: "crawler_step L float_mul c LEvent (emit_crawl e c)"
| step_offer: "new_node_begin L show_ip hex_show digest_show node c = Inr (Some p) \<Longrightarrow>
     crawler_step L float_mul c LOffer (c\<lparr>cr_offers := p # cr_offers c\<rparr>)"
| step_send_offer: "p \<in> set (cr_offers c) \<Longrightarrow>
     crawler_step L float_mul c LSendOffer (send_dial p (c\<lparr>cr_offers := remove1 p (cr_offers c)\<rparr>))"
| step_take: "cr_worker c = None \<Longrightarrow> cr_retry_queue c = ri # q \<Longrightarrow> \<not> cr_shutdown c \<Longrightarrow>
     crawler_step L float_mul c LTake (c\<lparr>cr_worker := Some ri, cr_retry_queue := q\<rparr>)"
| step_requeue: "cr_worker c = Some ri \<Longrightarrow> length (cr_dial_queue c) < dial_queue_capacity \<or> cr_closed c \<Longrightarrow>
     crawler_step L float_mul c LRequeue (send_dial (ri_peer ri) (c\<lparr>cr_worker := None\<rparr>))"
| step_dial: "cr_dial_queue c = p # q \<Longrightarrow> crawler_step L float_mul c LDial (c\<lparr>cr_dial_queue := q\<rparr>)"
| step_shutdown: "crawler_step L float_mul c LShutdown (mark_shutdown c)"
| step_close: "cr_shutdown c \<Longrightarrow> \<not> cr_closed c \<Longrightarrow> crawler_step L float_mul c LClose (close_channels c)"
| step_clear_all: "cr_closed c \<Longrightarrow> crawler_step L float_mul c LClearAll (clear_all c)"

inductive_cases crawler_stepE: "crawler_step L float_mul c l c'"

definition crawler_init :: "crawl_config \<Rightarrow> 'n crawler \<Rightarrow> bool" where
  "crawler_init cfg c \<longleftrightarrow> c = new_crawler cfg"

section \<open>The books on retries\<close>

text \<open>The attempts granted to a peer since its tracking was last cleared, in order.\<close>

fun chain :: "string \<Rightarrow> grant list \<Rightarrow> int list" where
  "chain pid [] = []"
| "chain pid (Granted p n # l) = (if p = pid then chain pid l @ [n] else chain pid l)"
| "chain pid (Cleared p # l) = (if p = pid then [] else chain pid l)"
| "chain pid (ClearedAll # l) = []"

definition granted :: "string \<Rightarrow> grant list \<Rightarrow> int list" where
  "granted pid l = map (\<lambda>g. case g of Granted _ n \<Rightarrow> n | _ \<Rightarrow> 0) (filter (\<lambda>g. case g of Granted p _ \<Rightarrow> p = pid | _ \<Rightarrow> False) l)"

definition clears :: "string \<Rightarrow> grant list \<Rightarrow> nat" where
  "clears pid l = length (filter (\<lambda>g. case g of Cleared p \<Rightarrow> p = pid | ClearedAll \<Rightarrow> True | Granted _ _ \<Rightarrow> False) l)"

lemma granted_simps [simp]:
  "granted pid [] = []"
  "granted pid (Granted p n # l) = (if p = pid then n # granted pid l else granted pid l)"
  "granted pid (Cleared p # l) = granted pid l"
  "granted pid (ClearedAll # l) = granted pid l"
  by (simp_all add: granted_def)

lemma clears_simps [simp]:
  "clears pid [] = 0"
  "clears pid (Granted p n # l) = clears pid l"
  "clears pid (Cleared p # l) = (if p = pid then Suc (clears pid l) else clears pid l)"
  "clears pid (ClearedAll # l) = Suc (clears pid l)"
  by (simp_all add: clears_def)

text \<open>A retry between the tracker and the dial queue: an attempt within the limit with its backoff.\<close>

definition retry_ok :: "int \<Rightarrow> (int \<Rightarrow> int \<Rightarrow> int) \<Rightarrow> 'n crawler \<Rightarrow> 'n retry_info \<Rightarrow> bool" where
  "retry_ok M float_mul c ri \<longleftrightarrow>
     1 \<le> ri_attempts ri \<and> ri_attempts ri \<le> M \<and> ri_backoff_delay ri = float_mul (cr_backoff c) (ri_attempts ri)"

definition sent_by :: "string \<Rightarrow> 'n crawler \<Rightarrow> nat" where
  "sent_by pid c = length (filter (\<lambda>x. fst x = pid) (cr_sent c)) + length (filter (\<lambda>x. fst x = pid) (cr_pending c))"

definition retry_books :: "int \<Rightarrow> (int \<Rightarrow> int \<Rightarrow> int) \<Rightarrow> 'n crawler \<Rightarrow> bool" where
  "retry_books M float_mul c \<longleftrightarrow>
     cr_max_retry c = M \<and>
     (\<forall>pid. chain pid (cr_grants c) = [1..attempts_of c pid]) \<and>
     (\<forall>pid. int (length (granted pid (cr_grants c))) \<le> max 0 M * int (clears pid (cr_grants c)) + attempts_of c pid) \<and>
     (\<forall>pid. sent_by pid c \<le> length (granted pid (cr_grants c)))"

text \<open>The retries on their way from the tracker to the dial queue.\<close>

definition in_flight :: "'n crawler \<Rightarrow> 'n retry_info set" where
  "in_flight c = set (cr_retry_queue c) \<union> snd ` set (cr_pending c) \<union> set_option (cr_worker c)"

definition flight_ok :: "int \<Rightarrow> (int \<Rightarrow> int \<Rightarrow> int) \<Rightarrow> 'n crawler \<Rightarrow> bool" where
  "flight_ok M float_mul c \<longleftrightarrow> ran (cr_tracker c) \<union> in_flight c \<subseteq> Collect (retry_ok M float_mul c)"

definition channels_ok :: "'n crawler \<Rightarrow> bool" where
  "channels_ok c \<longleftrightarrow>
     (cr_panicked c \<longrightarrow> cr_closed c) \<and> (cr_closed c \<longrightarrow> cr_shutdown c) \<and>
     length (cr_retry_queue c) \<le> retry_queue_capacity \<and> length (cr_dial_queue c) \<le> dial_queue_capacity"

definition retries_ok :: "int \<Rightarrow> (int \<Rightarrow> int \<Rightarrow> int) \<Rightarrow> 'n crawler \<Rightarrow> bool" where
  "retries_ok M float_mul c \<longleftrightarrow> flight_ok M float_mul c \<and> channels_ok c"

definition crawler_inv :: "int \<Rightarrow> (int \<Rightarrow> int \<Rightarrow> int) \<Rightarrow> 'n crawler \<Rightarrow> bool" where
  "crawler_inv M float_mul c \<longleftrightarrow> retry_books M float_mul c \<and> retries_ok M float_mul c"

text \<open>Steps that touch neither tracker, grants nor the retries in flight.\<close>

definition same_retries :: "'n crawler \<Rightarrow> 'n crawler \<Rightarrow> bool" where
  "same_retries c c' \<longleftrightarrow>
     cr_max_retry c' = cr_max_retry c \<and> cr_backoff c' = cr_backoff c \<and> cr_tracker c' = cr_tracker c \<and> cr_grants c' = cr_grants c \<and>
     cr_sent c' = cr_sent c \<and> cr_pending c' = cr_pending c"

lemma books_same: "same_retries c c' \<Longrightarrow> retry_books M float_mul c \<Longrightarrow> retry_books M float_mul c'"
  by (simp add: same_retries_def retry_books_def sent_by_def attempts_of_def)

lemma retry_ok_same: "cr_backoff c' = cr_backoff c \<Longrightarrow> retry_ok M float_mul c' = retry_ok M float_mul c"
  by (simp add: retry_ok_def fun_eq_iff)

lemma attempts_range:
  "retries_ok M float_mul c \<Longrightarrow> 0 \<le> attempts_of c pid \<and> attempts_of c pid \<le> max 0 M"
proof (cases "cr_tracker c pid")
  case None
  then show ?thesis by (simp add: attempts_of_def)
next
  case (Some ri)
  moreover assume "retries_ok M float_mul c"
  ultimately have "retry_ok M float_mul c ri" unfolding retries_ok_def flight_ok_def by (auto intro: ranI)
  with Some show ?thesis by (simp add: attempts_of_def retry_ok_def)
qed

lemma upto_snoc: "0 \<le> n \<Longrightarrow> [1..n + 1] = [1..n] @ [n + 1 :: int]"
  by (simp add: upto_rec2)

text \<open>The two ways through \<open>scheduleRetry\<close>: the peer is forgotten, or its next attempt is granted.\<close>

lemma schedule_begin_cases:
  assumes "schedule_begin float_mul now pid p enr err c = (r, c')" and "retries_ok M float_mul c" and "cr_max_retry c = M"
  obtains "r = None" and "c' = c"
  | "r = None" and "c' = clear_tracking pid c"
  | ri where "attempts_of c pid < M" and "ri_attempts ri = attempts_of c pid + 1"
      and "ri_backoff_delay ri = float_mul (cr_backoff c) (ri_attempts ri)"
      and "c' = c\<lparr>cr_tracker := (cr_tracker c)(pid \<mapsto> ri), cr_grants := Granted pid (attempts_of c pid + 1) # cr_grants c\<rparr>"
      and "r = None \<or> r = Some ri \<and> \<not> cr_shutdown c"
proof -
  define ri where "ri = (case cr_tracker c pid of Some ri \<Rightarrow> ri
    | None \<Rightarrow> \<lparr>ri_peer = p, ri_enr = enr, ri_attempts = 0, ri_last_attempt = now, ri_backoff_delay = cr_backoff c\<rparr>)"
  define ri' where "ri' = ri\<lparr>ri_attempts := ri_attempts ri + 1, ri_last_attempt := now,
    ri_backoff_delay := float_mul (cr_backoff c) (ri_attempts ri + 1)\<rparr>"
  have att: "ri_attempts ri = attempts_of c pid"
    by (simp add: ri_def attempts_of_def split: option.splits)
  have eq: "(r, c') =
      (if \<not> is_retryable_error err then (None, c)
       else if M = 0 then (None, c)
       else if attempts_of c pid \<ge> M then (None, clear_tracking pid c)
       else
         let c' = c\<lparr>cr_tracker := (cr_tracker c)(pid \<mapsto> ri'), cr_grants := Granted pid (attempts_of c pid + 1) # cr_grants c\<rparr> in
         if cr_shutdown c then (None, c') else (Some ri', c'))"
    using assms(1,3) unfolding schedule_begin_def Let_def ri_def [symmetric] ri'_def att by (auto simp: att split: if_splits)
  show thesis
  proof (cases "is_retryable_error err \<and> M \<noteq> 0")
    case False
    with eq that(1) show thesis by (auto split: if_splits)
  next
    case True
    show thesis
    proof (cases "attempts_of c pid < M")
      case False
      with eq True that(2) show thesis by simp
    next
      case less: True
      have "ri_attempts ri' = attempts_of c pid + 1" and "ri_backoff_delay ri' = float_mul (cr_backoff c) (ri_attempts ri')"
        by (simp_all add: ri'_def att)
      with eq True less that(3) [of ri'] show thesis by (simp add: Let_def split: if_splits)
    qed
  qed
qed

lemma books_clear:
  assumes "retry_books M float_mul c" and "retries_ok M float_mul c"
  shows "retry_books M float_mul (clear_tracking pid c)"
proof -
  have "int (length (granted pid (cr_grants c))) \<le> max 0 M * int (clears pid (cr_grants c)) + attempts_of c pid"
    using assms(1) by (simp add: retry_books_def)
  also have "\<dots> \<le> max 0 M * int (Suc (clears pid (cr_grants c)))"
    using attempts_range [OF assms(2), of pid] by (simp add: algebra_simps)
  finally show ?thesis
    using assms(1) by (simp add: retry_books_def clear_tracking_def attempts_of_def sent_by_def)
qed

lemma books_clear_all:
  assumes "retry_books M float_mul c" and "retries_ok M float_mul c"
  shows "retry_books M float_mul (clear_all c)"
proof -
  have "int (length (granted pid (cr_grants c))) \<le> max 0 M * int (Suc (clears pid (cr_grants c)))" for pid
  proof -
    have "int (length (granted pid (cr_grants c))) \<le> max 0 M * int (clears pid (cr_grants c)) + attempts_of c pid"
      using assms(1) by (simp add: retry_books_def)
    also have "\<dots> \<le> max 0 M * int (Suc (clears pid (cr_grants c)))"
      using attempts_range [OF assms(2), of pid] by (simp add: algebra_simps)
    finally show ?thesis .
  qed
  then show ?thesis
    using assms(1) by (simp add: retry_books_def clear_all_def attempts_of_def sent_by_def)
qed

lemma books_grant:
  assumes "retry_books M float_mul c" and "retries_ok M float_mul c" and "ri_attempts ri = attempts_of c pid + 1"
    and "c' = c\<lparr>cr_tracker := (cr_tracker c)(pid \<mapsto> ri), cr_grants := Granted pid (attempts_of c pid + 1) # cr_grants c\<rparr>"
  shows "retry_books M float_mul c'"
    and "\<forall>q. sent_by q c' + (if q = pid then 1 else 0) \<le> length (granted q (cr_grants c'))"
proof -
  have att: "attempts_of c' q = (if q = pid then attempts_of c pid + 1 else attempts_of c q)" for q
    using assms(3,4) by (simp add: attempts_of_def)
  have sent: "sent_by q c' = sent_by q c" for q using assms(4) by (simp add: sent_by_def)
  have g: "cr_grants c' = Granted pid (attempts_of c pid + 1) # cr_grants c" and m: "cr_max_retry c' = cr_max_retry c"
    using assms(4) by simp_all
  have "chain q (cr_grants c') = [1..attempts_of c' q]" for q
    using assms(1) upto_snoc [of "attempts_of c pid"] attempts_range [OF assms(2), of pid] by (auto simp: att g retry_books_def)
  moreover have "int (length (granted q (cr_grants c'))) \<le> max 0 M * int (clears q (cr_grants c')) + attempts_of c' q" for q
  proof -
    have "int (length (granted q (cr_grants c))) \<le> max 0 M * int (clears q (cr_grants c)) + attempts_of c q"
      using assms(1) by (simp add: retry_books_def)
    then show ?thesis by (cases "q = pid") (simp_all add: att g)
  qed
  moreover have s1: "sent_by q c + (if q = pid then 1 else 0) \<le> length (granted q (cr_grants c'))" for q
    using assms(1) by (simp add: retry_books_def g)
  moreover have "sent_by q c \<le> length (granted q (cr_grants c'))" for q
    using s1 [of q] by simp
  ultimately show "retry_books M float_mul c'"
    and "\<forall>q. sent_by q c' + (if q = pid then 1 else 0) \<le> length (granted q (cr_grants c'))"
    using assms(1) by (simp_all add: retry_books_def sent m)
qed

text \<open>The granted attempt waits to be sent.\<close>

lemma books_pending:
  assumes "retry_books M float_mul c" and "\<forall>q. sent_by q c + (if q = pid then 1 else 0) \<le> length (granted q (cr_grants c))"
  shows "retry_books M float_mul (c\<lparr>cr_pending := (pid, ri) # cr_pending c\<rparr>)"
  using assms by (auto simp: retry_books_def sent_by_def attempts_of_def split: if_splits)

lemma length_filter_remove1:
  "x \<in> set xs \<Longrightarrow> P x \<Longrightarrow> length (filter P xs) = Suc (length (filter P (remove1 x xs)))"
  by (induction xs) auto

lemma length_filter_remove1_other: "\<not> P x \<Longrightarrow> length (filter P (remove1 x xs)) = length (filter P xs)"
  by (induction xs) auto

lemma sent_by_send:
  assumes "(pid, ri) \<in> set (cr_pending c)"
  shows "sent_by q (send_retry pid ri (c\<lparr>cr_pending := remove1 (pid, ri) (cr_pending c)\<rparr>)) \<le> sent_by q c"
proof (cases "q = pid")
  case True
  with length_filter_remove1 [OF assms, of "\<lambda>x. fst x = pid"] show ?thesis
    by (simp add: sent_by_def send_retry_def Let_def)
next
  case False
  then show ?thesis
    by (simp add: sent_by_def send_retry_def Let_def length_filter_remove1_other)
qed

lemma books_send:
  assumes "retry_books M float_mul c" and "(pid, ri) \<in> set (cr_pending c)"
  shows "retry_books M float_mul (send_retry pid ri (c\<lparr>cr_pending := remove1 (pid, ri) (cr_pending c)\<rparr>))"
proof -
  define c' where "c' = send_retry pid ri (c\<lparr>cr_pending := remove1 (pid, ri) (cr_pending c)\<rparr>)"
  have "cr_max_retry c' = cr_max_retry c" and "cr_grants c' = cr_grants c" and "attempts_of c' = attempts_of c"
    by (simp_all add: c'_def send_retry_def attempts_of_def Let_def fun_eq_iff)
  moreover have "sent_by q c' \<le> sent_by q c" for q using sent_by_send [OF assms(2)] by (simp add: c'_def)
  ultimately have "retry_books M float_mul c'"
    using assms(1) unfolding retry_books_def by (metis le_trans)
  then show ?thesis by (simp add: c'_def)
qed

lemma books_step:
  assumes "crawler_step L float_mul c l c'" and "crawler_inv M float_mul c"
  shows "retry_books M float_mul c'"
proof -
  have b: "retry_books M float_mul c" and r: "retries_ok M float_mul c" and m: "cr_max_retry c = M"
    using assms(2) by (simp_all add: crawler_inv_def retry_books_def)
  show ?thesis
    using assms(1)
  proof (cases rule: crawler_step.cases)
    case (step_schedule now pid p enr err ri c1)
    from step_schedule(3) r m show ?thesis
    proof (cases rule: schedule_begin_cases)
      case (3 ri')
      with books_grant [OF b r 3(2,4)] step_schedule(2) books_pending show ?thesis by blast
    qed simp_all
  next
    case (step_no_schedule now pid p enr err)
    from step_no_schedule(2) r m show ?thesis
    proof (cases rule: schedule_begin_cases)
      case (3 ri')
      with books_grant(1) [OF b r 3(2,4)] show ?thesis by blast
    qed (use b books_clear [OF b r] in simp_all)
  next
    case (step_send pid ri)
    with books_send [OF b] show ?thesis by blast
  next
    case (step_clear pid)
    with books_clear [OF b r] show ?thesis by blast
  next
    case step_clear_all
    with books_clear_all [OF b r] show ?thesis by blast
  qed (rule books_same [OF _ b], simp add: same_retries_def set_enr_def add_recent_def set_status_def emit_crawl_def
         send_dial_def mark_shutdown_def close_channels_def)+
qed

section \<open>Retries in flight\<close>

text \<open>A step that adds no retry keeps them all as they were.\<close>

lemma flight_ok_fewer:
  assumes "flight_ok M float_mul c" and "cr_backoff c' = cr_backoff c"
    and "ran (cr_tracker c') \<subseteq> ran (cr_tracker c)" and "in_flight c' \<subseteq> in_flight c"
  shows "flight_ok M float_mul c'"
  using assms(1,3,4) unfolding flight_ok_def retry_ok_same [OF assms(2)] by blast

lemma flight_ok_grant:
  assumes "retries_ok M float_mul c" and "attempts_of c pid < M" and "ri_attempts ri = attempts_of c pid + 1"
    and "ri_backoff_delay ri = float_mul (cr_backoff c) (ri_attempts ri)"
    and "cr_tracker c' = (cr_tracker c)(pid \<mapsto> ri)" and "cr_backoff c' = cr_backoff c"
    and "in_flight c' \<subseteq> insert ri (in_flight c)"
  shows "flight_ok M float_mul c'"
proof -
  have "retry_ok M float_mul c ri"
    using assms(2-4) attempts_range [OF assms(1), of pid] by (simp add: retry_ok_def)
  moreover have "ran (cr_tracker c') \<subseteq> insert ri (ran (cr_tracker c))"
    unfolding assms(5) by (rule subsetI) (auto simp: ran_def split: if_splits)
  moreover have "flight_ok M float_mul c" using assms(1) by (simp add: retries_ok_def)
  ultimately show ?thesis
    using assms(7) unfolding flight_ok_def retry_ok_same [OF assms(6)] by blast
qed

lemma in_flight_send:
  assumes "(pid, ri) \<in> set (cr_pending c)"
  shows "in_flight (send_retry pid ri (c\<lparr>cr_pending := remove1 (pid, ri) (cr_pending c)\<rparr>)) \<subseteq> in_flight c"
proof -
  have "ri \<in> snd ` set (cr_pending c)" using assms by force
  moreover have "snd ` set (remove1 (pid, ri) (cr_pending c)) \<subseteq> snd ` set (cr_pending c)"
    by (rule image_mono) (rule set_remove1_subset)
  ultimately show ?thesis by (auto simp: in_flight_def send_retry_def Let_def)
qed

lemma channels_send:
  "channels_ok c \<Longrightarrow> channels_ok (send_retry pid ri (c\<lparr>cr_pending := ps\<rparr>))"
  "channels_ok c \<Longrightarrow> channels_ok (send_dial p (c\<lparr>cr_offers := os\<rparr>))"
  "channels_ok c \<Longrightarrow> channels_ok (send_dial p (c\<lparr>cr_worker := w\<rparr>))"
  by (auto simp: channels_ok_def send_retry_def send_dial_def Let_def)

lemma send_dial_frame [simp]:
  "cr_backoff (send_dial p c) = cr_backoff c" "cr_tracker (send_dial p c) = cr_tracker c"
  "in_flight (send_dial p c) = in_flight c"
  by (simp_all add: send_dial_def in_flight_def)

lemma ran_delete: "ran (m(k := None)) \<subseteq> ran m"
  by (auto simp: ran_def split: if_splits)

lemma flight_step:
  assumes "crawler_step L float_mul c l c'" and "retries_ok M float_mul c" and m: "cr_max_retry c = M"
  shows "flight_ok M float_mul c'"
proof -
  have f: "flight_ok M float_mul c" using assms(2) by (simp add: retries_ok_def)
  show ?thesis
    using assms(1)
  proof (cases rule: crawler_step.cases)
    case (step_schedule now pid p enr err ri c1)
    from step_schedule(3) assms(2) m show ?thesis
    proof (cases rule: schedule_begin_cases)
      case (3 ri')
      then show ?thesis
        using step_schedule(2) by (intro flight_ok_grant [OF assms(2) 3(1-3)]) (auto simp: in_flight_def)
    qed simp_all
  next
    case (step_no_schedule now pid p enr err)
    from step_no_schedule(2) assms(2) m show ?thesis
    proof (cases rule: schedule_begin_cases)
      case 2
      then show ?thesis
        by (intro flight_ok_fewer [OF f]) (simp_all add: clear_tracking_def in_flight_def ran_delete)
    next
      case (3 ri')
      then show ?thesis by (intro flight_ok_grant [OF assms(2) 3(1-3)]) (auto simp: in_flight_def)
    qed (use f in simp)
  next
    case (step_send pid ri)
    have "cr_backoff c' = cr_backoff c" and "cr_tracker c' = cr_tracker c"
      unfolding step_send(2) by (simp_all add: send_retry_def Let_def)
    moreover have "in_flight c' \<subseteq> in_flight c" unfolding step_send(2) using step_send(3) by (rule in_flight_send)
    ultimately show ?thesis by (intro flight_ok_fewer [OF f]) simp_all
  next
    case (step_clear pid)
    then show ?thesis by (intro flight_ok_fewer [OF f]) (simp_all add: clear_tracking_def in_flight_def ran_delete)
  next
    case (step_take ri q)
    then show ?thesis by (intro flight_ok_fewer [OF f]) (auto simp: in_flight_def)
  next
    case (step_requeue ri)
    have "in_flight (c\<lparr>cr_worker := None\<rparr>) \<subseteq> in_flight c" by (auto simp: in_flight_def)
    with step_requeue show ?thesis by (intro flight_ok_fewer [OF f]) simp_all
  qed (rule flight_ok_fewer [OF f]; simp; simp add: in_flight_def set_enr_def add_recent_def set_status_def emit_crawl_def
         mark_shutdown_def close_channels_def clear_all_def; fail)+
qed

lemma channels_step:
  assumes "crawler_step L float_mul c l c'" and c: "channels_ok c"
  shows "channels_ok c'"
  using assms(1)
proof (cases rule: crawler_step.cases)
  case (step_schedule now pid p enr err ri c1)
  have "channels_ok c1"
    using step_schedule(3) c by (auto simp: schedule_begin_def channels_ok_def clear_tracking_def Let_def split: if_splits)
  with step_schedule(2) show ?thesis by (simp add: channels_ok_def)
next
  case (step_no_schedule now pid p enr err)
  from step_no_schedule(2) c show ?thesis
    by (auto simp: schedule_begin_def channels_ok_def clear_tracking_def Let_def split: if_splits)
qed (use c channels_send [OF c] in \<open>auto simp: channels_ok_def set_enr_def add_recent_def set_status_def emit_crawl_def
         mark_shutdown_def close_channels_def clear_all_def clear_tracking_def\<close>)

lemma retries_step:
  assumes "crawler_step L float_mul c l c'" and "crawler_inv M float_mul c"
  shows "retries_ok M float_mul c'"
proof -
  have r: "retries_ok M float_mul c" and "cr_max_retry c = M" and "channels_ok c"
    using assms(2) by (simp_all add: crawler_inv_def retry_books_def retries_ok_def)
  with flight_step [OF assms(1) r] channels_step [OF assms(1)] show ?thesis by (simp add: retries_ok_def)
qed

lemma crawler_inv_init: "crawler_init cfg c \<Longrightarrow> crawler_inv (cfg_max_retry_attempts cfg) float_mul c"
  by (simp add: crawler_init_def crawler_inv_def retry_books_def retries_ok_def flight_ok_def channels_ok_def in_flight_def new_crawler_def attempts_of_def sent_by_def)

interpretation crawl: step_machine "crawler_init cfg" "crawler_step L float_mul" "crawler_inv (cfg_max_retry_attempts cfg) float_mul"
  for L float_mul cfg
proof
  show "crawler_inv (cfg_max_retry_attempts cfg) float_mul s" if "crawler_init cfg s" for s
    using that by (rule crawler_inv_init)
  show "crawler_inv (cfg_max_retry_attempts cfg) float_mul t"
    if "crawler_inv (cfg_max_retry_attempts cfg) float_mul s" and "crawler_step L float_mul s l t" for s l t
    using books_step [OF that(2,1)] retries_step [OF that(2,1)] by (simp add: crawler_inv_def)
qed


section \<open>The operations as runs\<close>

text \<open>\<open>crawler_run L fm c d\<close>: some sequence of steps leads from \<open>c\<close> to \<open>d\<close>.\<close>

definition crawler_run :: "('n, 'k) node_lib \<Rightarrow> (int \<Rightarrow> int \<Rightarrow> int) \<Rightarrow> 'n crawler \<Rightarrow> 'n crawler \<Rightarrow> bool" where
  "crawler_run L float_mul c = reachable (\<lambda>s. s = c) (crawler_step L float_mul)"

lemma run_refl [simp, intro]: "crawler_run L float_mul c c"
  by (simp add: crawler_run_def reach_init)

lemma run_step: "crawler_run L float_mul c d \<Longrightarrow> crawler_step L float_mul d l e \<Longrightarrow> crawler_run L float_mul c e"
  unfolding crawler_run_def by (rule reach_step)

lemma run_one: "crawler_step L float_mul c l d \<Longrightarrow> crawler_run L float_mul c d"
  using run_step run_refl by blast

lemma run_trans:
  assumes "crawler_run L float_mul c d" and "crawler_run L float_mul d e"
  shows "crawler_run L float_mul c e"
  using assms(2) unfolding crawler_run_def [of L float_mul d]
  by (induction rule: reachable.induct) (auto intro: run_step assms(1))

lemma run_reachable:
  assumes "crawler_run L float_mul c d" and "reachable init (crawler_step L float_mul) c"
  shows "reachable init (crawler_step L float_mul) d"
  using assms(1) unfolding crawler_run_def
  by (induction rule: reachable.induct) (auto intro: reach_step assms(2))

lemma run_event: "crawler_run L float_mul c (emit_crawl e c)"
  by (rule run_one) (rule step_event)

lemma run_enr: "crawler_run L float_mul c (set_enr pid n c)"
  by (rule run_one) (rule step_enr)

lemma run_recent: "crawler_run L float_mul c (add_recent pid c)"
  by (rule run_one) (rule step_recent)

lemma run_status: "crawler_run L float_mul c (set_status s c)"
  by (rule run_one) (rule step_status)

lemma run_clear: "crawler_run L float_mul c (clear_tracking pid c)"
  by (rule run_one) (rule step_clear)

lemma run_fail: "crawler_run L float_mul c (fail_crawl pid err c)"
  by (simp add: fail_crawl_def run_event)

lemma run_schedule: "crawler_run L float_mul c (schedule_retry float_mul now pid p enr err c)"
proof -
  obtain r c' where sb: "schedule_begin float_mul now pid p enr err c = (r, c')" by fastforce
  show ?thesis
  proof (cases r)
    case None
    with sb have "crawler_step L float_mul c (LSchedule pid) c'" by (auto intro: step_no_schedule)
    with sb None show ?thesis by (simp add: schedule_retry_def run_one)
  next
    case (Some ri)
    let ?d = "c'\<lparr>cr_pending := (pid, ri) # cr_pending c'\<rparr>"
    have 1: "crawler_step L float_mul c (LSchedule pid) ?d" using sb Some by (auto intro: step_schedule)
    have "crawler_step L float_mul ?d (LSend pid)
        (send_retry pid ri (?d\<lparr>cr_pending := remove1 (pid, ri) (cr_pending ?d)\<rparr>))"
      by (rule step_send) simp
    moreover have "?d\<lparr>cr_pending := remove1 (pid, ri) (cr_pending ?d)\<rparr> = c'" by simp
    ultimately have "crawler_step L float_mul ?d (LSend pid) (send_retry pid ri c')" by simp
    with 1 have "crawler_run L float_mul c (send_retry pid ri c')" by (blast intro: run_step run_one)
    with sb Some show ?thesis by (simp add: schedule_retry_def)
  qed
qed

lemma run_failure: "crawler_run L float_mul c (handle_crawl_failure L show_ip float_mul now pid err c)"
  by (auto simp: handle_crawl_failure_def run_fail run_schedule intro: run_trans [OF run_clear run_fail]
      split: option.splits sum.splits)

section \<open>Stopping while a retry is on its way\<close>




end
