(* ===== verification/CrawlerConn.thy ===== *)
theory CrawlerConn
  imports CrawlerRuns
begin

text \<open>
  What the crawler does with a connected peer: the requests of \<open>crawler.go\<close> and the connection
  callbacks of \<open>wiring.go\<close>, with \<open>fetchAndSetStatus\<close> and \<open>Stop\<close>. A \<open>conn_world\<close> holds what the peer and
  libp2p answer while \<open>handlePeerConnected\<close> runs, in the order of the calls.
\<close>

section \<open>Our status\<close>

record beacon_answers =
  ba_finality :: "string + bytes \<times> u64"
  ba_spec :: "string + unit"
  ba_wallclock :: "string + u64"
  ba_current_fork :: "u64 \<Rightarrow> string + string"
  ba_headers :: "string + bytes \<times> u64"
  ba_fork_digest :: "string + bytes"

definition fetch_status :: "beacon_answers \<Rightarrow> string + status_v1" where
  "fetch_status b =
     (case ba_finality b of
        Inl e \<Rightarrow> Inl (err_wrap ''failed to fetch finality'' e)
      | Inr (finalized_root, finalized_epoch) \<Rightarrow>
          (case ba_spec b of
             Inl e \<Rightarrow> Inl (err_wrap ''failed to fetch spec'' e)
           | Inr _ \<Rightarrow>
               (case ba_wallclock b of
                  Inl e \<Rightarrow> Inl (err_wrap ''failed to fetch wallclock'' e)
                | Inr epoch \<Rightarrow>
                    (case ba_current_fork b epoch of
                       Inl e \<Rightarrow> Inl (err_wrap ''failed to fetch current fork'' e)
                     | Inr _ \<Rightarrow>
                         (case ba_headers b of
                            Inl e \<Rightarrow> Inl (err_wrap ''failed to fetch block headers'' e)
                          | Inr (head_root, head_slot) \<Rightarrow>
                              (case ba_fork_digest b of
                                 Inl e \<Rightarrow> Inl (err_wrap ''failed to fetch fork digest'' e)
                               | Inr fork_digest \<Rightarrow>
                                   Inr \<lparr>sv_fork_digest = fork_digest, sv_finalized_root = finalized_root,
                                     sv_finalized_epoch = finalized_epoch, sv_head_root = head_root, sv_head_slot = head_slot\<rparr>))))))"

definition fetch_and_set_status :: "beacon_answers \<Rightarrow> ('n crawler, string, unit) act" where
  "fetch_and_set_status b = (\<lambda>c.
     case fetch_status b of Inl e \<Rightarrow> (Inl e, c) | Inr s \<Rightarrow> (Inr (), set_status s c))"

text \<open>The head event handler and the cron job stop at the shutdown mark.\<close>

definition on_head :: "beacon_answers \<Rightarrow> ('n crawler, string, unit) act" where
  "on_head b = (\<lambda>c. if cr_shutdown c then (Inr (), c) else fetch_and_set_status b c)"

lemma fetch_and_set_status_error: "fetch_and_set_status b c = (Inl e, c') \<Longrightarrow> c' = c"
  by (simp add: fetch_and_set_status_def split: sum.splits)

section \<open>Requests\<close>

text \<open>
  What a peer answers: to \<open>FirstSupportedProtocol\<close> (\<open>None\<close> an error), and to a request in each version.
  \<open>SendRequest\<close> fails with a \<open>RequestError\<close>, which keeps the text of its cause and not the cause:
  \<open>errors.Is(err, context.Canceled)\<close> is false of all of them.
\<close>

record peer_answers =
  pa_first :: "string list \<Rightarrow> string option"
  pa_status1 :: "status_v1 \<Rightarrow> request_error + status_v1"
  pa_status2 :: "status_v2 \<Rightarrow> request_error + status_v2"
  pa_metadata2 :: "request_error + metadata_v2"
  pa_metadata3 :: "request_error + metadata_v3"

definition is_canceled :: "request_error \<Rightarrow> bool" where
  "is_canceled e = False"

text \<open>The preferred protocol if the peer has it, the old one if it says nothing.\<close>

definition choose_protocol :: "peer_answers \<Rightarrow> string \<Rightarrow> string \<Rightarrow> string" where
  "choose_protocol pa preferred fallback =
     (case pa_first pa [preferred, fallback] of
        None \<Rightarrow> fallback
      | Some proto \<Rightarrow> if proto = '''' then fallback else proto)"

definition ask_status :: "peer_answers \<Rightarrow> string \<Rightarrow> string \<Rightarrow> status_v1 \<Rightarrow> request_error + status_v1" where
  "ask_status pa sfx proto ours =
     (if proto = StatusV2ProtocolID sfx then map_sum id status_to_v1 (pa_status2 pa (status_v2_from_v1 ours))
      else pa_status1 pa ours)"

definition ask_metadata :: "peer_answers \<Rightarrow> string \<Rightarrow> string \<Rightarrow> request_error + metadata_v2" where
  "ask_metadata pa sfx proto =
     (if proto = MetaDataV3ProtocolID sfx then map_sum id metadata_to_v2 (pa_metadata3 pa) else pa_metadata2 pa)"

definition request_status_from_peer ::
  "peer_answers \<Rightarrow> string \<Rightarrow> string \<Rightarrow> ('n crawler, request_error, status_v1) act" where
  "request_status_from_peer pa sfx pid = (\<lambda>c.
     let ours = cr_status c;
         proto = choose_protocol pa (StatusV2ProtocolID sfx) (StatusV1ProtocolID sfx);
         c1 = emit_crawl (EvRequest pid proto) c in
     case ask_status pa sfx proto ours of
       Inl e \<Rightarrow> (Inl e, c1)
     | Inr theirs \<Rightarrow>
         (Inr theirs,
          if sv_fork_digest ours \<noteq> sv_fork_digest theirs then
            emit_crawl (EvPeerStatusUpdated pid (get_peer_enr c1 pid) theirs) c1
          else c1))"

definition request_metadata_from_peer ::
  "peer_answers \<Rightarrow> string \<Rightarrow> string \<Rightarrow> ('n crawler, request_error, metadata_v2) act" where
  "request_metadata_from_peer pa sfx pid = (\<lambda>c.
     let proto = choose_protocol pa (MetaDataV3ProtocolID sfx) (MetaDataV2ProtocolID sfx);
         c1 = emit_crawl (EvRequest pid proto) c in
     case ask_metadata pa sfx proto of
       Inl e \<Rightarrow> (Inl e, c1)
     | Inr md \<Rightarrow> (Inr md, emit_crawl (EvMetadataReceived pid (get_peer_enr c1 pid) md) c1))"

section \<open>Connections\<close>

text \<open>
  \<open>w_identified\<close>: the agent version arrived before the time-out; \<open>w_agent\<close>: what is read after the
  wait; \<open>w_ctx_done\<close>: the crawler's context was cancelled by then. \<open>w_our_status\<close>: our status changed
  while the peer's was awaited. \<open>w_notified\<close>: the notification of the disconnect the failure path asks
  for ran before the failure was handled (libp2p runs it in a goroutine of its own); \<open>w_connected\<close>:
  what the host says of the peer before that disconnect, before the success event and after it;
  \<open>w_dropped\<close>: a disconnect notification ran before the ENR is read for the success event.
\<close>

record conn_world =
  w_answers :: peer_answers
  w_identified :: bool
  w_agent :: string
  w_ctx_done :: bool
  w_our_status :: "status_v1 option"
  w_notified :: bool
  w_connected :: "bool \<times> bool \<times> bool"
  w_dropped :: bool
  w_close :: "string option"
  w_network_id :: nat
  w_epoch_start :: "u64 \<Rightarrow> int"
  w_slot_start :: "u64 \<Rightarrow> int"
  w_now :: int

definition agent_unknown :: string where "agent_unknown = ''unknown''"

definition handle_peer_disconnected :: "string \<Rightarrow> 'n crawler \<Rightarrow> 'n crawler" where
  "handle_peer_disconnected pid c = set_enr pid None c"

definition disconnect_after_failure :: "conn_world \<Rightarrow> string \<Rightarrow> 'n crawler \<Rightarrow> 'n crawler" where
  "disconnect_after_failure w pid c =
     (let c' = (if fst (w_connected w) then emit_crawl (EvClosePeer pid) c else c) in
      if w_notified w then handle_peer_disconnected pid c' else c')"

text \<open>The last part: tracking is cleared, the success reported, the peer disconnected.\<close>

definition finish_crawl :: "conn_world \<Rightarrow> string \<Rightarrow> string \<Rightarrow> status_v1 \<Rightarrow> metadata_v2 \<Rightarrow> 'n crawler \<Rightarrow> 'n crawler" where
  "finish_crawl w sfx pid status metadata c =
     (let c1 = clear_tracking pid c;
          c2 = (if w_dropped w then handle_peer_disconnected pid c1 else c1) in
      if \<not> fst (snd (w_connected w)) then c2
      else
        case get_peer_enr c2 pid of
          None \<Rightarrow> c2
        | Some enr \<Rightarrow>
            (let c3 = emit_crawl (EvSuccess \<lparr>sc_peer_id = pid, sc_enr = enr, sc_agent_version = w_agent w,
                   sc_network_id = w_network_id w, sc_status = status, sc_metadata = metadata,
                   sc_finalized_epoch_start = w_epoch_start w (sv_finalized_epoch status),
                   sc_head_slot_start = w_slot_start w (sv_head_slot status)\<rparr>) c2 in
             if snd (snd (w_connected w)) then snd (disconnect_from_peer sfx True (w_close w) pid c3) else c3))"

definition crawl_metadata ::
  "('n, 'k) node_lib \<Rightarrow> (bytes \<Rightarrow> string) \<Rightarrow> (int \<Rightarrow> int \<Rightarrow> int) \<Rightarrow> conn_world \<Rightarrow> string \<Rightarrow> string \<Rightarrow> status_v1 \<Rightarrow> 'n crawler \<Rightarrow> 'n crawler" where
  "crawl_metadata L show_ip float_mul w sfx pid status c =
     (case request_metadata_from_peer (w_answers w) sfx pid c of
        (Inl e, c1) \<Rightarrow>
          if is_canceled e then c1
          else handle_crawl_failure L show_ip float_mul (w_now w) pid ErrCrawlFailedToRequestMetadata (disconnect_after_failure w pid c1)
      | (Inr metadata, c1) \<Rightarrow> finish_crawl w sfx pid status metadata c1)"

definition crawl_status ::
  "('n, 'k) node_lib \<Rightarrow> (bytes \<Rightarrow> string) \<Rightarrow> (bytes \<Rightarrow> string) \<Rightarrow> (int \<Rightarrow> int \<Rightarrow> int) \<Rightarrow> conn_world \<Rightarrow> string \<Rightarrow> string \<Rightarrow> 'n crawler \<Rightarrow> 'n crawler" where
  "crawl_status L show_ip digest_show float_mul w sfx pid c =
     (case request_status_from_peer (w_answers w) sfx pid c of
        (Inl e, c1) \<Rightarrow>
          if is_canceled e then c1
          else handle_crawl_failure L show_ip float_mul (w_now w) pid ErrCrawlFailedToRequestStatus (disconnect_after_failure w pid c1)
      | (Inr status, c1) \<Rightarrow>
          (let c2 = (case w_our_status w of None \<Rightarrow> c1 | Some s \<Rightarrow> set_status s c1) in
           if sv_fork_digest status \<noteq> sv_fork_digest (cr_status c2) then
             handle_crawl_failure L show_ip float_mul (w_now w) pid
               (with_details ErrCrawlStatusForkDigest
                  (''ours '' @ digest_show (sv_fork_digest (cr_status c2)) @ '' != theirs '' @ digest_show (sv_fork_digest status))) c2
           else crawl_metadata L show_ip float_mul w sfx pid status c2))"

definition handle_peer_connected ::
  "('n, 'k) node_lib \<Rightarrow> (bytes \<Rightarrow> string) \<Rightarrow> (bytes \<Rightarrow> string) \<Rightarrow> (int \<Rightarrow> int \<Rightarrow> int) \<Rightarrow> conn_world \<Rightarrow> string \<Rightarrow> string \<Rightarrow> 'n crawler \<Rightarrow> 'n crawler" where
  "handle_peer_connected L show_ip digest_show float_mul w sfx pid c =
     (if cr_shutdown c then emit_crawl (EvCloseConn pid) c
      else if pid \<in> set (cr_recent c) then emit_crawl (EvCloseConn pid) c
      else if \<not> w_identified w \<and> w_agent w = agent_unknown then
        (if w_ctx_done w then c
         else handle_crawl_failure L show_ip float_mul (w_now w) pid ErrCrawlIdentifyTimeout (disconnect_after_failure w pid c))
      else crawl_status L show_ip digest_show float_mul w sfx pid (add_recent pid c))"

section \<open>Handling a connection is a run of the crawler\<close>

lemma run_disconnect_after_failure: "crawler_run L float_mul c (disconnect_after_failure w pid c)"
  by (auto simp: disconnect_after_failure_def handle_peer_disconnected_def Let_def
      intro: run_event run_enr run_trans [OF run_event run_enr])

lemma run_finish: "crawler_run L float_mul c (finish_crawl w sfx pid status metadata c)"
proof -
  define c2 where "c2 = (if w_dropped w then handle_peer_disconnected pid (clear_tracking pid c) else clear_tracking pid c)"
  have 2: "crawler_run L float_mul c c2"
    by (auto simp: c2_def handle_peer_disconnected_def intro: run_clear run_trans [OF run_clear run_enr])
  have 3: "crawler_run L float_mul c3 (snd (disconnect_from_peer sfx b close pid c3))" for c3 b close
    by (auto simp: disconnect_from_peer_def intro: run_trans [OF run_trans [OF run_event run_enr] run_event])
  have "crawler_run L float_mul c2 (finish_crawl w sfx pid status metadata c)"
    unfolding finish_crawl_def Let_def c2_def [symmetric]
    by (auto intro: run_event run_trans [OF run_event 3] split: option.splits)
  with 2 show ?thesis by (rule run_trans)
qed

lemma run_request_status: "request_status_from_peer pa sfx pid c = (r, c') \<Longrightarrow> crawler_run L float_mul c c'"
  by (auto simp: request_status_from_peer_def Let_def intro: run_event run_trans [OF run_event run_event]
      split: sum.splits if_splits)

lemma run_request_metadata: "request_metadata_from_peer pa sfx pid c = (r, c') \<Longrightarrow> crawler_run L float_mul c c'"
  by (auto simp: request_metadata_from_peer_def Let_def intro: run_event run_trans [OF run_event run_event]
      split: sum.splits)

lemma run_crawl_metadata: "crawler_run L float_mul c (crawl_metadata L show_ip float_mul w sfx pid status c)"
proof -
  obtain r c1 where q: "request_metadata_from_peer (w_answers w) sfx pid c = (r, c1)" by fastforce
  then have 1: "crawler_run L float_mul c c1" by (rule run_request_metadata)
  show ?thesis
  proof (cases r)
    case (Inl e)
    with q 1 run_trans [OF 1 run_trans [OF run_disconnect_after_failure run_failure]] show ?thesis
      by (simp add: crawl_metadata_def)
  next
    case (Inr metadata)
    with q run_trans [OF 1 run_finish] show ?thesis by (simp add: crawl_metadata_def)
  qed
qed

lemma run_crawl_status: "crawler_run L float_mul c (crawl_status L show_ip digest_show float_mul w sfx pid c)"
proof -
  obtain r c1 where q: "request_status_from_peer (w_answers w) sfx pid c = (r, c1)" by fastforce
  then have 1: "crawler_run L float_mul c c1" by (rule run_request_status)
  show ?thesis
  proof (cases r)
    case (Inl e)
    with q 1 run_trans [OF 1 run_trans [OF run_disconnect_after_failure run_failure]] show ?thesis
      by (simp add: crawl_status_def)
  next
    case (Inr status)
    define c2 where "c2 = (case w_our_status w of None \<Rightarrow> c1 | Some s \<Rightarrow> set_status s c1)"
    have 2: "crawler_run L float_mul c c2"
      using 1 run_trans [OF 1 run_status] by (simp add: c2_def split: option.splits)
    from q Inr run_trans [OF 2 run_failure] run_trans [OF 2 run_crawl_metadata] show ?thesis
      by (simp add: crawl_status_def Let_def c2_def [symmetric])
  qed
qed


section \<open>Successful crawls\<close>

definition successes :: "'n crawler \<Rightarrow> 'n successful_crawl list" where
  "successes c = concat (map (\<lambda>e. case e of EvSuccess s \<Rightarrow> [s] | _ \<Rightarrow> []) (cr_events c))"

lemma successes_emit [simp]:
  "successes (emit_crawl e c) = successes c @ (case e of EvSuccess s \<Rightarrow> [s] | _ \<Rightarrow> [])"
  by (simp add: successes_def emit_crawl_def)

lemma successes_frame [simp]:
  "successes (set_enr pid n c) = successes c" "successes (set_status s c) = successes c"
  "successes (add_recent pid c) = successes c" "successes (clear_tracking pid c) = successes c"
  by (simp_all add: successes_def set_enr_def set_status_def add_recent_def clear_tracking_def)

lemma disconnected_frame [simp]:
  "get_peer_enr (handle_peer_disconnected pid c) pid = None" "successes (handle_peer_disconnected pid c) = successes c"
  by (simp_all add: handle_peer_disconnected_def get_peer_enr_def) (simp add: set_enr_def)

lemma schedule_retry_events: "cr_events (schedule_retry float_mul now pid p enr err c) = cr_events c"
  by (auto simp: schedule_retry_def schedule_begin_def send_retry_def clear_tracking_def Let_def split: option.splits)

lemma successes_failure [simp]: "successes (handle_crawl_failure L show_ip float_mul now pid err c) = successes c"
  by (auto simp: handle_crawl_failure_def fail_crawl_def successes_def schedule_retry_events emit_crawl_def clear_tracking_def
      split: option.splits sum.splits)

lemma successes_disconnect [simp]: "successes (disconnect_after_failure w pid c) = successes c"
  by (simp add: disconnect_after_failure_def handle_peer_disconnected_def Let_def)

lemma request_status_frame:
  assumes "request_status_from_peer pa sfx pid c = (r, c1)"
  shows "successes c1 = successes c" and "cr_enrs c1 = cr_enrs c" and "cr_recent c1 = cr_recent c"
    and "cr_status c1 = cr_status c"
  using assms by (auto simp: request_status_from_peer_def Let_def emit_crawl_def successes_def split: sum.splits if_splits)

lemma request_metadata_frame:
  assumes "request_metadata_from_peer pa sfx pid c = (r, c1)"
  shows "successes c1 = successes c" and "cr_enrs c1 = cr_enrs c" and "cr_recent c1 = cr_recent c"
    and "cr_status c1 = cr_status c"
  using assms by (auto simp: request_metadata_from_peer_def Let_def emit_crawl_def successes_def split: sum.splits)

text \<open>The one place a success comes from.\<close>

lemma finish_crawl_success:
  assumes "successes (finish_crawl w sfx pid status metadata c) \<noteq> successes c"
  obtains enr s where "cr_enrs c pid = Some enr" and "\<not> w_dropped w" and "fst (snd (w_connected w))"
    and "successes (finish_crawl w sfx pid status metadata c) = successes c @ [s]"
    and "sc_peer_id s = pid" and "sc_enr s = enr" and "sc_status s = status" and "sc_metadata s = metadata"
    and "sc_agent_version s = w_agent w"
    and "cr_tracker (finish_crawl w sfx pid status metadata c) pid = None"
    and "cr_recent (finish_crawl w sfx pid status metadata c) = cr_recent c"
    and "cr_status (finish_crawl w sfx pid status metadata c) = cr_status c"
proof -
  have conn: "fst (snd (w_connected w))" and drop: "\<not> w_dropped w"
    using assms by (auto simp: finish_crawl_def Let_def split: if_splits)
  obtain enr where enr: "cr_enrs c pid = Some enr"
    using assms conn drop by (cases "cr_enrs c pid") (simp_all add: finish_crawl_def get_peer_enr_def clear_tracking_def Let_def
        successes_def)
  define s where "s = \<lparr>sc_peer_id = pid, sc_enr = enr, sc_agent_version = w_agent w,
    sc_network_id = w_network_id w, sc_status = status, sc_metadata = metadata,
    sc_finalized_epoch_start = w_epoch_start w (sv_finalized_epoch status),
    sc_head_slot_start = w_slot_start w (sv_head_slot status)\<rparr>"
  define c3 where "c3 = emit_crawl (EvSuccess s) (clear_tracking pid c)"
  have fin: "finish_crawl w sfx pid status metadata c =
      (if snd (snd (w_connected w)) then snd (disconnect_from_peer sfx True (w_close w) pid c3) else c3)"
    using conn drop enr by (simp add: finish_crawl_def get_peer_enr_def clear_tracking_def c3_def s_def Let_def)
  have "successes (finish_crawl w sfx pid status metadata c) = successes c @ [s]"
    by (simp add: fin disconnect_from_peer_def c3_def)
  moreover have "cr_tracker (finish_crawl w sfx pid status metadata c) pid = None"
    and "cr_recent (finish_crawl w sfx pid status metadata c) = cr_recent c"
    and "cr_status (finish_crawl w sfx pid status metadata c) = cr_status c"
    by (simp_all add: fin disconnect_from_peer_def c3_def emit_crawl_def set_enr_def clear_tracking_def)
  ultimately show thesis
    using that [of enr s] enr conn drop by (simp add: s_def)
qed

text \<open>
  C4: a connection reports at most one success, and only for a peer that was not processed within the
  cool-off time and is not processed again within it, whose ENR is stored, that was connected
  when asked, and that answered both requests: the reported status has the fork digest of our own
  status and the reported metadata are the peer's answer. The peer's retry tracking is gone afterwards.
\<close>

theorem successful_crawl:
  assumes "successes (handle_peer_connected L show_ip digest_show float_mul w sfx pid c) \<noteq> successes c"
  shows "\<exists>s. successes (handle_peer_connected L show_ip digest_show float_mul w sfx pid c) = successes c @ [s] \<and>
           \<not> cr_shutdown c \<and> pid \<notin> set (cr_recent c) \<and>
           pid \<in> set (cr_recent (handle_peer_connected L show_ip digest_show float_mul w sfx pid c)) \<and>
           sc_peer_id s = pid \<and> cr_enrs c pid = Some (sc_enr s) \<and> sc_agent_version s = w_agent w \<and>
           sv_fork_digest (sc_status s) = sv_fork_digest (cr_status (handle_peer_connected L show_ip digest_show float_mul w sfx pid c)) \<and>
           ask_status (w_answers w) sfx (choose_protocol (w_answers w) (StatusV2ProtocolID sfx) (StatusV1ProtocolID sfx)) (cr_status c) =
             Inr (sc_status s) \<and>
           ask_metadata (w_answers w) sfx (choose_protocol (w_answers w) (MetaDataV3ProtocolID sfx) (MetaDataV2ProtocolID sfx)) =
             Inr (sc_metadata s) \<and>
           cr_tracker (handle_peer_connected L show_ip digest_show float_mul w sfx pid c) pid = None"
proof -
  let ?c0 = "add_recent pid c"
  have h: "handle_peer_connected L show_ip digest_show float_mul w sfx pid c = crawl_status L show_ip digest_show float_mul w sfx pid ?c0"
    and start: "\<not> cr_shutdown c" "pid \<notin> set (cr_recent c)"
    using assms by (auto simp: handle_peer_connected_def split: if_splits)
  obtain r c1 where q: "request_status_from_peer (w_answers w) sfx pid ?c0 = (r, c1)" by fastforce
  note f1 = request_status_frame [OF q]
  from assms f1(1) q obtain status where r: "r = Inr status"
    by (cases r) (simp_all add: h crawl_status_def is_canceled_def)
  define c2 where "c2 = (case w_our_status w of None \<Rightarrow> c1 | Some s \<Rightarrow> set_status s c1)"
  have f2: "successes c2 = successes c" "cr_enrs c2 = cr_enrs c" "cr_recent c2 = pid # cr_recent c"
    using f1 by (auto simp: c2_def set_status_def add_recent_def successes_def split: option.splits)
  have digest: "sv_fork_digest status = sv_fork_digest (cr_status c2)"
    and h2: "handle_peer_connected L show_ip digest_show float_mul w sfx pid c = crawl_metadata L show_ip float_mul w sfx pid status c2"
    using assms f2(1) q r by (auto simp: h crawl_status_def Let_def simp flip: c2_def split: if_splits)
  obtain r' c3 where q': "request_metadata_from_peer (w_answers w) sfx pid c2 = (r', c3)" by fastforce
  note f3 = request_metadata_frame [OF q']
  from assms f3(1) f2(1) q' obtain metadata where r': "r' = Inr metadata"
    by (cases r') (simp_all add: h2 crawl_metadata_def is_canceled_def)
  with q' have h3: "handle_peer_connected L show_ip digest_show float_mul w sfx pid c = finish_crawl w sfx pid status metadata c3"
    by (simp add: h2 crawl_metadata_def)
  have "ask_status (w_answers w) sfx (choose_protocol (w_answers w) (StatusV2ProtocolID sfx) (StatusV1ProtocolID sfx)) (cr_status c) = Inr status"
    using q r by (auto simp: request_status_from_peer_def add_recent_def Let_def split: sum.splits)
  moreover have "ask_metadata (w_answers w) sfx (choose_protocol (w_answers w) (MetaDataV3ProtocolID sfx) (MetaDataV2ProtocolID sfx)) = Inr metadata"
    using q' r' by (auto simp: request_metadata_from_peer_def Let_def split: sum.splits)
  moreover have "successes (finish_crawl w sfx pid status metadata c3) \<noteq> successes c3"
    using assms f2(1) f3(1) by (simp add: h3)
  ultimately show ?thesis
    using start digest f2 f3 unfolding h3 by (elim finish_crawl_success) auto
qed

definition demo_answers :: peer_answers where
  "demo_answers = \<lparr>pa_first = (\<lambda>ps. Some (hd ps)), pa_status1 = (\<lambda>s. Inr s), pa_status2 = (\<lambda>s. Inr s),
     pa_metadata2 = Inl ErrFailedToReadResponse,
     pa_metadata3 = Inr \<lparr>m3_seq_number = 3, m3_attnets = replicate 8 0, m3_syncnets = [0], m3_custody_group_count = 4\<rparr>\<rparr>"

definition demo_world :: conn_world where
  "demo_world = \<lparr>w_answers = demo_answers, w_identified = True, w_agent = ''Lighthouse/v5'', w_ctx_done = False, w_our_status = None,
     w_notified = True, w_connected = (True, True, True), w_dropped = False, w_close = None, w_network_id = 1,
     w_epoch_start = (\<lambda>e. 384 * uint e), w_slot_start = (\<lambda>n. 12 * uint n), w_now = 0\<rparr>"

lemma demo_success:
  "successes (handle_peer_connected demo_nodes (\<lambda>_. ''10.0.0.1'') (\<lambda>_. []) (*) demo_world ''ssz_snappy'' ''5'' demo_crawler) \<noteq>
   successes demo_crawler"
  by (simp add: handle_peer_connected_def demo_crawler_def new_crawler_def demo_world_def crawl_status_def
      request_status_from_peer_def choose_protocol_def demo_answers_def ask_status_def status_to_v1_def status_v2_from_v1_def
      crawl_metadata_def request_metadata_from_peer_def ask_metadata_def finish_crawl_def get_peer_enr_def set_enr_def
      add_recent_def emit_crawl_def clear_tracking_def successes_def disconnect_from_peer_def protocol_id_defs req_protocol_def Let_def)

lemma successful_crawl_witness:
  "''5'' \<in> set (cr_recent (handle_peer_connected demo_nodes (\<lambda>_. ''10.0.0.1'') (\<lambda>_. []) (*) demo_world ''ssz_snappy'' ''5'' demo_crawler))"
  using successful_crawl [OF demo_success] by blast

section \<open>Failed crawls\<close>

lemma disconnect_after_failure_events:
  "cr_events (disconnect_after_failure w pid c) = cr_events c @ (if fst (w_connected w) then [EvClosePeer pid] else [])"
  by (simp add: disconnect_after_failure_def handle_peer_disconnected_def set_enr_def emit_crawl_def Let_def)

text \<open>
  C32: when the status request of an identified peer fails (also when it fails because the crawler's
  context was cancelled, which the code means to leave alone), the outcome hangs on a race: if the
  notification of the disconnect the code itself asked for runs first, the stored ENR is gone, the failure is
  reported without ENR and the peer is never dialled again; if it runs later, a retry is queued
  and nothing is reported.
\<close>

theorem status_failure_race:
  assumes "\<not> cr_shutdown c" and "pid \<notin> set (cr_recent c)" and "w_identified w \<or> w_agent w \<noteq> agent_unknown"
    and "ask_status (w_answers w) sfx (choose_protocol (w_answers w) (StatusV2ProtocolID sfx) (StatusV1ProtocolID sfx)) (cr_status c) = Inl e"
    and "0 < cr_max_retry c" and "attempts_of c pid < cr_max_retry c" and "\<not> cr_closed c"
    and "length (cr_retry_queue c) < retry_queue_capacity" and "derive_details_from_node L show_ip (cr_enrs c pid) = Inr p"
  shows "let c' = handle_peer_connected L show_ip digest_show float_mul w sfx pid c;
             failed = filter (\<lambda>e. case e of EvFailed _ _ _ \<Rightarrow> True | _ \<Rightarrow> False) (drop (length (cr_events c)) (cr_events c')) in
         if w_notified w then
           failed = [EvFailed pid None ErrCrawlFailedToRequestStatus] \<and> cr_retry_queue c' = cr_retry_queue c
         else
           failed = [] \<and> cr_retry_queue c' = cr_retry_queue c @ [queued_retry float_mul (w_now w) pid p (cp_enode p) c]"
proof -
  let ?proto = "choose_protocol (w_answers w) (StatusV2ProtocolID sfx) (StatusV1ProtocolID sfx)"
  define c1 where "c1 = emit_crawl (EvRequest pid ?proto) (add_recent pid c)"
  define c2 where "c2 = disconnect_after_failure w pid c1"
  have c': "handle_peer_connected L show_ip digest_show float_mul w sfx pid c =
      handle_crawl_failure L show_ip float_mul (w_now w) pid ErrCrawlFailedToRequestStatus c2"
    using assms(1-4) by (auto simp: handle_peer_connected_def crawl_status_def request_status_from_peer_def is_canceled_def
        c1_def c2_def add_recent_def emit_crawl_def Let_def)
  obtain es where ev: "cr_events c2 = cr_events c @ es" and es: "filter (\<lambda>e. case e of EvFailed _ _ _ \<Rightarrow> True | _ \<Rightarrow> False) es = []"
    by (rule that [of "EvRequest pid ?proto # (if fst (w_connected w) then [EvClosePeer pid] else [])"])
      (simp_all add: c2_def disconnect_after_failure_events c1_def, simp_all add: emit_crawl_def add_recent_def)
  have same: "cr_max_retry c2 = cr_max_retry c" "attempts_of c2 pid = attempts_of c pid" "cr_closed c2 = cr_closed c"
      "cr_retry_queue c2 = cr_retry_queue c" "cr_shutdown c2 = cr_shutdown c" "cr_tracker c2 = cr_tracker c" "cr_backoff c2 = cr_backoff c"
    and enr: "cr_enrs c2 pid = (if w_notified w then None else cr_enrs c pid)"
    by (simp_all add: c2_def c1_def disconnect_after_failure_def handle_peer_disconnected_def set_enr_def emit_crawl_def add_recent_def
        attempts_of_def Let_def)
  have ret: "is_retryable_error (Some (CrawlErr ErrCrawlFailedToRequestStatus))"
    by (simp add: is_retryable_crawl crawl_error_defs)
  have "\<not> (case cr_tracker c2 pid of Some ri \<Rightarrow> ri_attempts ri \<ge> cr_max_retry c2 | None \<Rightarrow> False)"
    using assms(6) by (simp add: same attempts_of_def split: option.splits)
  then have hcf: "handle_crawl_failure L show_ip float_mul (w_now w) pid ErrCrawlFailedToRequestStatus c2 =
      (case get_peer_enr c2 pid of
         None \<Rightarrow> fail_crawl pid ErrCrawlFailedToRequestStatus c2
       | Some enr \<Rightarrow>
           (case derive_details_from_node L show_ip (Some enr) of
              Inl _ \<Rightarrow> fail_crawl pid ErrCrawlFailedToRequestStatus c2
            | Inr p \<Rightarrow> schedule_retry float_mul (w_now w) pid p enr (Some (CrawlErr ErrCrawlFailedToRequestStatus)) c2))"
    using assms(5) ret same(1) by (simp add: handle_crawl_failure_def)
  obtain n where n: "cr_enrs c pid = Some n"
    using assms(9) by (cases "cr_enrs c pid") (simp_all add: derive_details_from_node_def)
  with derive_details_Inr [OF assms(9)] have enode: "cp_enode p = n" by simp
  show ?thesis
  proof (cases "w_notified w")
    case True
    then show ?thesis
      using ev es same(4) by (simp add: c' hcf get_peer_enr_def enr fail_crawl_def emit_crawl_def Let_def)
  next
    case False
    have q: "queued_retry float_mul (w_now w) pid p n c2 = queued_retry float_mul (w_now w) pid p n c"
      unfolding queued_retry_def same ..
    have "handle_crawl_failure L show_ip float_mul (w_now w) pid ErrCrawlFailedToRequestStatus c2 =
        schedule_retry float_mul (w_now w) pid p n (Some (CrawlErr ErrCrawlFailedToRequestStatus)) c2"
      using False n assms(9) by (simp add: hcf get_peer_enr_def enr)
    moreover have "cr_retry_queue (schedule_retry float_mul (w_now w) pid p n (Some (CrawlErr ErrCrawlFailedToRequestStatus)) c2) =
        cr_retry_queue c @ [queued_retry float_mul (w_now w) pid p n c]"
      using assms(1,5-8) ret by (simp add: schedule_retry_def schedule_begin_retry send_retry_def same q Let_def)
    ultimately show ?thesis
      using False ev es by (simp add: c' schedule_retry_events enode Let_def)
  qed
qed

text \<open>A peer whose status request fails.\<close>

definition mute_world :: conn_world where
  "mute_world = demo_world\<lparr>w_answers := demo_answers\<lparr>pa_status2 := (\<lambda>_. Inl ErrFailedToReadResponse)\<rparr>\<rparr>"

lemma status_failure_race_witness:
  "cr_retry_queue (handle_peer_connected demo_nodes (\<lambda>_. ''10.0.0.1'') (\<lambda>_. []) (*) mute_world ''ssz_snappy'' ''5'' demo_crawler) = []"
proof -
  have "\<not> cr_shutdown demo_crawler" and "''5'' \<notin> set (cr_recent demo_crawler)" and "w_identified mute_world \<or> w_agent mute_world \<noteq> agent_unknown"
    and "0 < cr_max_retry demo_crawler" and "attempts_of demo_crawler ''5'' < cr_max_retry demo_crawler" and "\<not> cr_closed demo_crawler"
    and "length (cr_retry_queue demo_crawler) < retry_queue_capacity"
    by (simp_all add: demo_crawler_def demo_config_def new_crawler_def set_enr_def attempts_of_def mute_world_def demo_world_def
        retry_queue_capacity_def)
  moreover have "ask_status (w_answers mute_world) ''ssz_snappy''
      (choose_protocol (w_answers mute_world) (StatusV2ProtocolID ''ssz_snappy'') (StatusV1ProtocolID ''ssz_snappy''))
      (cr_status demo_crawler) = Inl ErrFailedToReadResponse"
    by (simp add: ask_status_def mute_world_def demo_world_def demo_answers_def choose_protocol_def protocol_id_defs req_protocol_def)
  moreover have "derive_details_from_node demo_nodes (\<lambda>_. ''10.0.0.1'') (cr_enrs demo_crawler ''5'') =
      Inr \<lparr>cp_id = dec_of_nat 5, cp_addrs = [''/ip4/10.0.0.1/tcp/'' @ dec_of_nat 9], cp_enode = 5\<rparr>"
    by (simp add: demo_crawler_def set_enr_def demo_peer)
  ultimately show ?thesis
    using status_failure_race [of demo_crawler "''5''" mute_world "''ssz_snappy''" ErrFailedToReadResponse demo_nodes
        "\<lambda>_. ''10.0.0.1''" _ "\<lambda>_. []" "(*)"]
    by (simp add: mute_world_def demo_world_def demo_crawler_def set_enr_def new_crawler_def Let_def)
qed

section \<open>Stopping\<close>

text \<open>
  \<open>Stop\<close> runs once: every part is stopped whatever the parts before it returned, the errors are
  collected. The parts are the beacon node, the two calls to the scheduler, discovery, the duplicate cache
  and the host, each \<open>None\<close> when absent; \<open>peers\<close> are the peers of the peer store with what the host
  says of them. The duplicate cache is stopped after the channels are closed, the peers are told goodbye
  after that and before the host stops.
\<close>

definition stop_error :: "string \<Rightarrow> string option option \<Rightarrow> string list" where
  "stop_error msg part = (case part of Some (Some e) \<Rightarrow> [err_wrap msg e] | _ \<Rightarrow> [])"

record stop_parts =
  sp_beacon :: "string option option"
  sp_scheduler_jobs :: "string option option"
  sp_scheduler :: "string option option"
  sp_discovery :: "string option option"
  sp_cache :: "string option option"
  sp_host :: "string option option"
  sp_peers :: "(string \<times> bool \<times> string option) list"

definition stop_errors :: "stop_parts \<Rightarrow> string list" where
  "stop_errors sp =
     stop_error ''failed to stop beacon node'' (sp_beacon sp) @
     stop_error ''failed to stop scheduler jobs'' (sp_scheduler_jobs sp) @
     stop_error ''failed to shutdown scheduler'' (sp_scheduler sp) @
     stop_error ''failed to stop discovery'' (sp_discovery sp) @
     stop_error ''failed to stop duplicate cache'' (sp_cache sp) @
     stop_error ''failed to stop node'' (sp_host sp)"

definition goodbye_all :: "string \<Rightarrow> (string \<times> bool \<times> string option) list \<Rightarrow> 'n crawler \<Rightarrow> 'n crawler" where
  "goodbye_all sfx peers c = foldl (\<lambda>c (pid, connected, close). snd (disconnect_from_peer sfx connected close pid c)) c peers"

definition stop_crawler :: "string \<Rightarrow> stop_parts \<Rightarrow> 'n crawler \<Rightarrow> string list \<times> 'n crawler" where
  "stop_crawler sfx sp c =
     (if cr_shutdown c then ([], c)
      else
        (stop_errors sp,
         clear_all (goodbye_all sfx (if sp_host sp = None then [] else sp_peers sp) (close_channels (mark_shutdown c)))))"

text \<open>Once stopped, the crawler takes no node, no connection and no head event any more.\<close>

lemma stopped_idle:
  assumes "cr_shutdown c"
  shows "handle_new_discovery_node L show_ip hex_show digest_show node c = (Inr (), c)"
    and "handle_peer_connected L show_ip digest_show float_mul w sfx pid c = emit_crawl (EvCloseConn pid) c"
    and "on_head b c = (Inr (), c)" and "stop_crawler sfx sp c = ([], c)"
  using assms by (simp_all add: handle_new_discovery_node_def new_node_begin_def handle_peer_connected_def on_head_def stop_crawler_def)

end
