(* ===== verification/Clients.thy ===== *)
theory Clients
  imports GoStrings
begin

text \<open>
  Client names and versions (\<open>pkg/ethereum/clients/clients.go\<close>). \<open>Client\<close> is a string type,
  so its constants are strings. The regular expression
  \<open>^([a-z][a-z0-9_-]{1,31})/v?[0-9]\<close> is written out: no character of the class is a slash, so
  the first group can only be the longest run of class characters. The loop of
  \<open>splitVersionString\<close> runs over indices as in the code, as a partial function (an empty
  separator would make it loop for ever; the callers pass a slash and a dot).
\<close>

type_synonym client = string

definition ClientUnknown :: client where "ClientUnknown = ''unknown''"
definition ClientLighthouse :: client where "ClientLighthouse = ''lighthouse''"
definition ClientNimbus :: client where "ClientNimbus = ''nimbus''"
definition ClientTeku :: client where "ClientTeku = ''teku''"
definition ClientTysm :: client where "ClientTysm = ''tysm''"
definition ClientSilver :: client where "ClientSilver = ''silver''"
definition ClientPrysm :: client where "ClientPrysm = ''prysm''"
definition ClientLodestar :: client where "ClientLodestar = ''lodestar''"
definition ClientGrandine :: client where "ClientGrandine = ''grandine''"
definition ClientCaplin :: client where "ClientCaplin = ''caplin''"
definition ClientGeth :: client where "ClientGeth = ''geth''"
definition ClientBesu :: client where "ClientBesu = ''besu''"
definition ClientNethermind :: client where "ClientNethermind = ''nethermind''"
definition ClientErigon :: client where "ClientErigon = ''erigon''"
definition ClientReth :: client where "ClientReth = ''reth''"
definition ClientEthereumJS :: client where "ClientEthereumJS = ''ethereumjs''"
definition ClientEthrex :: client where "ClientEthrex = ''ethrex''"

definition AllConsensusClients :: "client list" where
  "AllConsensusClients =
    [ClientLighthouse, ClientNimbus, ClientTeku, ClientPrysm, ClientLodestar, ClientGrandine,
     ClientCaplin, ClientTysm, ClientSilver]"

definition AllExecutionClients :: "client list" where
  "AllExecutionClients =
    [ClientGeth, ClientBesu, ClientNethermind, ClientErigon, ClientReth, ClientEthereumJS,
     ClientEthrex]"

definition AllClients :: "client list" where
  "AllClients =
    [ClientUnknown, ClientLighthouse, ClientNimbus, ClientTeku, ClientPrysm, ClientLodestar,
     ClientGrandine, ClientCaplin, ClientTysm, ClientSilver, ClientGeth, ClientBesu,
     ClientNethermind, ClientErigon, ClientReth, ClientEthereumJS, ClientEthrex]"

definition client_identifiers :: "client list" where
  "client_identifiers =
    [ClientTysm, ClientCaplin, ClientLighthouse, ClientNimbus, ClientTeku, ClientPrysm,
     ClientLodestar, ClientGrandine, ClientSilver, ClientGeth, ClientBesu, ClientNethermind,
     ClientErigon, ClientReth, ClientEthereumJS, ClientEthrex]"

lemmas client_defs = ClientUnknown_def ClientLighthouse_def ClientNimbus_def ClientTeku_def
  ClientTysm_def ClientSilver_def ClientPrysm_def ClientLodestar_def ClientGrandine_def
  ClientCaplin_def ClientGeth_def ClientBesu_def ClientNethermind_def ClientErigon_def
  ClientReth_def ClientEthereumJS_def ClientEthrex_def

section \<open>Identifying a client\<close>

definition is_letter :: "char \<Rightarrow> bool" where
  "is_letter c = (let n = (of_char c :: nat) in 97 \<le> n \<and> n \<le> 122)"

definition is_digit :: "char \<Rightarrow> bool" where
  "is_digit c = (let n = (of_char c :: nat) in 48 \<le> n \<and> n \<le> 57)"

text \<open>\<open>[a-z0-9_-]\<close>\<close>

definition is_name_char :: "char \<Rightarrow> bool" where
  "is_name_char c = (is_letter c \<or> is_digit c \<or> c = CHR ''_'' \<or> c = CHR ''-'')"

definition name_version_match :: "string \<Rightarrow> string option" where
  "name_version_match s =
     (let name = takeWhile is_name_char s;
          rest = dropWhile is_name_char s
      in if 2 \<le> length name \<and> length name \<le> 32 \<and> is_letter (hd name)
         then (case rest of
                 c # r \<Rightarrow>
                   (if c = CHR ''/'' then
                      (case (case r of d # r' \<Rightarrow> if d = CHR ''v'' then r' else r | [] \<Rightarrow> []) of
                         d # _ \<Rightarrow> if is_digit d then Some name else None
                       | [] \<Rightarrow> None)
                    else None)
               | [] \<Rightarrow> None)
         else None)"

definition client_from_string :: "string \<Rightarrow> client" where
  "client_from_string client =
     (let lower = to_lower client
      in case List.find (\<lambda>i. str_contains lower i) client_identifiers of
           Some i \<Rightarrow> i
         | None \<Rightarrow>
             (case name_version_match lower of
                Some name \<Rightarrow> name
              | None \<Rightarrow> ClientUnknown))"

section \<open>Splitting\<close>

partial_function (option) split_version_loop ::
  "string \<Rightarrow> string \<Rightarrow> nat \<Rightarrow> nat \<Rightarrow> string list \<Rightarrow> (nat \<times> string list) option" where
  "split_version_loop s sep start i parts =
     (if i + length sep \<le> length s then
        if take (length sep) (drop i s) = sep then
          (let part = take (i - start) (drop start s);
               parts' = (if part \<noteq> [] then parts @ [part] else parts)
           in split_version_loop s sep (i + length sep) (i + length sep) parts')
        else split_version_loop s sep start (i + 1) parts
      else Some (start, parts))"

definition split_version_string :: "string \<Rightarrow> string \<Rightarrow> string list option" where
  "split_version_string s sep =
     (if s = [] then Some []
      else map_option (\<lambda>(start, parts).
             let part = drop start s in if part \<noteq> [] then parts @ [part] else parts)
           (split_version_loop s sep 0 0 []))"

text \<open>
  The loop is \<open>strings.Split\<close> without the empty pieces. \<open>drop start s\<close> is the piece being
  read followed by what is left, so the invariant relates it to the arguments of \<open>split_on\<close>.
\<close>

definition nonempty_pieces :: "string list \<Rightarrow> string list" where
  "nonempty_pieces ps = filter (\<lambda>p. p \<noteq> []) ps"

lemma has_prefix_length: "has_prefix s p \<Longrightarrow> length p \<le> length s"
  by (auto simp: has_prefix_iff)

lemma split_on_short: "length s < length sep \<Longrightarrow> split_on sep acc s = [rev acc @ s]"
proof (induction s arbitrary: acc)
  case Nil
  then show ?case by (simp add: split_on.simps)
next
  case (Cons c cs)
  then have "\<not> has_prefix (c # cs) sep" using has_prefix_length by fastforce
  with Cons show ?case by (subst split_on.simps) simp
qed

lemma split_version_loop_eq:
  assumes "sep \<noteq> []" "i \<le> length s" "start \<le> i"
  shows "\<exists>start' parts'. split_version_loop s sep start i parts = Some (start', parts')
    \<and> parts' @ nonempty_pieces [drop start' s]
        = parts @ nonempty_pieces (split_on sep (rev (take (i - start) (drop start s))) (drop i s))"
  using assms(2,3)
proof (induction "length s - i" arbitrary: start i parts rule: less_induct)
  case less
  let ?acc = "take (i - start) (drop start s)"
  have acc: "?acc @ drop i s = drop start s"
    using less.prems by (metis append_take_drop_id drop_drop le_add_diff_inverse2)
  show ?case
  proof (cases "i + length sep \<le> length s")
    case False
    then have "split_on sep (rev ?acc) (drop i s) = [drop start s]"
      using split_on_short [of "drop i s" sep "rev ?acc"] less.prems acc by simp
    with False show ?thesis by (subst split_version_loop.simps) simp
  next
    case True
    with assms(1) have lt: "i < length s" by (cases sep) auto
    obtain c cs where d: "drop i s = c # cs" using lt by (metis Cons_nth_drop_Suc)
    show ?thesis
    proof (cases "has_prefix (drop i s) sep")
      case pre: True
      let ?j = "i + length sep"
      let ?parts = "if ?acc \<noteq> [] then parts @ [?acc] else parts"
      have step: "split_version_loop s sep start i parts = split_version_loop s sep ?j ?j ?parts"
        using True pre by (subst split_version_loop.simps) (simp add: has_prefix_def Let_def)
      have dj: "drop ?j s = drop (length sep) (drop i s)" by (simp add: add.commute)
      have split: "split_on sep (rev ?acc) (drop i s) = ?acc # split_on sep [] (drop ?j s)"
        using pre d assms(1) dj by (subst split_on.simps) simp
      have "length s - ?j < length s - i" using lt assms(1) by (cases sep) auto
      from less.hyps [OF this, of ?j ?parts] True
      obtain start' parts' where "split_version_loop s sep ?j ?j ?parts = Some (start', parts')"
        "parts' @ nonempty_pieces [drop start' s] = ?parts @ nonempty_pieces (split_on sep [] (drop ?j s))"
        by auto
      moreover have "?parts @ nonempty_pieces X = parts @ nonempty_pieces (?acc # X)" for X
        by (simp add: nonempty_pieces_def)
      ultimately show ?thesis unfolding step split by metis
    next
      case npre: False
      have step: "split_version_loop s sep start i parts = split_version_loop s sep start (i + 1) parts"
        using True npre by (subst split_version_loop.simps) (simp add: has_prefix_def)
      have "take (i + 1 - start) (drop start s) = ?acc @ [c]"
      proof -
        have "i + 1 - start = Suc (i - start)" using less.prems by simp
        moreover have "drop start s ! (i - start) = c" using less.prems lt d
          by (simp add: nth_via_drop)
        moreover have "i - start < length (drop start s)" using less.prems lt by simp
        ultimately show ?thesis by (simp add: take_Suc_conv_app_nth)
      qed
      moreover have "drop (i + 1) s = cs" using d by (metis add.commute drop_Suc list.sel(3) plus_1_eq_Suc tl_drop drop_Suc)
      moreover have "split_on sep (rev ?acc) (drop i s) = split_on sep (c # rev ?acc) cs"
        using npre d by (subst split_on.simps) simp
      moreover have "length s - (i + 1) < length s - i" using lt by simp
      ultimately show ?thesis
        using less.hyps [of "i + 1" start parts] less.prems lt step by simp
    qed
  qed
qed

lemma split_version_string_eq_lemma:
  assumes "sep \<noteq> []"
  shows "split_version_string s sep = Some (filter (\<lambda>p. p \<noteq> []) (go_split s sep))"
proof (cases "s = []")
  case True
  then show ?thesis by (simp add: split_version_string_def go_split_def split_on.simps)
next
  case False
  obtain start parts where "split_version_loop s sep 0 0 [] = Some (start, parts)"
    "parts @ nonempty_pieces [drop start s] = nonempty_pieces (split_on sep [] s)"
    using split_version_loop_eq [OF assms, of 0 s 0 "[]"] by auto
  with False show ?thesis
    by (auto simp: split_version_string_def go_split_def nonempty_pieces_def split: if_splits)
qed

text \<open>
  splitVersionString returns for every non-empty separator, and returns the pieces of
  strings.Split that are not empty.
\<close>

theorem split_version_string_eq:
  assumes "sep \<noteq> []"
  shows "split_version_string s sep = Some (filter (\<lambda>p. p \<noteq> []) (go_split s sep))"
  using assms by (rule split_version_string_eq_lemma)

lemma split_version_string_eq_witness:
  "split_version_string ''a//b/'' ''/'' = Some [''a'', ''b'']"
  by (subst split_version_string_eq) (simp, code_simp)

section \<open>Parsing a version\<close>

record client_version =
  cv_implementation :: string
  cv_version :: string
  cv_major :: string
  cv_minor :: string
  cv_patch :: string

definition no_client_version :: client_version where
  "no_client_version =
     \<lparr>cv_implementation = [], cv_version = [], cv_major = [], cv_minor = [], cv_patch = []\<rparr>"

definition is_suffix_mark :: "char \<Rightarrow> bool" where
  "is_suffix_mark c = (c = CHR ''-'' \<or> c = CHR ''+'')"

text \<open>Remove the "v" prefix if present.\<close>

definition strip_v :: "string \<Rightarrow> string" where
  "strip_v s = (if s \<noteq> [] \<and> hd s = CHR ''v'' then tl s else s)"

text \<open>\<open>if len(parts) > i { ... = parts[i] }\<close>\<close>

definition piece_at :: "nat \<Rightarrow> string list \<Rightarrow> string" where
  "piece_at i parts = (if i < length parts then parts ! i else [])"

definition parse_execution_client_version :: "string \<Rightarrow> client_version option" where
  "parse_execution_client_version s =
     (if s = [] then Some no_client_version
      else case split_version_string s ''/'' of
        None \<Rightarrow> None
      | Some parts \<Rightarrow>
          if parts = [] then Some (no_client_version\<lparr>cv_implementation := s\<rparr>)
          else
            let implementation = parts ! 0
            in if length parts < 2 then Some (no_client_version\<lparr>cv_implementation := implementation\<rparr>)
               else
                 let raw = parts ! 1;
                     version = strip_v raw;
                     core = takeWhile (\<lambda>c. \<not> is_suffix_mark c) version
                 in case split_version_string core ''.'' of
                      None \<Rightarrow> None
                    | Some vparts \<Rightarrow>
                        Some \<lparr>cv_implementation = implementation, cv_version = version,
                              cv_major = piece_at 0 vparts, cv_minor = piece_at 1 vparts,
                              cv_patch = piece_at 2 vparts\<rparr>)"

section \<open>Properties\<close>

lemma client_label_identifiers:
  "\<forall>i \<in> set client_identifiers. i \<in> set AllClients"
  by code_simp

text \<open>
  ClientFromString returns a listed client, or for an unlisted one the name of 2 to 32
  characters from [a-z0-9_-] in front of its version; letter case does not matter; and the
  client found is contained in the string, with no identifier that comes before it in the
  list contained as well, so that a fork wins over the client it is built on.
\<close>

theorem client_from_string_sound:
  "client_from_string s \<in> set AllClients
     \<or> (let name = client_from_string s in
          2 \<le> length name \<and> length name \<le> 32 \<and> is_letter (hd name) \<and> list_all is_name_char name
          \<and> has_prefix (to_lower s) (name @ ''/''))"
  "client_from_string (to_lower s) = client_from_string s"
  "k < length client_identifiers \<Longrightarrow> str_contains (to_lower s) (client_identifiers ! k) \<Longrightarrow>
     \<exists>j \<le> k. client_from_string s = client_identifiers ! j
       \<and> str_contains (to_lower s) (client_identifiers ! j)
       \<and> (\<forall>i < j. \<not> str_contains (to_lower s) (client_identifiers ! i))"
proof -
  let ?P = "\<lambda>i. str_contains (to_lower s) i"
  show "client_from_string s \<in> set AllClients
     \<or> (let name = client_from_string s in
          2 \<le> length name \<and> length name \<le> 32 \<and> is_letter (hd name) \<and> list_all is_name_char name
          \<and> has_prefix (to_lower s) (name @ ''/''))"
  proof (cases "List.find ?P client_identifiers")
    case (Some i)
    then have "i \<in> set client_identifiers" by (auto simp: find_Some_iff)
    with Some client_label_identifiers show ?thesis by (simp add: client_from_string_def Let_def)
  next
    case None
    show ?thesis
    proof (cases "name_version_match (to_lower s)")
      case None': None
      have "ClientUnknown \<in> set AllClients" by (simp add: AllClients_def)
      with None None' show ?thesis by (simp add: client_from_string_def Let_def)
    next
      case (Some name)
      then have n: "name = takeWhile is_name_char (to_lower s)" "2 \<le> length name" "length name \<le> 32"
        "is_letter (hd name)" "\<exists>r. dropWhile is_name_char (to_lower s) = CHR ''/'' # r"
        by (auto simp: name_version_match_def Let_def split: if_splits list.splits)
      from n(5) obtain r where "dropWhile is_name_char (to_lower s) = CHR ''/'' # r" by blast
      then have "to_lower s = name @ CHR ''/'' # r"
        using takeWhile_dropWhile_id [of is_name_char "to_lower s"] n(1) by simp
      then have "has_prefix (to_lower s) (name @ ''/'')" by (simp add: has_prefix_iff)
      moreover have "list_all is_name_char name" using n(1) by (auto simp: list_all_iff dest: set_takeWhileD)
      ultimately show ?thesis
        using None Some n by (simp add: client_from_string_def Let_def)
    qed
  qed
  show "client_from_string (to_lower s) = client_from_string s"
    by (simp add: client_from_string_def)
  assume k: "k < length client_identifiers" "?P (client_identifiers ! k)"
  then obtain i where "List.find ?P client_identifiers = Some i"
    by (cases "List.find ?P client_identifiers") (auto simp: find_None_iff)
  then obtain j where j: "j < length client_identifiers" "i = client_identifiers ! j" "?P i"
    "\<forall>l < j. \<not> ?P (client_identifiers ! l)" "client_from_string s = i"
    by (auto simp: find_Some_iff client_from_string_def Let_def)
  with k(2) have "j \<le> k" by (meson not_less)
  with j show "\<exists>j \<le> k. client_from_string s = client_identifiers ! j
       \<and> ?P (client_identifiers ! j) \<and> (\<forall>i < j. \<not> ?P (client_identifiers ! i))" by blast
qed

lemma client_from_string_sound_witness:
  "client_from_string ''Tysm/v1.0 (Prysm fork)'' = ClientTysm"
proof -
  have "\<exists>j \<le> 0. client_from_string ''Tysm/v1.0 (Prysm fork)'' = client_identifiers ! j
       \<and> str_contains (to_lower ''Tysm/v1.0 (Prysm fork)'') (client_identifiers ! j)
       \<and> (\<forall>i < j. \<not> str_contains (to_lower ''Tysm/v1.0 (Prysm fork)'') (client_identifiers ! i))"
    by (rule client_from_string_sound(3); code_simp)
  then show ?thesis by (simp add: client_identifiers_def)
qed

lemma go_split_pieces:
  assumes "sep \<notin> set a"
  shows "go_split (a @ sep # b) [sep] = a # go_split b [sep]" and "go_split a [sep] = [a]"
  using assms by (simp_all add: go_split_def split_on_char_append split_on_no_sep)

lemma takeWhile_suffix:
  assumes "\<forall>c \<in> set core. \<not> is_suffix_mark c" "suf = [] \<or> is_suffix_mark (hd suf)"
  shows "takeWhile (\<lambda>c. \<not> is_suffix_mark c) (core @ suf) = core"
  using assms by (cases suf) (auto simp: takeWhile_append2)

text \<open>
  ParseExecutionClientVersion reads back the parts of every version string of the form
  name/v?major.minor.patch with an optional suffix behind a dash or a plus and any further
  parts behind slashes.
\<close>

theorem parse_execution_client_version_parts:
  assumes "name \<noteq> []" "CHR ''/'' \<notin> set name"
    and "major \<noteq> []" "minor \<noteq> []" "patch \<noteq> []" "hd major \<noteq> CHR ''v''"
    and "\<forall>c \<in> set (major @ minor @ patch). c \<noteq> CHR ''/'' \<and> c \<noteq> CHR ''.'' \<and> \<not> is_suffix_mark c"
    and "suf = [] \<or> is_suffix_mark (hd suf)" "CHR ''/'' \<notin> set suf"
    and "v = [] \<or> v = ''v''" "rest = [] \<or> hd rest = CHR ''/''"
  shows "parse_execution_client_version
           (name @ ''/'' @ v @ major @ ''.'' @ minor @ ''.'' @ patch @ suf @ rest)
         = Some \<lparr>cv_implementation = name,
                 cv_version = major @ ''.'' @ minor @ ''.'' @ patch @ suf,
                 cv_major = major, cv_minor = minor, cv_patch = patch\<rparr>"
proof -
  have dots: "CHR ''.'' \<notin> set major" "CHR ''.'' \<notin> set minor" "CHR ''.'' \<notin> set patch"
    using assms(7) by auto
  have v: "CHR ''/'' \<notin> set v" using assms(10) by auto
  define core where "core = major @ ''.'' @ minor @ ''.'' @ patch"
  define raw where "raw = v @ core @ suf"
  have raw: "CHR ''/'' \<notin> set raw" "raw \<noteq> []"
    using assms(7,9) v by (auto simp: raw_def core_def)
  have nosuf: "\<forall>c \<in> set core. \<not> is_suffix_mark c"
    using assms(7) by (auto simp: core_def is_suffix_mark_def)
  have core: "split_version_string core ''.'' = Some [major, minor, patch]"
    using assms(3-5) dots by (simp add: split_version_string_eq_lemma core_def go_split_pieces)
  have version: "strip_v raw = core @ suf"
    using assms(3,6,10) by (cases major) (auto simp: raw_def core_def strip_v_def)
  obtain more where parts: "split_version_string (name @ ''/'' @ raw @ rest) ''/'' = Some (name # raw # more)"
  proof (cases rest)
    case Nil
    with that raw assms(1,2) show ?thesis by (simp add: split_version_string_eq_lemma go_split_pieces)
  next
    case (Cons c r)
    with assms have "c = CHR ''/''" by simp
    with Cons that raw assms(1,2) show ?thesis
      by (simp add: split_version_string_eq_lemma go_split_pieces)
  qed
  have tw: "takeWhile (\<lambda>c. \<not> is_suffix_mark c) (core @ suf) = core"
    using nosuf assms(8) by (rule takeWhile_suffix)
  have whole: "name @ ''/'' @ v @ major @ ''.'' @ minor @ ''.'' @ patch @ suf @ rest = name @ ''/'' @ raw @ rest"
    and vers: "major @ ''.'' @ minor @ ''.'' @ patch @ suf = core @ suf"
    by (simp_all add: raw_def core_def)
  show ?thesis
    unfolding whole vers parse_execution_client_version_def parts Let_def option.case
    by (simp add: version tw core piece_at_def)
qed

lemma parse_execution_client_version_parts_witness:
  "parse_execution_client_version ''Geth/v1.16.4-stable-41714b49/linux-amd64/go1.24.7''
     = Some \<lparr>cv_implementation = ''Geth'', cv_version = ''1.16.4-stable-41714b49'',
             cv_major = ''1'', cv_minor = ''16'', cv_patch = ''4''\<rparr>"
  using parse_execution_client_version_parts [of "''Geth''" "''1''" "''16''" "''4''" "''-stable-41714b49''"
    "''v''" "''/linux-amd64/go1.24.7''"]
  by (simp add: is_suffix_mark_def)

end
