(* ===== verification/CrawlerMeters.thy ===== *)
theory CrawlerMeters
  imports CrawlerConn Clients Meters
begin

text \<open>
  The metrics of the crawler (\<open>crawler/metrics.go\<close>) and the code that feeds them: \<open>sendRequest\<close>, the two
  callbacks the wiring adds, a dialer's turn and the gauge of the dial queue. The default registry of
  Prometheus is a registerer as in \<open>Cache\<close>. The emitter calls a callback once per event; the agent
  version is read again by the callback, so it is an argument.
\<close>

section \<open>The vectors\<close>

datatype crawler_metric = NodesProcessed | PendingDials | FailedCrawls | SuccessfulCrawls | FailedRequests

fun crawler_metric_name :: "crawler_metric \<Rightarrow> string" where
  "crawler_metric_name NodesProcessed = ''nodes_processed_total''"
| "crawler_metric_name PendingDials = ''pending_dials''"
| "crawler_metric_name FailedCrawls = ''failed_total''"
| "crawler_metric_name SuccessfulCrawls = ''successful_total''"
| "crawler_metric_name FailedRequests = ''failed_requests_total''"

fun crawler_labels :: "crawler_metric \<Rightarrow> string list" where
  "crawler_labels NodesProcessed = []"
| "crawler_labels PendingDials = []"
| "crawler_labels FailedCrawls = [''reason'']"
| "crawler_labels SuccessfulCrawls = [''agent'']"
| "crawler_labels FailedRequests = [''protocol'', ''error'']"

type_synonym 'f crawler_meters = "(crawler_metric, 'f) meters"
type_synonym 'f crawler_meter_act = "(crawler_metric, 'f) meter_act"

definition crawler_collectors :: "string \<Rightarrow> collector list" where
  "crawler_collectors namespace =
     map (\<lambda>k. vec_collector namespace (crawler_metric_name k) (crawler_labels k))
       [NodesProcessed, PendingDials, FailedCrawls, SuccessfulCrawls, FailedRequests]"

definition new_crawler_metrics :: "'r registerer \<Rightarrow> string \<Rightarrow> 'r \<Rightarrow> (fault + 'f crawler_meters) \<times> 'r" where
  "new_crawler_metrics R namespace r =
     (case must_register_each R (crawler_collectors namespace) r of
        (Inl f, r') \<Rightarrow> (Inl f, r')
      | (Inr _, r') \<Rightarrow> (Inr new_meters, r'))"

text \<open>\<open>New\<close>, with the metrics it makes.\<close>

definition new_crawler_metered ::
  "'r registerer \<Rightarrow> crawl_config \<Rightarrow> 'r \<Rightarrow> (fault + 'n crawler \<times> 'f crawler_meters) \<times> 'r" where
  "new_crawler_metered R cfg r =
     (case new_crawler_metrics R (cfg_namespace cfg) r of
        (Inl f, r') \<Rightarrow> (Inl f, r')
      | (Inr m, r') \<Rightarrow> (Inr (new_crawler cfg, m), r'))"

definition record_node_processed :: "'f crawler_meters \<Rightarrow> 'f crawler_meters" where
  "record_node_processed m = count_up NodesProcessed [] m"

definition record_pending_dials :: "int \<Rightarrow> 'f crawler_meters \<Rightarrow> 'f crawler_meters" where
  "record_pending_dials n m = gauge_to PendingDials [] (GaugeCount n) m"

definition record_failed_crawl :: "vec_lib \<Rightarrow> string \<Rightarrow> 'f crawler_meter_act" where
  "record_failed_crawl V reason = with_label_values V crawler_labels FailedCrawls [reason] (count_up FailedCrawls [reason])"

definition record_successful_crawl :: "vec_lib \<Rightarrow> string \<Rightarrow> 'f crawler_meter_act" where
  "record_successful_crawl V agent =
     with_label_values V crawler_labels SuccessfulCrawls [agent] (count_up SuccessfulCrawls [agent])"

definition record_failed_request :: "vec_lib \<Rightarrow> string \<Rightarrow> string \<Rightarrow> 'f crawler_meter_act" where
  "record_failed_request V protocol error_type =
     with_label_values V crawler_labels FailedRequests [protocol, error_type] (count_up FailedRequests [protocol, error_type])"

section \<open>Where they are fed\<close>

text \<open>\<open>sendRequest\<close>: \<open>answer\<close> is what the request layer returned, always a \<open>RequestError\<close> when it failed.\<close>

definition send_request_counted ::
  "vec_lib \<Rightarrow> string \<Rightarrow> request_error + 'o \<Rightarrow> ('f crawler_meters, fault, request_error + 'o) act" where
  "send_request_counted V proto answer =
     (case answer of
        Inl e \<Rightarrow> act_bind (record_failed_request V proto (rerr_type e)) (\<lambda>_. act_return (Inl e))
      | Inr rsp \<Rightarrow> act_return (Inr rsp))"

definition on_failed_crawl :: "vec_lib \<Rightarrow> crawl_error \<Rightarrow> 'f crawler_meter_act" where
  "on_failed_crawl V err = record_failed_crawl V (ce_msg err)"

definition on_successful_crawl :: "vec_lib \<Rightarrow> string \<Rightarrow> 'f crawler_meter_act" where
  "on_successful_crawl V agent_version = record_successful_crawl V (client_from_string agent_version)"

definition event_metrics :: "vec_lib \<Rightarrow> (string \<Rightarrow> string) \<Rightarrow> 'n crawl_event \<Rightarrow> 'f crawler_meter_act" where
  "event_metrics V agent_of e =
     (case e of
        EvFailed _ _ err \<Rightarrow> on_failed_crawl V err
      | EvSuccess s \<Rightarrow> on_successful_crawl V (agent_of (sc_peer_id s))
      | _ \<Rightarrow> act_return ())"

text \<open>
  A dialer that took a node from its channel, if there is one or the channel is closed. \<open>connect\<close> is
  what the host's connect returned and \<open>canceled\<close> whether that error is the cancelled context.
\<close>

datatype dialer_turn = DialerWaits | DialerExits | DialerGoesOn

definition dial_next ::
  "('n, 'k) node_lib \<Rightarrow> (bytes \<Rightarrow> string) \<Rightarrow> (bytes \<Rightarrow> string) \<Rightarrow> (bytes \<Rightarrow> string) \<Rightarrow> (int \<Rightarrow> int \<Rightarrow> int) \<Rightarrow> int \<Rightarrow> bool \<Rightarrow>
     string option \<Rightarrow> bool \<Rightarrow> string option \<Rightarrow> ('n connectable_peer \<Rightarrow> string) \<Rightarrow>
     'n crawler \<times> 'f crawler_meters \<Rightarrow> dialer_turn \<times> 'n crawler \<times> 'f crawler_meters" where
  "dial_next L show_ip hex_show digest_show float_mul now connected connect canceled add_protocols peer_id_of = (\<lambda>(c, m).
     case cr_dial_queue c of
       [] \<Rightarrow> (if cr_closed c then DialerExits else DialerWaits, c, m)
     | p # q \<Rightarrow>
         (let c1 = c\<lparr>cr_dial_queue := q\<rparr>;
              m1 = record_pending_dials (int (length q)) (record_node_processed m)
          in if cr_shutdown c1 then (DialerExits, c1, m1)
             else
               case connect_to_peer L show_ip hex_show digest_show float_mul now connected connect add_protocols
                      (peer_id_of p) (cp_enode p) c1 of
                 (Inl _, c2) \<Rightarrow> (if connect \<noteq> None \<and> canceled then DialerExits else DialerGoesOn, c2, m1)
               | (Inr _, c2) \<Rightarrow> (DialerGoesOn, c2, m1)))"

text \<open>The part of \<open>handleNewDiscoveryNode\<close> before the send sets the gauge as well.\<close>

definition new_node_metered ::
  "('n, 'k) node_lib \<Rightarrow> (bytes \<Rightarrow> string) \<Rightarrow> (bytes \<Rightarrow> string) \<Rightarrow> (bytes \<Rightarrow> string) \<Rightarrow> 'n option \<Rightarrow>
     ('n crawler \<times> 'f crawler_meters, fault, unit) act" where
  "new_node_metered L show_ip hex_show digest_show node = (\<lambda>(c, m).
     case new_node_begin L show_ip hex_show digest_show node c of
       Inl f \<Rightarrow> (Inl f, c, m)
     | Inr None \<Rightarrow> (Inr (), c, m)
     | Inr (Some p) \<Rightarrow> (Inr (), send_dial p c, record_pending_dials (int (length (cr_dial_queue c))) m))"

section \<open>Registration\<close>

lemma crawler_collectors_distinct: "distinct (crawler_collectors namespace)"
  by (simp add: crawler_collectors_def vec_collector_def)

text \<open>Two collectors of one set differ in their names, so only the registry can refuse one.\<close>

lemma new_crawler_metrics_ok:
  assumes "registerer_lawful R" "\<forall>c \<in> set (crawler_collectors namespace). \<not> rg_has R r c"
  shows "\<exists>r'. new_crawler_metrics R namespace r = (Inr new_meters, r') \<and>
           rg_has R r' = (\<lambda>c. rg_has R r c \<or> c \<in> set (crawler_collectors namespace))"
proof -
  obtain r' where "register_each R (crawler_collectors namespace) r = (None, r')"
    and "rg_has R r' = (\<lambda>c. rg_has R r c \<or> c \<in> set (crawler_collectors namespace))"
    using register_each_new [OF assms(1) crawler_collectors_distinct assms(2)] by blast
  then show ?thesis by (simp add: new_crawler_metrics_def must_register_each_def)
qed

text \<open>
  \<open>New\<close> can be called once per namespace in a process. On a registry without its five collectors it
  registers exactly these and gives a crawler with all counters at zero; the next \<open>New\<close> with that
  namespace panics, whether or not the first crawler was stopped, as nothing unregisters.
\<close>

theorem crawler_namespace_once:
  assumes "registerer_lawful (R :: 'r registerer)"
    and "\<forall>c \<in> set (crawler_collectors (cfg_namespace cfg)). \<not> rg_has R r c"
    and "cfg_namespace cfg' = cfg_namespace cfg"
  shows "\<exists>r1. new_crawler_metered R cfg r = (Inr (new_crawler cfg :: 'n crawler, new_meters :: 'f crawler_meters), r1) \<and>
           rg_has R r1 = (\<lambda>c. rg_has R r c \<or> c \<in> set (crawler_collectors (cfg_namespace cfg))) \<and>
           panics (fst (new_crawler_metered R cfg' r1 :: (fault + 'n crawler \<times> 'f crawler_meters) \<times> 'r))"
proof -
  let ?cs = "crawler_collectors (cfg_namespace cfg)"
  obtain r1 where r1: "new_crawler_metrics R (cfg_namespace cfg) r = (Inr (new_meters :: 'f crawler_meters), r1)"
    "rg_has R r1 = (\<lambda>c. rg_has R r c \<or> c \<in> set ?cs)"
    using new_crawler_metrics_ok [OF assms(1,2)] by blast
  obtain c cs where cs: "?cs = c # cs" by (simp add: crawler_collectors_def)
  then have "rg_has R r1 c" using r1(2) by simp
  then obtain e where "rg_register R c r1 = (Some e, r1)" using lawful_register_known [OF assms(1)] by blast
  then have "panics (fst (new_crawler_metered R cfg' r1 :: (fault + 'n crawler \<times> 'f crawler_meters) \<times> 'r))"
    by (simp add: new_crawler_metered_def new_crawler_metrics_def must_register_each_def cs assms(3))
  with r1 show ?thesis by (auto simp: new_crawler_metered_def)
qed

lemma crawler_namespace_once_witness:
  "\<exists>r1. panics (fst (new_crawler_metered demo_registerer demo_config r1 :: (fault + nat crawler \<times> nat crawler_meters) \<times> _)) \<and>
     (\<forall>c. rg_has demo_registerer r1 c = (c \<in> set (crawler_collectors (cfg_namespace demo_config))))"
proof -
  have "\<forall>c \<in> set (crawler_collectors (cfg_namespace demo_config)). \<not> rg_has demo_registerer [] c"
    by (simp add: demo_registerer_def)
  from crawler_namespace_once [OF demo_registerer_lawful this refl, where ?'n = nat and ?'f = nat]
  obtain r1 where p: "panics (fst (new_crawler_metered demo_registerer demo_config r1 :: (fault + nat crawler \<times> nat crawler_meters) \<times> _))"
    and has: "rg_has demo_registerer r1 = (\<lambda>c. rg_has demo_registerer [] c \<or> c \<in> set (crawler_collectors (cfg_namespace demo_config)))"
    by blast
  have "\<not> rg_has demo_registerer [] c" for c by (simp add: demo_registerer_def)
  with p has show ?thesis by (intro exI [of _ r1]) simp
qed

section \<open>The books of the crawls\<close>

lemma ascii_client: "ascii (client_from_string s)"
proof -
  have known: "\<forall>c \<in> set AllClients. ascii c" by code_simp
  have name: "is_name_char c \<Longrightarrow> of_char c < (0x80 :: nat)" for c
    by (auto simp: is_name_char_def is_letter_def is_digit_def Let_def)
  from client_from_string_sound(1) [of s] show ?thesis
  proof
    assume "client_from_string s \<in> set AllClients"
    with known show ?thesis by blast
  next
    assume "let name = client_from_string s in 2 \<le> length name \<and> length name \<le> 32 \<and> is_letter (hd name) \<and>
      list_all is_name_char name \<and> has_prefix (to_lower s) (name @ ''/'')"
    then have "list_all is_name_char (client_from_string s)" by (simp add: Let_def)
    with name show ?thesis by (auto simp: ascii_def list_all_iff)
  qed
qed

definition failed_reasons :: "'n crawl_event list \<Rightarrow> string list" where
  "failed_reasons es = concat (map (\<lambda>e. case e of EvFailed _ _ err \<Rightarrow> [ce_msg err] | _ \<Rightarrow> []) es)"

definition success_agents :: "(string \<Rightarrow> string) \<Rightarrow> 'n crawl_event list \<Rightarrow> string list" where
  "success_agents agent_of es =
     concat (map (\<lambda>e. case e of EvSuccess s \<Rightarrow> [client_from_string (agent_of (sc_peer_id s))] | _ \<Rightarrow> []) es)"

definition events_metrics :: "vec_lib \<Rightarrow> (string \<Rightarrow> string) \<Rightarrow> 'n crawl_event list \<Rightarrow> 'f crawler_meter_act" where
  "events_metrics V agent_of es = act_list (map (event_metrics V agent_of) es)"

lemma event_metrics_ok:
  assumes "lawful_vectors V" "\<forall>r \<in> set (failed_reasons [e]). utf8_valid r"
  shows "\<exists>m'. event_metrics V agent_of e m = (Inr (), m') \<and>
     (\<forall>k vals. mt_count m' k vals = mt_count m k vals +
        (if k = FailedCrawls then count_list (map (\<lambda>r. [r]) (failed_reasons [e])) vals
         else if k = SuccessfulCrawls then count_list (map (\<lambda>a. [a]) (success_agents agent_of [e])) vals else 0))"
  using assms utf8_valid_ascii [OF ascii_client]
  by (cases e) (auto simp: event_metrics_def on_failed_crawl_def on_successful_crawl_def record_failed_crawl_def
      record_successful_crawl_def failed_reasons_def success_agents_def count_up_def with_label_values_ok)

lemma events_Cons:
  "failed_reasons (e # es) = failed_reasons [e] @ failed_reasons es"
  "success_agents agent_of (e # es) = success_agents agent_of [e] @ success_agents agent_of es"
  by (simp_all add: failed_reasons_def success_agents_def)

lemma events_metrics_count:
  assumes "lawful_vectors V" "\<forall>r \<in> set (failed_reasons es). utf8_valid r"
  shows "\<exists>m'. events_metrics V agent_of es m = (Inr (), m') \<and>
     (\<forall>k vals. mt_count m' k vals = mt_count m k vals +
        (if k = FailedCrawls then count_list (map (\<lambda>r. [r]) (failed_reasons es)) vals
         else if k = SuccessfulCrawls then count_list (map (\<lambda>a. [a]) (success_agents agent_of es)) vals else 0))"
  using assms(2)
proof (induction es arbitrary: m)
  case Nil
  then show ?case by (simp add: events_metrics_def failed_reasons_def success_agents_def)
next
  case (Cons e es)
  obtain m1 where m1: "event_metrics V agent_of e m = (Inr (), m1)"
    "\<And>k vals. mt_count m1 k vals = mt_count m k vals +
        (if k = FailedCrawls then count_list (map (\<lambda>r. [r]) (failed_reasons [e])) vals
         else if k = SuccessfulCrawls then count_list (map (\<lambda>a. [a]) (success_agents agent_of [e])) vals else 0)"
    using event_metrics_ok [OF assms(1), of e agent_of m] Cons.prems events_Cons(1) [of e es] by auto
  obtain m2 where m2: "events_metrics V agent_of es m1 = (Inr (), m2)"
    "\<And>k vals. mt_count m2 k vals = mt_count m1 k vals +
        (if k = FailedCrawls then count_list (map (\<lambda>r. [r]) (failed_reasons es)) vals
         else if k = SuccessfulCrawls then count_list (map (\<lambda>a. [a]) (success_agents agent_of es)) vals else 0)"
    using Cons.IH [of m1] Cons.prems events_Cons(1) [of e es] by auto
  show ?case
    using m1 m2 by (auto simp: events_metrics_def act_bind_Inr events_Cons(1) [of e es] events_Cons(2) [of agent_of e es])
qed

text \<open>
  the crawl counters balance with the emitted events, whatever they are: if the reported messages are
  valid UTF-8, no callback panics, each series of \<open>failed_total\<close> grew by the failures with that message
  and each of \<open>successful_total\<close> by the successes of that client (the client names are always ASCII),
  and no other counter moved.
\<close>

theorem crawl_books_balance:
  assumes "lawful_vectors V" "\<forall>r \<in> set (failed_reasons es). utf8_valid r"
  shows "\<exists>m'. events_metrics V agent_of es m = (Inr (), m') \<and>
     (\<forall>reason. mt_count m' FailedCrawls [reason] = mt_count m FailedCrawls [reason] + count_list (failed_reasons es) reason) \<and>
     (\<forall>agent. mt_count m' SuccessfulCrawls [agent] =
        mt_count m SuccessfulCrawls [agent] + count_list (success_agents agent_of es) agent) \<and>
     mt_count m' NodesProcessed = mt_count m NodesProcessed \<and> mt_count m' FailedRequests = mt_count m FailedRequests"
proof -
  have single: "count_list (map (\<lambda>r. [r]) rs) [x] = count_list rs x" for rs and x :: string
    by (induction rs) auto
  obtain m' where m': "events_metrics V agent_of es m = (Inr (), m')"
    and "\<And>k vals. mt_count m' k vals = mt_count m k vals +
        (if k = FailedCrawls then count_list (map (\<lambda>r. [r]) (failed_reasons es)) vals
         else if k = SuccessfulCrawls then count_list (map (\<lambda>a. [a]) (success_agents agent_of es)) vals else 0)"
    using events_metrics_count [OF assms] by blast
  then show ?thesis by (intro exI [of _ m']) (auto simp: single fun_eq_iff)
qed

lemma crawl_books_balance_witness:
  "\<exists>m'. events_metrics demo_vectors (\<lambda>_. ''Lighthouse/v5'') [EvFailed ''p'' None ErrCrawlTooSoon, EvFailed ''q'' (Some (7 :: nat)) ErrCrawlTooSoon]
     (new_meters :: nat crawler_meters) = (Inr (), m') \<and> mt_count m' FailedCrawls [''too soon''] = 2"
proof -
  let ?es = "[EvFailed ''p'' None ErrCrawlTooSoon, EvFailed ''q'' (Some (7 :: nat)) ErrCrawlTooSoon]"
  have r: "failed_reasons ?es = [''too soon'', ''too soon'']" by (simp add: failed_reasons_def ErrCrawlTooSoon_def)
  then have "\<forall>r \<in> set (failed_reasons ?es). utf8_valid r" by (simp add: utf8_valid_def)
  from crawl_books_balance [OF demo_vectors_lawful this, of "\<lambda>_. ''Lighthouse/v5''" "new_meters :: nat crawler_meters"]
  obtain m' where "events_metrics demo_vectors (\<lambda>_. ''Lighthouse/v5'') ?es (new_meters :: nat crawler_meters) = (Inr (), m')"
    and "\<forall>reason. mt_count m' FailedCrawls [reason] =
      mt_count (new_meters :: nat crawler_meters) FailedCrawls [reason] + count_list (failed_reasons ?es) reason" by blast
  then show ?thesis by (intro exI [of _ m']) (simp add: r new_meters_def)
qed

section \<open>The series a peer can make\<close>

definition claims_digest :: "string \<Rightarrow> status_v1 \<Rightarrow> conn_world \<Rightarrow> bytes \<Rightarrow> bool" where
  "claims_digest sfx ours w d =
     (w_identified w \<and> (case w_our_status w of None \<Rightarrow> True | Some _ \<Rightarrow> False) \<and>
      (case ask_status (w_answers w) sfx
              (choose_protocol (w_answers w) (StatusV2ProtocolID sfx) (StatusV1ProtocolID sfx)) ours of
         Inl _ \<Rightarrow> False | Inr s \<Rightarrow> sv_fork_digest s = d))"

definition mismatch_error :: "(bytes \<Rightarrow> string) \<Rightarrow> bytes \<Rightarrow> bytes \<Rightarrow> crawl_error" where
  "mismatch_error digest_show ours d =
     with_details ErrCrawlStatusForkDigest (''ours '' @ digest_show ours @ '' != theirs '' @ digest_show d)"

fun crawl_peers ::
  "('n, 'k) node_lib \<Rightarrow> (bytes \<Rightarrow> string) \<Rightarrow> (bytes \<Rightarrow> string) \<Rightarrow> (int \<Rightarrow> int \<Rightarrow> int) \<Rightarrow> string \<Rightarrow>
     (string \<times> conn_world) list \<Rightarrow> 'n crawler \<Rightarrow> 'n crawler" where
  "crawl_peers L show_ip digest_show float_mul sfx [] c = c"
| "crawl_peers L show_ip digest_show float_mul sfx ((pid, w) # ps) c =
     crawl_peers L show_ip digest_show float_mul sfx ps
       (handle_peer_connected L show_ip digest_show float_mul w sfx pid c)"

definition failures :: "'n crawler \<Rightarrow> crawl_error list" where
  "failures c = concat (map (\<lambda>e. case e of EvFailed _ _ err \<Rightarrow> [err] | _ \<Rightarrow> []) (cr_events c))"

lemma failed_reasons_failures: "failed_reasons (cr_events c) = map ce_msg (failures c)"
proof -
  have "failed_reasons es = map ce_msg (concat (map (\<lambda>e. case e of EvFailed _ _ err \<Rightarrow> [err] | _ \<Rightarrow> []) es))"
    for es :: "'n crawl_event list"
    by (induction es) (auto simp: failed_reasons_def split: crawl_event.splits)
  then show ?thesis by (simp add: failures_def)
qed

lemma mismatched_peer:
  assumes "\<not> cr_shutdown c" "pid \<notin> set (cr_recent c)" "claims_digest sfx (cr_status c) w d" "d \<noteq> sv_fork_digest (cr_status c)"
  shows "failures (handle_peer_connected L show_ip digest_show float_mul w sfx pid c) =
           failures c @ [mismatch_error digest_show (sv_fork_digest (cr_status c)) d] \<and>
         cr_recent (handle_peer_connected L show_ip digest_show float_mul w sfx pid c) = pid # cr_recent c \<and>
         cr_shutdown (handle_peer_connected L show_ip digest_show float_mul w sfx pid c) = cr_shutdown c \<and>
         cr_status (handle_peer_connected L show_ip digest_show float_mul w sfx pid c) = cr_status c"
proof -
  obtain s where s: "ask_status (w_answers w) sfx (choose_protocol (w_answers w) (StatusV2ProtocolID sfx) (StatusV1ProtocolID sfx))
      (cr_status c) = Inr s" "sv_fork_digest s = d" "w_our_status w = None" "w_identified w"
    using assms(3) by (auto simp: claims_digest_def split: sum.splits option.splits)
  then show ?thesis using assms(1,2,4)
    by (simp add: handle_peer_connected_def crawl_status_def request_status_from_peer_def add_recent_def emit_crawl_def
        handle_crawl_failure_def fail_crawl_def is_retryable_error_def mismatch_error_def with_details_def
        crawl_error_defs failures_def Let_def)
qed

lemma mismatched_peers:
  assumes "\<not> cr_shutdown c" "distinct (map fst ps)" "\<forall>pid \<in> set (map fst ps). pid \<notin> set (cr_recent c)"
    and "list_all2 (claims_digest sfx (cr_status c)) (map snd ps) ds" "sv_fork_digest (cr_status c) \<notin> set ds"
  shows "failures (crawl_peers L show_ip digest_show float_mul sfx ps c) =
           failures c @ map (mismatch_error digest_show (sv_fork_digest (cr_status c))) ds"
  using assms
proof (induction ps arbitrary: c ds)
  case (Cons p ps)
  obtain pid w where p: "p = (pid, w)" by (cases p)
  obtain d ds' where ds: "ds = d # ds'" "claims_digest sfx (cr_status c) w d"
    "list_all2 (claims_digest sfx (cr_status c)) (map snd ps) ds'"
    using Cons.prems(4) p by (auto simp: list_all2_Cons1)
  let ?c = "handle_peer_connected L show_ip digest_show float_mul w sfx pid c"
  have d: "d \<noteq> sv_fork_digest (cr_status c)" using Cons.prems(5) ds(1) by auto
  have pid: "pid \<notin> set (cr_recent c)" using Cons.prems(3) p by simp
  note one = mismatched_peer [OF Cons.prems(1) pid ds(2) d, of L show_ip digest_show float_mul]
  have "failures (crawl_peers L show_ip digest_show float_mul sfx ps ?c) =
      failures ?c @ map (mismatch_error digest_show (sv_fork_digest (cr_status ?c))) ds'"
    using Cons.prems one ds p by (intro Cons.IH) auto
  with one show ?case by (simp add: p ds)
qed simp

text \<open>
  C39: the reasons of failed crawls are the peers' to choose. The callback counts by the message and
  not by the type, and the message of a fork digest mismatch has both digests in it: peers that each
  claim a digest that is not ours leave one series of \<open>failed_total\<close> per digest, though all their
  errors have the one type \<open>network_mismatch\<close>.
\<close>

theorem failed_series_per_digest:
  assumes "cr_events c = []" "\<not> cr_shutdown c" "distinct (map fst ps)" "\<forall>pid \<in> set (map fst ps). pid \<notin> set (cr_recent c)"
    and "list_all2 (claims_digest sfx (cr_status c)) (map snd ps) ds" "sv_fork_digest (cr_status c) \<notin> set ds"
    and "lawful_vectors V" "\<forall>d. ascii (digest_show d)" "inj_on digest_show (set ds)"
  shows "\<exists>m. events_metrics V agent_of (cr_events (crawl_peers L show_ip digest_show float_mul sfx ps c))
       (new_meters :: 'f crawler_meters) = (Inr (), m) \<and>
     card {reason. mt_count m FailedCrawls [reason] \<noteq> 0} = card (set ds) \<and>
     ce_type ` set (failures (crawl_peers L show_ip digest_show float_mul sfx ps c)) \<subseteq> {ErrCrawlNetworkMismatchType}"
proof -
  let ?c = "crawl_peers L show_ip digest_show float_mul sfx ps c"
  let ?err = "mismatch_error digest_show (sv_fork_digest (cr_status c))"
  have f: "failures ?c = map ?err ds" and r: "failed_reasons (cr_events ?c) = map (ce_msg \<circ> ?err) ds"
    using mismatched_peers [OF assms(2-6), of L show_ip digest_show float_mul] assms(1)
    by (simp_all add: failed_reasons_failures failures_def)
  have "\<forall>r \<in> set (failed_reasons (cr_events ?c)). utf8_valid r"
    using assms(8) by (auto simp: r mismatch_error_def with_details_def crawl_error_defs intro!: utf8_valid_ascii)
      (simp_all add: ascii_def)
  from events_metrics_count [OF assms(7) this, of agent_of "new_meters :: 'f crawler_meters"] obtain m
    where m: "events_metrics V agent_of (cr_events ?c) new_meters = (Inr (), m :: 'f crawler_meters)"
      "\<And>k vals. mt_count m k vals = mt_count (new_meters :: 'f crawler_meters) k vals +
        (if k = FailedCrawls then count_list (map (\<lambda>r. [r]) (failed_reasons (cr_events ?c))) vals
         else if k = SuccessfulCrawls then count_list (map (\<lambda>a. [a]) (success_agents agent_of (cr_events ?c))) vals else 0)"
    by blast
  have series: "{reason. mt_count m FailedCrawls [reason] \<noteq> 0} = (ce_msg \<circ> ?err) ` set ds"
    by (auto simp: m(2) new_meters_def r count_list_0_iff)
  have "inj_on (ce_msg \<circ> ?err) (set ds)"
    using assms(9) by (auto simp: inj_on_def mismatch_error_def with_details_def)
  then have "card {reason. mt_count m FailedCrawls [reason] \<noteq> 0} = card (set ds)"
    unfolding series by (rule card_image)
  moreover have "ce_type ` set (failures ?c) \<subseteq> {ErrCrawlNetworkMismatchType}"
    by (auto simp: f mismatch_error_def with_details_def crawl_error_defs)
  ultimately show ?thesis using m(1) by (intro exI [of _ m] conjI)
qed

text \<open>Three peers with three digests; the digests print as one character per byte.\<close>

definition claim_world :: "u8 \<Rightarrow> conn_world" where
  "claim_world b = demo_world\<lparr>w_answers := demo_answers\<lparr>pa_status2 := (\<lambda>s. Inr (s\<lparr>s2_fork_digest := [b]\<rparr>))\<rparr>\<rparr>"

definition byte_show :: "bytes \<Rightarrow> string" where
  "byte_show = map (\<lambda>b. if b = 1 then CHR ''a'' else if b = 2 then CHR ''b'' else CHR ''c'')"

lemma failed_series_per_digest_witness:
  "\<exists>m. events_metrics demo_vectors (\<lambda>_. ''x'') (cr_events (crawl_peers demo_nodes (\<lambda>_. ''10.0.0.1'') byte_show (*) ''ssz_snappy''
        [(''p'', claim_world 1), (''q'', claim_world 2), (''r'', claim_world 3)] (new_crawler demo_config)))
      (new_meters :: nat crawler_meters) = (Inr (), m) \<and>
     card {reason. mt_count m FailedCrawls [reason] \<noteq> 0} = 3"
proof -
  let ?c = "new_crawler demo_config :: nat crawler"
  let ?ps = "[(''p'', claim_world 1), (''q'', claim_world 2), (''r'', claim_world 3)]"
  let ?ds = "[[1], [2], [3]] :: bytes list"
  have claims: "claims_digest ''ssz_snappy'' (cr_status ?c) (claim_world b) [b]" for b
    by (simp add: claims_digest_def claim_world_def demo_world_def demo_answers_def choose_protocol_def ask_status_def
        protocol_id_defs req_protocol_def status_to_v1_def)
  have "cr_events ?c = []" "\<not> cr_shutdown ?c" "distinct (map fst ?ps)" "\<forall>pid \<in> set (map fst ?ps). pid \<notin> set (cr_recent ?c)"
    by (simp_all add: new_crawler_def)
  moreover have "list_all2 (claims_digest ''ssz_snappy'' (cr_status ?c)) (map snd ?ps) ?ds" by (simp add: claims)
  moreover have "sv_fork_digest (cr_status ?c) \<notin> set ?ds" by (simp add: new_crawler_def zero_status_def eval_nat_numeral)
  moreover note demo_vectors_lawful
  moreover have "\<forall>d. ascii (byte_show d)"
  proof
    show "ascii (byte_show d)" for d by (induction d) (simp_all add: ascii_def byte_show_def)
  qed
  moreover have "inj_on byte_show (set ?ds)" by (simp add: inj_on_def byte_show_def)
  ultimately have "\<exists>m. events_metrics demo_vectors (\<lambda>_. ''x'') (cr_events (crawl_peers demo_nodes (\<lambda>_. ''10.0.0.1'') byte_show (*) ''ssz_snappy'' ?ps ?c))
      (new_meters :: nat crawler_meters) = (Inr (), m) \<and>
     card {reason. mt_count m FailedCrawls [reason] \<noteq> 0} = card (set ?ds) \<and>
     ce_type ` set (failures (crawl_peers demo_nodes (\<lambda>_. ''10.0.0.1'') byte_show (*) ''ssz_snappy'' ?ps ?c)) \<subseteq> {ErrCrawlNetworkMismatchType}"
    by (rule failed_series_per_digest)
  then show ?thesis by auto
qed

text \<open>Requests are counted by one of the six types of the request layer, whatever the peer does.\<close>

lemma failed_request_labels:
  assumes "lawful_vectors V" "send_request_counted V proto (fst (send_request E opened payload)) m = (Inr (Inl e), m')"
  shows "\<exists>k \<in> set request_error_kinds. m' = count_up FailedRequests [proto, rerr_type k] m"
proof -
  have f: "fst (send_request E opened payload) = Inl e"
    and m': "m' = count_up FailedRequests [proto, rerr_type e] m"
    using assms by (auto simp: send_request_counted_def act_ok_iff record_failed_request_def with_label_values_def
        split: sum.splits option.splits)
  from send_request_error_kind [OF f] m' show ?thesis by auto
qed

text \<open>A dialer leaves the gauge at the length of its channel, the discovery callback one short of it.\<close>

lemma pending_dials_gauge:
  assumes "new_node_begin L show_ip hex_show digest_show node c = Inr (Some p)" "\<not> cr_closed c"
    and "length (cr_dial_queue c) < dial_queue_capacity" "new_node_metered L show_ip hex_show digest_show node (c, m) = (r, c', m')"
  shows "mt_gauge m' PendingDials [] = Some (GaugeCount (int (length (cr_dial_queue c')) - 1))"
  using assms by (auto simp: new_node_metered_def send_dial_def record_pending_dials_def gauge_to_def)

end
