(* ===== verification/Events.thy ===== *)
theory Events
  imports Handlers
begin

text \<open>
  Gossipsub events and their callbacks: \<open>pubsub/v1/events.go\<close>. A callback is a name (a number);
  the calls made for an event are a list. Durations and times are integers.
\<close>

type_synonym event_type = int

definition EventTypeSubscribed :: event_type where "EventTypeSubscribed = 0"
definition EventTypeUnsubscribed :: event_type where "EventTypeUnsubscribed = 1"
definition EventTypeMessageReceived :: event_type where "EventTypeMessageReceived = 2"
definition EventTypeMessageValidated :: event_type where "EventTypeMessageValidated = 3"
definition EventTypeMessageRejected :: event_type where "EventTypeMessageRejected = 4"
definition EventTypeMessageProcessed :: event_type where "EventTypeMessageProcessed = 5"
definition EventTypeMessagePublished :: event_type where "EventTypeMessagePublished = 6"
definition EventTypeError :: event_type where "EventTypeError = 7"
definition EventTypePeerConnected :: event_type where "EventTypePeerConnected = 8"
definition EventTypePeerDisconnected :: event_type where "EventTypePeerDisconnected = 9"

lemmas event_type_defs = EventTypeSubscribed_def EventTypeUnsubscribed_def EventTypeMessageReceived_def
  EventTypeMessageValidated_def EventTypeMessageRejected_def EventTypeMessageProcessed_def
  EventTypeMessagePublished_def EventTypeError_def EventTypePeerConnected_def EventTypePeerDisconnected_def

definition event_type_string :: "event_type \<Rightarrow> string" where
  "event_type_string t =
     (if t = EventTypeSubscribed then ''subscribed''
      else if t = EventTypeUnsubscribed then ''unsubscribed''
      else if t = EventTypeMessageReceived then ''message_received''
      else if t = EventTypeMessageValidated then ''message_validated''
      else if t = EventTypeMessageRejected then ''message_rejected''
      else if t = EventTypeMessageProcessed then ''message_processed''
      else if t = EventTypeMessagePublished then ''message_published''
      else if t = EventTypeError then ''error''
      else if t = EventTypePeerConnected then ''peer_connected''
      else if t = EventTypePeerDisconnected then ''peer_disconnected''
      else ''unknown('' @ dec_of_int t @ '')'')"

record message_event_data =
  med_message_id :: string
  med_size :: int
  med_validation_result :: validation_result
  med_processing_duration :: int

record error_event_data =
  eed_operation :: string
  eed_message_id :: string
  eed_retry_count :: int

record peer_event_data =
  ped_protocols :: "string list"
  ped_subscribed_topics :: "string list"

text \<open>The dynamic type of \<open>Data\<close>: nil, a pointer to one of the three structs, anything else.\<close>

datatype event_data =
  NoData | MessageData message_event_data | ErrorData error_event_data | PeerData peer_event_data | OtherData

record gossipsub_event =
  ev_type :: event_type
  ev_topic :: string
  ev_timestamp :: int
  ev_data :: event_data
  ev_error :: "string option"
  ev_peer :: peer_id

definition event_type_name :: "gossipsub_event \<Rightarrow> string" where
  "event_type_name e = event_type_string (ev_type e)"

record event_callbacks =
  on_subscribed :: "nat option"
  on_unsubscribed :: "nat option"
  on_message_received :: "nat option"
  on_message_validated :: "nat option"
  on_message_rejected :: "nat option"
  on_message_processed :: "nat option"
  on_message_published :: "nat option"
  on_error :: "nat option"
  on_peer_connected :: "nat option"
  on_peer_disconnected :: "nat option"

datatype callback_call =
    CallTopic nat string
  | CallMessage nat string peer_id message_event_data
  | CallPublished nat string message_event_data
  | CallError nat string "string option" error_event_data
  | CallPeer nat string peer_id peer_event_data

section \<open>Dispatch\<close>

definition process_message_callback :: "nat option \<Rightarrow> gossipsub_event \<Rightarrow> callback_call list" where
  "process_message_callback callback e =
     (case callback of
        None \<Rightarrow> []
      | Some f \<Rightarrow> (case ev_data e of MessageData d \<Rightarrow> [CallMessage f (ev_topic e) (ev_peer e) d] | _ \<Rightarrow> []))"

definition process_publish_callback :: "nat option \<Rightarrow> gossipsub_event \<Rightarrow> callback_call list" where
  "process_publish_callback callback e =
     (case callback of
        None \<Rightarrow> []
      | Some f \<Rightarrow> (case ev_data e of MessageData d \<Rightarrow> [CallPublished f (ev_topic e) d] | _ \<Rightarrow> []))"

definition process_error_callback :: "nat option \<Rightarrow> gossipsub_event \<Rightarrow> callback_call list" where
  "process_error_callback callback e =
     (case callback of
        None \<Rightarrow> []
      | Some f \<Rightarrow> (case ev_data e of ErrorData d \<Rightarrow> [CallError f (ev_topic e) (ev_error e) d] | _ \<Rightarrow> []))"

definition process_peer_callback :: "nat option \<Rightarrow> gossipsub_event \<Rightarrow> callback_call list" where
  "process_peer_callback callback e =
     (case callback of
        None \<Rightarrow> []
      | Some f \<Rightarrow> (case ev_data e of PeerData d \<Rightarrow> [CallPeer f (ev_topic e) (ev_peer e) d] | _ \<Rightarrow> []))"

definition process_event_callback :: "event_callbacks \<Rightarrow> gossipsub_event \<Rightarrow> callback_call list" where
  "process_event_callback cb e =
     (let t = ev_type e in
      if t = EventTypeSubscribed then (case on_subscribed cb of None \<Rightarrow> [] | Some f \<Rightarrow> [CallTopic f (ev_topic e)])
      else if t = EventTypeUnsubscribed then (case on_unsubscribed cb of None \<Rightarrow> [] | Some f \<Rightarrow> [CallTopic f (ev_topic e)])
      else if t = EventTypeMessageReceived then process_message_callback (on_message_received cb) e
      else if t = EventTypeMessageValidated then process_message_callback (on_message_validated cb) e
      else if t = EventTypeMessageRejected then process_message_callback (on_message_rejected cb) e
      else if t = EventTypeMessageProcessed then process_message_callback (on_message_processed cb) e
      else if t = EventTypeMessagePublished then process_publish_callback (on_message_published cb) e
      else if t = EventTypeError then process_error_callback (on_error cb) e
      else if t = EventTypePeerConnected then process_peer_callback (on_peer_connected cb) e
      else if t = EventTypePeerDisconnected then process_peer_callback (on_peer_disconnected cb) e
      else [])"

text \<open>
  \<open>WithEventCallbacks\<close> puts a fresh channel (named \<open>chan\<close>) into the configuration; the goroutine it
  starts makes the calls of each event it receives, in the order they are received. Values that
  are no \<open>*GossipsubEvent\<close> (\<open>None\<close>) are skipped.
\<close>

definition with_event_callbacks :: "event_callbacks option \<Rightarrow> nat \<Rightarrow> 'm handler_option" where
  "with_event_callbacks callbacks chan h = (case callbacks of None \<Rightarrow> h | Some _ \<Rightarrow> h\<lparr>hc_events := Some chan\<rparr>)"

definition event_loop :: "event_callbacks \<Rightarrow> gossipsub_event option list \<Rightarrow> callback_call list" where
  "event_loop cb received =
     concat (map (\<lambda>v. case v of None \<Rightarrow> [] | Some e \<Rightarrow> process_event_callback cb e) received)"

section \<open>Building events\<close>

definition new_event :: "int \<Rightarrow> event_type \<Rightarrow> string \<Rightarrow> peer_id \<Rightarrow> gossipsub_event" where
  "new_event now t name peer =
     \<lparr>ev_type = t, ev_topic = name, ev_timestamp = now, ev_data = NoData, ev_error = None, ev_peer = peer\<rparr>"

definition with_error :: "string option \<Rightarrow> string \<Rightarrow> gossipsub_event \<Rightarrow> gossipsub_event" where
  "with_error err operation e =
     e\<lparr>ev_type := EventTypeError, ev_error := err,
       ev_data := ErrorData \<lparr>eed_operation = operation, eed_message_id = [], eed_retry_count = 0\<rparr>\<rparr>"

definition update_message_data :: "(message_event_data \<Rightarrow> message_event_data) \<Rightarrow> gossipsub_event \<Rightarrow> gossipsub_event" where
  "update_message_data f e =
     (case ev_data e of
        NoData \<Rightarrow> e\<lparr>ev_data := MessageData (f \<lparr>med_message_id = [], med_size = 0, med_validation_result = 0,
                     med_processing_duration = 0\<rparr>)\<rparr>
      | MessageData d \<Rightarrow> e\<lparr>ev_data := MessageData (f d)\<rparr>
      | _ \<Rightarrow> e)"

definition with_message_data :: "string \<Rightarrow> int \<Rightarrow> gossipsub_event \<Rightarrow> gossipsub_event" where
  "with_message_data message_id n = update_message_data (\<lambda>d. d\<lparr>med_message_id := message_id, med_size := n\<rparr>)"

definition with_validation_result :: "validation_result \<Rightarrow> gossipsub_event \<Rightarrow> gossipsub_event" where
  "with_validation_result result = update_message_data (\<lambda>d. d\<lparr>med_validation_result := result\<rparr>)"

definition with_processing_duration :: "int \<Rightarrow> gossipsub_event \<Rightarrow> gossipsub_event" where
  "with_processing_duration duration = update_message_data (\<lambda>d. d\<lparr>med_processing_duration := duration\<rparr>)"

lemmas event_builders = new_event_def with_error_def update_message_data_def with_message_data_def
  with_validation_result_def with_processing_duration_def

lemmas callback_defs = process_message_callback_def process_publish_callback_def process_error_callback_def
  process_peer_callback_def

lemma event_type_names_distinct: "distinct (map event_type_string [0, 1, 2, 3, 4, 5, 6, 7, 8, 9])"
  by code_simp

text \<open>
  an event that failed is reported as an error whatever it was built as: after \<open>WithError\<close> the
  message builders change nothing, and the only callback that can run is \<open>OnError\<close>, with the
  error and the operation.
\<close>

theorem error_event_dispatch:
  "process_event_callback cb (with_processing_duration t (with_validation_result r (with_message_data i n
       (with_error err operation e)))) =
     (case on_error cb of None \<Rightarrow> []
      | Some f \<Rightarrow> [CallError f (ev_topic e) err \<lparr>eed_operation = operation, eed_message_id = [], eed_retry_count = 0\<rparr>])"
  by (auto simp: process_event_callback_def event_builders event_type_defs callback_defs Let_def split: option.splits)

text \<open>
  a message event built with the three message builders reaches exactly the callback
  of its type, with everything that was set.
\<close>

theorem message_event_dispatch:
  assumes "t \<in> {EventTypeMessageReceived, EventTypeMessageValidated, EventTypeMessageRejected, EventTypeMessageProcessed}"
    and "e = with_processing_duration d (with_validation_result r (with_message_data i n (new_event now t name peer)))"
  shows "process_event_callback cb e =
           (case (if t = EventTypeMessageReceived then on_message_received cb
                  else if t = EventTypeMessageValidated then on_message_validated cb
                  else if t = EventTypeMessageRejected then on_message_rejected cb
                  else on_message_processed cb) of
              None \<Rightarrow> []
            | Some f \<Rightarrow> [CallMessage f name peer \<lparr>med_message_id = i, med_size = n, med_validation_result = r,
                          med_processing_duration = d\<rparr>])"
proof -
  have built: "ev_type e = t" "ev_topic e = name" "ev_peer e = peer"
    "ev_data e = MessageData \<lparr>med_message_id = i, med_size = n, med_validation_result = r, med_processing_duration = d\<rparr>"
    by (simp_all add: assms(2) event_builders)
  from assms(1) show ?thesis
    by (elim insertE emptyE)
       (simp_all add: process_event_callback_def Let_def built process_message_callback_def event_type_defs
          split: option.splits)
qed

lemma message_event_dispatch_witness:
  "process_event_callback
     \<lparr>on_subscribed = None, on_unsubscribed = None, on_message_received = None, on_message_validated = Some 4,
      on_message_rejected = None, on_message_processed = None, on_message_published = None, on_error = None,
      on_peer_connected = None, on_peer_disconnected = None\<rparr>
     (with_processing_duration 0 (with_validation_result 0 (with_message_data ''id'' 3
        (new_event 5 EventTypeMessageValidated ''blocks'' ''p'')))) =
   [CallMessage 4 ''blocks'' ''p'' \<lparr>med_message_id = ''id'', med_size = 3, med_validation_result = 0,
      med_processing_duration = 0\<rparr>]"
proof -
  let ?cb = "\<lparr>on_subscribed = None, on_unsubscribed = None, on_message_received = None, on_message_validated = Some 4,
      on_message_rejected = None, on_message_processed = None, on_message_published = None, on_error = None,
      on_peer_connected = None, on_peer_disconnected = None\<rparr>"
  have "EventTypeMessageValidated \<in> {EventTypeMessageReceived, EventTypeMessageValidated, EventTypeMessageRejected,
      EventTypeMessageProcessed}" by simp
  from message_event_dispatch [OF this refl, of ?cb 0 0 "''id''" 3 5 "''blocks''" "''p''"] show ?thesis
    by (simp add: event_type_defs)
qed

end
