(* ===== verification/BlockExample.thy ===== *)
theory BlockExample
  imports Gossip Events
begin

text \<open>
  The beacon block handler that the library gives as its example
  (\<open>pkg/consensus/mimicry/p2p/eth/examples/beacon_block_handler.go\<close>), on the gossipsub instance of
  \<open>Gossip\<close>. Of a block what the code reads or sets is modelled; its SSZ methods are a parameter \<open>T\<close>, the
  embedding of blocks into the message type of the instance are \<open>emb\<close> and \<open>proj\<close>. Pubsub options, score
  parameters and the event channel are numbers. \<open>Err\<close> and \<open>Panic\<close> are those of the calls.
\<close>

section \<open>Blocks and the handler\<close>

record block_body =
  by_randao_reveal :: bytes
  by_eth1_deposit_root :: bytes
  by_graffiti :: bytes

record beacon_block =
  bb_slot :: u64
  bb_proposer_index :: u64
  bb_parent_root :: bytes
  bb_state_root :: bytes
  bb_body :: block_body

record signed_beacon_block =
  sb_block :: "beacon_block option"
  sb_signature :: bytes

definition validate_beacon_block :: "signed_beacon_block \<Rightarrow> peer_id \<Rightarrow> validation_result" where
  "validate_beacon_block block from = (if sb_block block = None then ValidationReject else ValidationAccept)"

text \<open>The goroutine \<open>processBeaconBlock\<close> starts: the slot it logs.\<close>

definition notify_block_processed :: "signed_beacon_block \<Rightarrow> fault + u64" where
  "notify_block_processed block = (case sb_block block of None \<Rightarrow> Inl nil_deref | Some b \<Rightarrow> Inr (bb_slot b))"

definition process_beacon_block :: "signed_beacon_block \<Rightarrow> peer_id \<Rightarrow> string option \<times> (fault + u64)" where
  "process_beacon_block block from = (None, notify_block_processed block)"

definition block_handler_config :: "signed_beacon_block ssz_type \<Rightarrow> nat \<Rightarrow> nat \<Rightarrow> signed_beacon_block handler_config" where
  "block_handler_config T score events = new_handler_config
     [with_encoder (Some (new_ssz_snappy_encoder_with_max_len T (10 * 1024 * 1024))),
      with_validator (Some validate_beacon_block),
      with_processor (Some (\<lambda>block from. fst (process_beacon_block block from))),
      with_score_params (Some score), with_events (Some events)]"

definition example_block :: signed_beacon_block where
  "example_block =
     \<lparr>sb_block = Some \<lparr>bb_slot = 12345, bb_proposer_index = 42, bb_parent_root = replicate 32 0, bb_state_root = replicate 32 0,
        bb_body = \<lparr>by_randao_reveal = replicate 96 0, by_eth1_deposit_root = [], by_graffiti = replicate 32 0\<rparr>\<rparr>,
      sb_signature = replicate 96 0\<rparr>"

definition publish_example_block ::
  "ps_lib \<Rightarrow> string list \<Rightarrow> (signed_beacon_block \<Rightarrow> 'a) \<Rightarrow> topic \<Rightarrow> ('a gossip, fault, unit) act" where
  "publish_example_block lib order emb t =
     act_map_err (\<lambda>f. case f of Err e \<Rightarrow> Err (err_wrap ''failed to publish block'' e) | Panic p \<Rightarrow> Panic p)
       (publish lib order t (emb example_block))"

section \<open>Set-up\<close>

definition block_fork_digest :: bytes where
  "block_fork_digest = [0x6a, 0x95, 0xa1, 0xa3]"

definition block_gossip :: "ps_lib \<Rightarrow> int \<times> nat \<Rightarrow> nat list \<Rightarrow> string + 'a gossip" where
  "block_gossip lib params opts = new_gossip lib True True
     [with_logger (Some ()), with_metrics (Some ()), with_publish_timeout 10000000000, with_gossipsub_params params,
      with_pubsub_options opts]"

text \<open>The deferred \<open>Stop\<close> of an instance that has no subscription: nothing to wait for.\<close>

definition stop_idle :: "ps_lib \<Rightarrow> 'a gossip \<Rightarrow> 'a gossip" where
  "stop_idle lib g = stop_end (snd (stop_begin lib g))"

text \<open>
  \<open>ExampleBeaconBlockSetup\<close> up to its wait for the context: failed with what is left of the instance, or
  running with the subscription and the error of the publication, which is only logged.
\<close>

datatype 'a block_setup =
    SetupFailed fault "'a gossip option"
  | SetupRunning "'a gossip" nat "string option"

definition setup_error :: "string \<Rightarrow> fault \<Rightarrow> fault" where
  "setup_error msg f = (case f of Err e \<Rightarrow> Err (err_wrap msg e) | Panic p \<Rightarrow> Panic p)"

definition example_beacon_block_setup ::
  "string option \<Rightarrow> ps_lib \<Rightarrow> int \<times> nat \<Rightarrow> nat list \<Rightarrow> string list \<Rightarrow> signed_beacon_block ssz_type \<Rightarrow>
     (signed_beacon_block \<Rightarrow> 'a) \<Rightarrow> ('a \<Rightarrow> signed_beacon_block option) \<Rightarrow> nat \<Rightarrow> nat \<Rightarrow> 'a block_setup" where
  "example_beacon_block_setup host lib params opts order T emb proj score events =
     (case host of
        Some e \<Rightarrow> SetupFailed (Err (err_wrap ''failed to create host'' e)) None
      | None \<Rightarrow>
          (case block_gossip lib params opts of
             Inl e \<Rightarrow> SetupFailed (Err (err_wrap ''failed to create gossipsub'' e)) None
           | Inr g \<Rightarrow>
               (case must_create_topic ''beacon_block'' of
                  Inl f \<Rightarrow> SetupFailed f None
                | Inr base \<Rightarrow>
                    (case new_topic (t_name (with_fork_digest base block_fork_digest)) of
                       Inl e \<Rightarrow> SetupFailed (Err (err_wrap ''failed to create typed topic'' e)) (Some (stop_idle lib g))
                     | Inr typed \<Rightarrow>
                         (case register emb proj (Some typed) (Some (block_handler_config T score events)) (Some (g_registry g)) of
                            (Inl e, _) \<Rightarrow> SetupFailed (Err (err_wrap ''failed to register handler'' e)) (Some (stop_idle lib g))
                          | (Inr _, reg) \<Rightarrow>
                              (case subscribe lib order typed (g\<lparr>g_registry := the reg\<rparr>) of
                                 (Inl f, g1) \<Rightarrow> SetupFailed (setup_error ''failed to subscribe to topic'' f) (Some (stop_idle lib g1))
                               | (Inr sub, g1) \<Rightarrow>
                                   (case publish_example_block lib order emb typed g1 of
                                      (Inr _, g2) \<Rightarrow> SetupRunning g2 sub None
                                    | (Inl (Err e), g2) \<Rightarrow> SetupRunning g2 sub (Some e)
                                    | (Inl (Panic p), g2) \<Rightarrow> SetupFailed (Panic p) (Some g2))))))))"

section \<open>Events\<close>

datatype block_log =
    LogValidated string peer_id validation_result int
  | LogProcessed string peer_id int string
  | LogError string peer_id "string option" string
  | LogRejected string peer_id validation_result

text \<open>\<open>monitorEvents\<close> for one event of its channel\<close>

definition monitor_event :: "gossipsub_event option \<Rightarrow> block_log list" where
  "monitor_event ev =
     (case ev of
        None \<Rightarrow> []
      | Some e \<Rightarrow>
          if ev_type e = EventTypeMessageValidated then
            (case ev_data e of MessageData d \<Rightarrow> [LogValidated (ev_topic e) (ev_peer e) (med_validation_result d) (med_size d)] | _ \<Rightarrow> [])
          else if ev_type e = EventTypeMessageProcessed then
            (case ev_data e of MessageData d \<Rightarrow> [LogProcessed (ev_topic e) (ev_peer e) (med_processing_duration d) (med_message_id d)] | _ \<Rightarrow> [])
          else if ev_type e = EventTypeError then
            (case ev_data e of ErrorData d \<Rightarrow> [LogError (ev_topic e) (ev_peer e) (ev_error e) (eed_operation d)] | _ \<Rightarrow> [])
          else if ev_type e = EventTypeMessageRejected then
            (case ev_data e of MessageData d \<Rightarrow> [LogRejected (ev_topic e) (ev_peer e) (med_validation_result d)] | _ \<Rightarrow> [])
          else [])"

definition monitor_events :: "gossipsub_event option list \<Rightarrow> block_log list" where
  "monitor_events received = concat (map monitor_event received)"

section \<open>What the set-up does\<close>

lemma block_handler_sel [simp]:
  "hc_encoder (block_handler_config T score events) = Some (new_ssz_encoder T)"
  "hc_compressor (block_handler_config T score events) = None" "hc_decoder (block_handler_config T score events) = None"
  "hc_validator (block_handler_config T score events) = Some validate_beacon_block"
  "hc_processor (block_handler_config T score events) = Some (\<lambda>block from. None)"
  "hc_score_params (block_handler_config T score events) = Some score"
  "validate_handler (block_handler_config T score events) = None"
  by (simp_all add: block_handler_config_def new_handler_config_def handler_option_defs empty_handler_config_def
      new_ssz_snappy_encoder_with_max_len_def validate_handler_def process_beacon_block_def)

definition block_topic :: string where
  "block_topic = ''/eth2/6a95a1a3/beacon_block/ssz_snappy''"

lemma block_topic_value:
  "must_create_topic ''beacon_block'' = Inr \<lparr>t_name = ''beacon_block''\<rparr>"
  "with_fork_digest \<lparr>t_name = ''beacon_block''\<rparr> block_fork_digest = \<lparr>t_name = block_topic\<rparr>"
  by (code_simp, code_simp)

definition willing :: "ps_lib \<Rightarrow> bool" where
  "willing lib \<longleftrightarrow> (\<forall>hist op. (case op of PsPublish _ _ \<Rightarrow> True | _ \<Rightarrow> lib hist op = None))"

lemma willing_ok [simp]:
  assumes "willing lib"
  shows "lib hist (PsNew os) = None" "lib hist (PsRegisterValidator n) = None" "lib hist (PsJoin n) = None"
    "lib hist (PsSetScore n p) = None" "lib hist (PsSubscribe n) = None"
  using assms [unfolded willing_def, rule_format, of hist "PsNew os"] assms [unfolded willing_def, rule_format, of hist "PsRegisterValidator n"]
    assms [unfolded willing_def, rule_format, of hist "PsJoin n"] assms [unfolded willing_def, rule_format, of hist "PsSetScore n p"]
    assms [unfolded willing_def, rule_format, of hist "PsSubscribe n"]
  by simp_all

text \<open>The instance the example makes, on a libp2p that refuses nothing.\<close>

definition fresh_block_gossip :: "int \<times> nat \<Rightarrow> nat list \<Rightarrow> 'a gossip" where
  "fresh_block_gossip params opts =
     (let os = opts @ (if 0 < fst params then [snd params] else []) in
      empty_gossip\<lparr>g_started := True, g_has_metrics := True, g_publish_timeout := 10000000000, g_params := Some params,
        g_pubsub_opts := os, g_history := [(PsNew os, None)]\<rparr>)"

lemma block_gossip_willing: "willing lib \<Longrightarrow> block_gossip lib params opts = Inr (fresh_block_gossip params opts)"
  by (cases params) (simp add: block_gossip_def new_gossip_def act_run initialize_pubsub_def Let_def ps_call_def with_logger_def
      with_metrics_def with_publish_timeout_def with_gossipsub_params_def with_pubsub_options_def empty_gossip_def
      fresh_block_gossip_def)

lemma fresh_block_gossip_sel [simp]:
  "g_started (fresh_block_gossip params opts)" "g_registry (fresh_block_gossip params opts) = new_registry"
  "g_subscriptions (fresh_block_gossip params opts) = []" "g_processors (fresh_block_gossip params opts) = []"
  "g_next (fresh_block_gossip params opts) = 0"
  by (simp_all add: fresh_block_gossip_def empty_gossip_def Let_def)

text \<open>The calls of \<open>Subscribe\<close> for the handler of the example.\<close>

definition block_registry :: "(signed_beacon_block \<Rightarrow> 'a) \<Rightarrow> ('a \<Rightarrow> signed_beacon_block option) \<Rightarrow>
    signed_beacon_block ssz_type \<Rightarrow> nat \<Rightarrow> nat \<Rightarrow> 'a registry" where
  "block_registry emb proj T score events =
     \<lparr>reg_handlers = [(block_topic, wrap_handler emb proj (block_handler_config T score events))], reg_subnet_handlers = []\<rparr>"

lemma block_register:
  "register emb proj (Some \<lparr>t_name = block_topic\<rparr>) (Some (block_handler_config T score events)) (Some new_registry) =
     (Inr (), Some (block_registry emb proj T score events))"
  by (simp add: register_def on_registry_def register_topic_def new_registry_def block_registry_def)

lemma block_handler_found [simp]:
  "get_handler order (block_registry emb proj T score events) block_topic =
     Inr (Some (wrap_handler emb proj (block_handler_config T score events)))"
  by (simp add: get_handler_def block_registry_def)

lemma wrapped_block_sel [simp]:
  "hc_encoder (wrap_handler emb proj (block_handler_config T score events)) =
     Some \<lparr>enc_encode = any_encode proj (Some (new_ssz_encoder T)), enc_decode = any_decode emb (Some (new_ssz_encoder T))\<rparr>"
  "hc_compressor (wrap_handler emb proj (block_handler_config T score events)) = None"
  "hc_score_params (wrap_handler emb proj (block_handler_config T score events)) = Some score"
  "hc_validator (wrap_handler emb proj (block_handler_config T score events)) =
     Some (\<lambda>msg from. case proj msg of None \<Rightarrow> ValidationReject | Some m \<Rightarrow> validate_beacon_block m from)"
  by (simp_all add: wrap_handler_def wrap_encoder_def wrap_validator_def)

definition subscribed_history :: "nat \<Rightarrow> ps_history" where
  "subscribed_history score = [(PsRegisterValidator block_topic, None), (PsJoin block_topic, None),
     (PsSetScore block_topic score, None), (PsSubscribe block_topic, None)]"

lemma block_subscribe:
  assumes "willing lib" "g_started g" "g_registry g = block_registry emb proj T score events" "g_subscriptions g = []"
  shows "subscribe lib order \<lparr>t_name = block_topic\<rparr> g =
    (Inr (g_next g), add_subscription block_topic (g\<lparr>g_history := g_history g @ subscribed_history score\<rparr>))"
  using assms by (simp add: subscribe_def subscribe_calls_def act_run ps_call_def subscribed_history_def)

lemma block_publish:
  assumes "g_started g" "g_registry g = block_registry emb proj T score events" "proj (emb example_block) = Some example_block"
    "sz_marshal T = Some marshal"
  shows "publish_example_block lib order emb \<lparr>t_name = block_topic\<rparr> g =
    (case marshal example_block of
       Inl e \<Rightarrow> (Inl (Err (err_wrap ''failed to publish block'' (err_wrap ''failed to encode message'' e))), g)
     | Inr d \<Rightarrow>
         (case lib (g_history g) (PsPublish block_topic d) of
            None \<Rightarrow> Inr ()
          | Some e \<Rightarrow> Inl (Err (err_wrap ''failed to publish block'' (err_wrap (''failed to publish to topic '' @ block_topic) e))),
          g\<lparr>g_history := g_history g @ [(PsPublish block_topic d, lib (g_history g) (PsPublish block_topic d))]\<rparr>))"
  using assms
  by (auto simp: publish_example_block_def publish_def act_run ps_call_def any_encode_def new_ssz_encoder_def ssz_encode_def
      split: sum.splits option.splits)

text \<open>
  the block example, other than the one for attestations, does subscribe: on a libp2p that refuses
  nothing it ends up running, subscribed to the beacon block topic of its fork digest and nothing else,
  after the validator, the join, the score parameters and the subscription in this order. Its test
  block is published as the plain SSZ encoding, on a topic whose name promises snappy, or, if it does
  not encode, not at all: either way the set-up goes on.
\<close>

theorem block_example_subscribes:
  assumes "willing lib" "proj (emb example_block) = Some example_block" "sz_marshal T = Some marshal"
  shows "\<exists>g sub err. example_beacon_block_setup None lib params opts order T emb proj score events = SetupRunning g sub err \<and>
     active_topics g = [block_topic] \<and> g_running g = [sub] \<and>
     drop 1 (g_history g) = subscribed_history score @
       (case marshal example_block of
          Inl _ \<Rightarrow> []
        | Inr d \<Rightarrow> [(PsPublish block_topic d, lib (take 5 (g_history g)) (PsPublish block_topic d))]) \<and>
     (err = None \<longleftrightarrow> (case marshal example_block of
          Inl _ \<Rightarrow> False | Inr d \<Rightarrow> lib (take 5 (g_history g)) (PsPublish block_topic d) = None))"
proof -
  let ?g0 = "fresh_block_gossip params opts\<lparr>g_registry := block_registry emb proj T score events\<rparr>"
  define g1 where "g1 = add_subscription block_topic (?g0\<lparr>g_history := g_history ?g0 @ subscribed_history score\<rparr>)"
  have name: "new_topic block_topic = Inr \<lparr>t_name = block_topic\<rparr>" by (simp add: new_topic_def block_topic_def)
  have sub: "subscribe lib order \<lparr>t_name = block_topic\<rparr> ?g0 = (Inr 0, g1)"
    using block_subscribe [OF assms(1), of ?g0] by (simp add: g1_def)
  have g1: "g_started g1" "g_registry g1 = block_registry emb proj T score events" "active_topics g1 = [block_topic]"
    "g_running g1 = [0]"
    "g_history g1 = (PsNew (opts @ (if 0 < fst params then [snd params] else [])), None) # subscribed_history score"
    by (simp_all add: g1_def add_subscription_def Let_def active_topics_def fresh_block_gossip_def empty_gossip_def)
  note pub = block_publish [OF g1(1,2) assms(2,3), of lib order]
  have running: "example_beacon_block_setup None lib params opts order T emb proj score events =
     (case publish_example_block lib order emb \<lparr>t_name = block_topic\<rparr> g1 of
        (Inr _, g2) \<Rightarrow> SetupRunning g2 0 None
      | (Inl (Err e), g2) \<Rightarrow> SetupRunning g2 0 (Some e)
      | (Inl (Panic p), g2) \<Rightarrow> SetupFailed (Panic p) (Some g2))"
    by (simp add: example_beacon_block_setup_def block_gossip_willing [OF assms(1)] block_topic_value name block_register sub)
  have five: "take 5 (g_history g1 @ rest) = g_history g1" for rest
    unfolding g1(5) by (simp add: subscribed_history_def eval_nat_numeral)
  have tail: "drop (Suc 0) (g_history g1 @ rest) = subscribed_history score @ rest" for rest
    by (simp add: g1(5))
  have act: "active_topics (g1\<lparr>g_history := h\<rparr>) = active_topics g1" for h
    by (simp add: active_topics_def)
  show ?thesis
  proof (cases "marshal example_block")
    case (Inl e)
    with g1 show ?thesis by (simp add: running pub)
  next
    case (Inr d)
    with g1(1-4) show ?thesis
      by (cases "lib (g_history g1) (PsPublish block_topic d)")
        (simp_all add: running pub five tail act del: take_append drop_append)
  qed
qed

text \<open>
  what the example's handler does with a payload, compressed or not: it decodes the bytes as they
  are, accepts exactly the blocks that decode and have a block in them, and reports a payload that
  does not decode to the instance's handler. What it accepts the processor gets, without an error, and
  the goroutine it starts finds the block it dereferences.
\<close>

theorem block_example_messages:
  assumes "\<not> sz_interface T" "sz_convertible T" "sz_unmarshal T = Some unmarshal" "\<And>b. proj (emb b) = Some b"
    and "h = wrap_handler emb proj (block_handler_config T score events)"
  shows "validate_message h global name from payload =
      (case unmarshal payload of
         Inl e \<Rightarrow> (Inr PsReject, case global of None \<Rightarrow> [] | Some f \<Rightarrow> [GlobalInvalid f payload (err_wrap ''failed to unmarshal SSZ'' e) from name])
       | Inr b \<Rightarrow> (Inr (if sb_block b = None then PsReject else PsAccept), [])) \<and>
    (\<forall>b. unmarshal payload = Inr b \<longrightarrow> sb_block b \<noteq> None \<longrightarrow>
       process_message h global name from payload = (Inr (Some (emb b, None)), []) \<and>
       \<not> panics (snd (process_beacon_block b from)))"
proof -
  have dec: "decode_payload h payload = (case unmarshal payload of
      Inl e \<Rightarrow> Inl (BadPayload payload (err_wrap ''failed to unmarshal SSZ'' e)) | Inr b \<Rightarrow> Inr (emb b))"
    using assms(1-3)
    by (auto simp: assms(5) decode_payload_def wrap_handler_def wrap_encoder_def wrap_decoder_def any_decode_def new_ssz_encoder_def
        ssz_decode_def split: sum.splits)
  have sel: "hc_invalid_payload_handler h = None"
    "hc_processor h = Some (\<lambda>msg from. case proj msg of None \<Rightarrow> Some ''processor type assertion failed'' | Some m \<Rightarrow> None)"
    "hc_validator h = Some (\<lambda>msg from. case proj msg of None \<Rightarrow> ValidationReject | Some m \<Rightarrow> validate_beacon_block m from)"
    by (simp_all add: assms(5) wrap_handler_def wrap_processor_def wrap_validator_def)
  show ?thesis
    by (auto simp: validate_message_def process_message_def dec sel invalid_calls_def assms(4) validate_beacon_block_def
        to_pubsub_result_def validation_consts process_beacon_block_def notify_block_processed_def split: sum.splits option.splits)
qed

text \<open>
  Blocks of one byte, with a stand-in for compression that puts a mark in front: the example accepts
  the plain encoding and rejects the compressed one that the topic's name asks for.
\<close>

definition tiny_block :: "u8 \<Rightarrow> signed_beacon_block" where
  "tiny_block b = example_block\<lparr>sb_signature := [b]\<rparr>"

definition tiny_type :: "signed_beacon_block ssz_type" where
  "tiny_type = \<lparr>sz_interface = False, sz_pointer = True, sz_convertible = True, sz_marshal = Some (\<lambda>b. Inr (sb_signature b)),
     sz_unmarshal = Some (\<lambda>d. case d of [b] \<Rightarrow> Inr (tiny_block b) | _ \<Rightarrow> Inl ''size'')\<rparr>"

definition marked :: compressor where
  "marked = \<lparr>comp_compress = (\<lambda>d. Inr (255 # d)), comp_decompress = (\<lambda>d. Inr (tl d)), comp_max_length = 0\<rparr>"

lemma block_example_messages_witness:
  "fst (validate_message (wrap_handler (\<lambda>b. b) Some (block_handler_config tiny_type 1 2)) None block_topic ''p'' [7]) = Inr PsAccept \<and>
   comp_compress marked [7] = Inr [255, 7] \<and>
   fst (validate_message (wrap_handler (\<lambda>b. b) Some (block_handler_config tiny_type 1 2)) None block_topic ''p'' [255, 7]) = Inr PsReject"
proof -
  have T: "\<not> sz_interface tiny_type" "sz_convertible tiny_type"
    "sz_unmarshal tiny_type = Some (\<lambda>d. case d of [b] \<Rightarrow> Inr (tiny_block b) | _ \<Rightarrow> Inl ''size'')"
    by (simp_all add: tiny_type_def)
  have block: "sb_block (tiny_block b) \<noteq> None" for b by (simp add: tiny_block_def example_block_def)
  from block_example_messages [OF T _ refl, of Some "\<lambda>b. b" 1 2 None block_topic "''p''" "[7]"]
    block_example_messages [OF T _ refl, of Some "\<lambda>b. b" 1 2 None block_topic "''p''" "[255, 7]"]
  show ?thesis using block by (simp add: marked_def)
qed

definition easy_lib :: ps_lib where
  "easy_lib hist op = None"

lemma block_example_subscribes_witness:
  "\<exists>g sub. example_beacon_block_setup None easy_lib (8, 1) [2, 3, 4] [] tiny_type (\<lambda>b. b) Some 5 6 = SetupRunning g sub None \<and>
     active_topics g = [block_topic]"
proof -
  have "willing easy_lib" by (simp add: willing_def easy_lib_def split: ps_op.splits)
  from block_example_subscribes [OF this, where emb = "\<lambda>b. b" and proj = Some and T = tiny_type and
      marshal = "\<lambda>b. Inr (sb_signature b)" and params = "(8, 1)" and opts = "[2, 3, 4]" and order = "[]" and score = 5 and events = 6]
  obtain g sub err where "example_beacon_block_setup None easy_lib (8, 1) [2, 3, 4] [] tiny_type (\<lambda>b. b) Some 5 6 = SetupRunning g sub err"
    "active_topics g = [block_topic]" "g_running g = [sub]" "err = None"
    by (auto simp: tiny_type_def easy_lib_def)
  then show ?thesis by blast
qed

text \<open>The monitor logs of an event built by the library's builders what its callbacks would be given.\<close>

lemma monitor_message_validated:
  "monitor_event (Some (with_validation_result r (with_message_data i n (new_event now EventTypeMessageValidated name peer)))) =
     [LogValidated name peer r n]"
  by (simp add: monitor_event_def event_builders)

end
