(* ===== verification/Discovery.thy ===== *)
theory Discovery
  imports Peers Interfaces "HOL-Library.Multiset"
begin

text \<open>
  The discovery services \<open>DiscV5\<close> and \<open>DiscV4\<close> (\<open>pkg/discovery/disc_v5.go\<close>, \<open>disc_v4.go\<close>).
  The two files have the same code except for the peer filter, so one state machine stands for
  both. Its steps are the sections of the code between two locks of the mutex: the calls of
  \<open>Start\<close> and \<open>Stop\<close> and the jobs of the scheduler interleave at every lock. A listener is a
  number; the state carries the list of listeners that are open and, to say where the others
  went, the list of those whose last reference was overwritten. Crypto and sockets fail or succeed
  by the label of the step. gocron runs a job of a scheduler that has been started and not shut
  down; \<open>overlap\<close> says whether it starts a job while an earlier one is still running, which is its
  default.
\<close>

section \<open>Filtering peers\<close>

record disc_node =
  dn_id :: string
  dn_ip :: bytes
  dn_tcp :: "string + 16 word"

text \<open>\<open>net.IP.IsPrivate\<close>\<close>

definition is_private :: "bytes \<Rightarrow> bool" where
  "is_private ip =
     (case ip_to4 ip of
        Some a \<Rightarrow>
          a ! 0 = 10 \<or> (a ! 0 = 172 \<and> a ! 1 AND 0xf0 = 16) \<or> (a ! 0 = 192 \<and> a ! 1 = 168)
      | None \<Rightarrow> length ip = 16 \<and> ip ! 0 AND 0xfe = 0xfc)"

definition filter_peer_v4 :: "string option \<Rightarrow> disc_node option \<Rightarrow> bool" where
  "filter_peer_v4 local_id node =
     (case node of
        None \<Rightarrow> False
      | Some n \<Rightarrow>
          if dn_ip n = [] then False
          else if local_id = Some (dn_id n) then False
          else is_ok (dn_tcp n))"

definition filter_peer_v5 :: "string option \<Rightarrow> disc_node option \<Rightarrow> bool" where
  "filter_peer_v5 local_id node =
     (case node of
        None \<Rightarrow> False
      | Some n \<Rightarrow>
          if dn_ip n = [] then False
          else if local_id = Some (dn_id n) then False
          else if \<not> is_ok (dn_tcp n) then False
          else if is_private (dn_ip n) then False
          else True)"

text \<open>The nodes of an iterator that reach the handlers, in order, until it is closed.\<close>

definition listen_for_new_nodes ::
  "(string option \<Rightarrow> disc_node option \<Rightarrow> bool) \<Rightarrow> string option \<Rightarrow> disc_node list \<Rightarrow> disc_node list" where
  "listen_for_new_nodes accept local_id found = filter (\<lambda>n. accept local_id (Some n)) found"

section \<open>The service\<close>

record disc =
  d_boot_nodes :: "string list"
  d_listener :: "nat option"
  d_scheduler :: "nat option"
  d_started :: bool
  d_handlers :: "string list"

definition topicNodeRecord :: string where "topicNodeRecord = ''node_record''"

definition new_disc_v5 :: disc where
  "new_disc_v5 = \<lparr>d_boot_nodes = [], d_listener = None, d_scheduler = None, d_started = False,
     d_handlers = []\<rparr>"

text \<open>
  Subscribing adds a handler; publishing a record runs every handler, in order, and their errors
  (those of \<open>result\<close>) are logged only: the result is the handlers run and the errors logged.
\<close>

definition on_node_record :: "string \<Rightarrow> disc \<Rightarrow> disc" where
  "on_node_record handler d = d\<lparr>d_handlers := d_handlers d @ [handler]\<rparr>"

definition publish_node_record ::
  "(string \<Rightarrow> 'n \<Rightarrow> string option) \<Rightarrow> 'n \<Rightarrow> disc \<Rightarrow> string list \<times> string list" where
  "publish_node_record result node d =
     (d_handlers d, List.map_filter (\<lambda>h. result h node) (d_handlers d))"

text \<open>Either all addresses parse and replace the boot nodes, or nothing changes.\<close>

fun parse_all :: "(string \<Rightarrow> string + string) \<Rightarrow> string list \<Rightarrow> string + string list" where
  "parse_all parse [] = Inr []"
| "parse_all parse (a # as) =
     (case parse a of
        Inl e \<Rightarrow> Inl e
      | Inr n \<Rightarrow> (case parse_all parse as of Inl e \<Rightarrow> Inl e | Inr ns \<Rightarrow> Inr (n # ns)))"

definition update_boot_nodes :: "(string \<Rightarrow> string + string) \<Rightarrow> string list \<Rightarrow> (disc, string, unit) act" where
  "update_boot_nodes parse addrs d =
     (case parse_all parse addrs of
        Inl e \<Rightarrow> (Inl e, d)
      | Inr bn \<Rightarrow> (Inr (), d\<lparr>d_boot_nodes := bn\<rparr>))"

text \<open>
  What \<open>createListener\<close> opens. The resources stay with the listener when it is returned, and stay
  open when an error is returned after the socket, or the socket and the database, were opened.
\<close>

datatype resource = Socket | Database | Protocol

record listen_results =
  lr_socket :: "string option"
  lr_database :: "string option"
  lr_protocol :: "string option"

record listener =
  l_conn :: bool
  l_local_node :: "string option"
  l_discovery :: bool

definition create_listener :: "string \<Rightarrow> listen_results \<Rightarrow> (string + listener) \<times> resource list" where
  "create_listener local_id r =
     (case lr_socket r of
        Some e \<Rightarrow> (Inl e, [])
      | None \<Rightarrow>
          (case lr_database r of
             Some e \<Rightarrow> (Inl e, [Socket])
           | None \<Rightarrow>
               (case lr_protocol r of
                  Some e \<Rightarrow> (Inl e, [Socket, Database])
                | None \<Rightarrow>
                    (Inr \<lparr>l_conn = True, l_local_node = Some local_id, l_discovery = True\<rparr>,
                     [Socket, Database, Protocol]))))"

text \<open>\<open>startDiscovery\<close> adds a log message.\<close>

definition start_discovery :: "string \<Rightarrow> listen_results \<Rightarrow> (string + listener) \<times> resource list" where
  "start_discovery local_id r =
     (case create_listener local_id r of
        (Inl e, left) \<Rightarrow> (Inl e, left)
      | (Inr listener, left) \<Rightarrow> (Inr listener, left))"

text \<open>\<open>Close\<close>: what it closes, and the listener afterwards\<close>

definition close_listener :: "listener \<Rightarrow> resource list \<times> listener" where
  "close_listener l =
     ((if l_discovery l then [Protocol] else []) @ (if l_local_node l \<noteq> None then [Database] else [])
        @ (if l_conn l then [Socket] else []),
      l\<lparr>l_local_node := None\<rparr>)"

definition get_local_node_id :: "listener \<Rightarrow> string option" where
  "get_local_node_id l = l_local_node l"

section \<open>Goroutines\<close>

text \<open>
  A call of \<open>Start\<close> behind its first section, a scheduled job behind its first section, and a
  call of \<open>Stop\<close> with what it took.
\<close>

datatype starter = CronCheck | CronMake
datatype job = Checked | Cleared | Holding nat
type_synonym stopper = "nat option \<times> nat option"

record disc_world =
  w_disc :: disc
  w_open :: "nat list"
  w_lost :: "nat list"
  w_next :: nat
  w_schedulers :: "nat list"
  w_starters :: "starter list"
  w_jobs :: "job list"
  w_stops :: "stopper list"
  w_start_errors :: nat

definition new_world :: disc_world where
  "new_world = \<lparr>w_disc = new_disc_v5, w_open = [], w_lost = [], w_next = 0, w_schedulers = [],
     w_starters = [], w_jobs = [], w_stops = [], w_start_errors = 0\<rparr>"

definition drop_at :: "nat \<Rightarrow> 'a list \<Rightarrow> 'a list" where
  "drop_at i xs = take i xs @ drop (Suc i) xs"

definition opt_list :: "'a option \<Rightarrow> 'a list" where
  "opt_list x = (case x of None \<Rightarrow> [] | Some a \<Rightarrow> [a])"

definition close_open :: "nat option \<Rightarrow> nat list \<Rightarrow> nat list" where
  "close_open l xs = (case l of None \<Rightarrow> xs | Some n \<Rightarrow> remove1 n xs)"

text \<open>\<open>Start\<close>, up to the call of \<open>startCrons\<close>\<close>

definition start_call :: "disc_world \<Rightarrow> disc_world" where
  "start_call w =
     (if d_started (w_disc w) then w
      else w\<lparr>w_disc := (w_disc w)\<lparr>d_started := True\<rparr>, w_starters := w_starters w @ [CronCheck]\<rparr>)"

text \<open>\<open>startCrons\<close>: the test for a scheduler, and behind it the creation of one\<close>

definition cron_check :: "nat \<Rightarrow> disc_world \<Rightarrow> disc_world" where
  "cron_check i w =
     (if d_scheduler (w_disc w) \<noteq> None then w\<lparr>w_starters := drop_at i (w_starters w)\<rparr>
      else w\<lparr>w_starters := (w_starters w)[i := CronMake]\<rparr>)"

definition cron_make :: "nat \<Rightarrow> bool \<Rightarrow> disc_world \<Rightarrow> disc_world" where
  "cron_make i ok w =
     (if ok then
        w\<lparr>w_disc := (w_disc w)\<lparr>d_scheduler := Some (w_next w)\<rparr>, w_schedulers := w_next w # w_schedulers w,
          w_next := Suc (w_next w), w_starters := drop_at i (w_starters w)\<rparr>
      else w\<lparr>w_starters := drop_at i (w_starters w), w_start_errors := Suc (w_start_errors w)\<rparr>)"

text \<open>The scheduled job and \<open>startListener\<close>\<close>

definition job_begin :: "disc_world \<Rightarrow> disc_world" where
  "job_begin w = (if d_started (w_disc w) then w\<lparr>w_jobs := w_jobs w @ [Checked]\<rparr> else w)"

definition job_close :: "nat \<Rightarrow> disc_world \<Rightarrow> disc_world" where
  "job_close i w =
     w\<lparr>w_open := close_open (d_listener (w_disc w)) (w_open w),
       w_disc := (w_disc w)\<lparr>d_listener := None\<rparr>, w_jobs := (w_jobs w)[i := Cleared]\<rparr>"

definition job_create :: "nat \<Rightarrow> bool \<Rightarrow> disc_world \<Rightarrow> disc_world" where
  "job_create i ok w =
     (if ok then
        w\<lparr>w_open := w_next w # w_open w, w_next := Suc (w_next w),
          w_jobs := (w_jobs w)[i := Holding (w_next w)]\<rparr>
      else w\<lparr>w_jobs := drop_at i (w_jobs w)\<rparr>)"

definition job_store :: "nat \<Rightarrow> nat \<Rightarrow> disc_world \<Rightarrow> disc_world" where
  "job_store i n w =
     w\<lparr>w_lost := opt_list (d_listener (w_disc w)) @ w_lost w,
       w_disc := (w_disc w)\<lparr>d_listener := Some n\<rparr>, w_jobs := drop_at i (w_jobs w)\<rparr>"

text \<open>\<open>Stop\<close>: the section under the lock, and the rest\<close>

definition stop_take :: "disc_world \<Rightarrow> disc_world" where
  "stop_take w =
     w\<lparr>w_stops := w_stops w @ [(d_listener (w_disc w), d_scheduler (w_disc w))],
       w_disc := (w_disc w)\<lparr>d_started := False, d_listener := None, d_scheduler := None\<rparr>\<rparr>"

definition stop_finish :: "nat \<Rightarrow> disc_world \<Rightarrow> disc_world" where
  "stop_finish i w =
     (case w_stops w ! i of (l, c) \<Rightarrow>
        w\<lparr>w_open := close_open l (w_open w),
          w_schedulers := filter (\<lambda>s. Some s \<noteq> c) (w_schedulers w), w_stops := drop_at i (w_stops w)\<rparr>)"

datatype disc_label =
    LStart | LCronCheck nat | LCronMake nat bool | LJob | LClose nat | LCreate nat bool | LStore nat
  | LStop | LStopped nat

text \<open>A step: the result of the label where it is enabled.\<close>

fun disc_do :: "bool \<Rightarrow> disc_label \<Rightarrow> disc_world \<Rightarrow> disc_world option" where
  "disc_do overlap LStart w = Some (start_call w)"
| "disc_do overlap (LCronCheck i) w =
     (if i < length (w_starters w) \<and> w_starters w ! i = CronCheck then Some (cron_check i w) else None)"
| "disc_do overlap (LCronMake i ok) w =
     (if i < length (w_starters w) \<and> w_starters w ! i = CronMake then Some (cron_make i ok w) else None)"
| "disc_do overlap LJob w =
     (if w_schedulers w \<noteq> [] \<and> (overlap \<or> w_jobs w = []) then Some (job_begin w) else None)"
| "disc_do overlap (LClose i) w =
     (if i < length (w_jobs w) \<and> w_jobs w ! i = Checked then Some (job_close i w) else None)"
| "disc_do overlap (LCreate i ok) w =
     (if i < length (w_jobs w) \<and> w_jobs w ! i = Cleared then Some (job_create i ok w) else None)"
| "disc_do overlap (LStore i) w =
     (if i < length (w_jobs w) then
        (case w_jobs w ! i of Holding n \<Rightarrow> Some (job_store i n w) | _ \<Rightarrow> None) else None)"
| "disc_do overlap LStop w = Some (stop_take w)"
| "disc_do overlap (LStopped i) w = (if i < length (w_stops w) then Some (stop_finish i w) else None)"

inductive disc_step :: "bool \<Rightarrow> disc_world \<Rightarrow> disc_label \<Rightarrow> disc_world \<Rightarrow> bool" for overlap where
  "disc_do overlap l w = Some w' \<Longrightarrow> disc_step overlap w l w'"

inductive_simps disc_step_iff: "disc_step overlap w l w'"

section \<open>Where the listeners are\<close>

definition tally :: "('a \<Rightarrow> 'b multiset) \<Rightarrow> 'a list \<Rightarrow> 'b multiset" where
  "tally g xs = (\<Sum>x\<leftarrow>xs. g x)"

lemma tally_simps [simp]:
  "tally g [] = {#}" "tally g (x # xs) = g x + tally g xs" "tally g (xs @ ys) = tally g xs + tally g ys"
  by (simp_all add: tally_def)

lemma tally_drop: "i < length xs \<Longrightarrow> tally g xs = g (xs ! i) + tally g (drop_at i xs)"
proof -
  assume "i < length xs"
  then have "tally g xs = tally g (take i xs @ xs ! i # drop (Suc i) xs)"
    by (simp add: id_take_nth_drop [symmetric])
  then show ?thesis by (simp add: drop_at_def)
qed

lemma tally_update: "i < length xs \<Longrightarrow> tally g (xs[i := y]) + g (xs ! i) = tally g xs + g y"
proof -
  assume i: "i < length xs"
  then have "tally g xs = tally g (take i xs @ xs ! i # drop (Suc i) xs)"
    by (simp add: id_take_nth_drop [symmetric])
  then show ?thesis using i by (simp add: upd_conv_take_nth_drop)
qed

definition opt_mset :: "'a option \<Rightarrow> 'a multiset" where
  "opt_mset x = mset (opt_list x)"

fun job_holds :: "job \<Rightarrow> nat multiset" where
  "job_holds (Holding n) = {#n#}"
| "job_holds _ = {#}"

definition referenced :: "disc_world \<Rightarrow> nat multiset" where
  "referenced w = opt_mset (d_listener (w_disc w)) + tally job_holds (w_jobs w)
     + tally (\<lambda>s. opt_mset (fst s)) (w_stops w)"

text \<open>The jobs of a scheduler that never overlaps them.\<close>

definition single_job :: "disc_world \<Rightarrow> bool" where
  "single_job w \<longleftrightarrow> length (w_jobs w) \<le> 1 \<and> w_lost w = []
     \<and> (\<forall>j \<in> set (w_jobs w). j \<noteq> Checked \<longrightarrow> d_listener (w_disc w) = None)"

definition disc_inv :: "bool \<Rightarrow> disc_world \<Rightarrow> bool" where
  "disc_inv overlap w \<longleftrightarrow>
     mset (w_open w) = referenced w + mset (w_lost w) \<and> (overlap \<or> single_job w)"

lemma opt_mset_simps [simp]: "opt_mset None = {#}" "opt_mset (Some x) = {#x#}"
  by (simp_all add: opt_mset_def opt_list_def)

lemma mset_opt_list [simp]: "mset (opt_list x) = opt_mset x"
  by (simp add: opt_mset_def)

lemma mset_close_open: "mset (close_open l xs) = mset xs - opt_mset l"
  by (cases l) (simp_all add: close_open_def)

lemma single_job_at:
  assumes "single_job w" "i < length (w_jobs w)"
  shows "w_jobs w = [w_jobs w ! i]" and "i = 0"
  using assms by (auto simp: single_job_def le_Suc_eq length_Suc_conv)

lemma drop_at_single [simp]: "drop_at 0 [x] = []"
  by (simp add: drop_at_def)

text \<open>The steps that touch listeners, one by one.\<close>

lemma job_close_inv:
  assumes "disc_inv overlap w" "i < length (w_jobs w)" "w_jobs w ! i = Checked"
  shows "disc_inv overlap (job_close i w)"
proof -
  have t: "tally job_holds ((w_jobs w)[i := Cleared]) = tally job_holds (w_jobs w)"
    using tally_update [OF assms(2), of job_holds Cleared] assms(3) by simp
  have "overlap \<or> single_job (job_close i w)"
    using assms single_job_at [of w i] by (auto simp: disc_inv_def single_job_def job_close_def)
  then show ?thesis
    using assms(1) t by (simp add: disc_inv_def referenced_def job_close_def mset_close_open)
qed

lemma job_create_inv:
  assumes "disc_inv overlap w" "i < length (w_jobs w)" "w_jobs w ! i = Cleared"
  shows "disc_inv overlap (job_create i ok w)"
proof -
  have u: "tally job_holds ((w_jobs w)[i := Holding n]) = add_mset n (tally job_holds (w_jobs w))" for n
    using tally_update [OF assms(2), of job_holds "Holding n"] assms(3) by simp
  have d: "tally job_holds (drop_at i (w_jobs w)) = tally job_holds (w_jobs w)"
    using tally_drop [OF assms(2), of job_holds] assms(3) by simp
  have "overlap \<or> single_job (job_create i ok w)"
    using assms single_job_at [of w i] by (auto simp: disc_inv_def single_job_def job_create_def)
  then show ?thesis
    using assms(1) u d by (simp add: disc_inv_def referenced_def job_create_def)
qed

lemma job_store_inv:
  assumes "disc_inv overlap w" "i < length (w_jobs w)" "w_jobs w ! i = Holding n"
  shows "disc_inv overlap (job_store i n w)"
proof -
  have d: "tally job_holds (w_jobs w) = add_mset n (tally job_holds (drop_at i (w_jobs w)))"
    using tally_drop [OF assms(2), of job_holds] assms(3) by simp
  have "overlap \<or> single_job (job_store i n w)"
    using assms single_job_at [of w i]
    by (auto simp: disc_inv_def single_job_def job_store_def opt_list_def)
  then show ?thesis
    using assms(1) d by (simp add: disc_inv_def referenced_def job_store_def)
qed

lemma stop_take_inv: "disc_inv overlap w \<Longrightarrow> disc_inv overlap (stop_take w)"
  by (auto simp: disc_inv_def referenced_def stop_take_def single_job_def)

lemma stop_finish_inv:
  assumes "disc_inv overlap w" "i < length (w_stops w)"
  shows "disc_inv overlap (stop_finish i w)"
  using assms tally_drop [OF assms(2), of "\<lambda>s. opt_mset (fst s)"]
  by (cases "w_stops w ! i")
     (auto simp: disc_inv_def referenced_def stop_finish_def single_job_def mset_close_open)

lemma job_begin_inv:
  assumes "disc_inv overlap w" "overlap \<or> w_jobs w = []"
  shows "disc_inv overlap (job_begin w)"
  using assms by (auto simp: disc_inv_def referenced_def job_begin_def single_job_def)

lemma start_inv:
  "disc_inv overlap w \<Longrightarrow> disc_inv overlap (start_call w)"
  "disc_inv overlap w \<Longrightarrow> disc_inv overlap (cron_check i w)"
  "disc_inv overlap w \<Longrightarrow> disc_inv overlap (cron_make i ok w)"
  by (auto simp: disc_inv_def referenced_def start_call_def cron_check_def cron_make_def single_job_def)

lemma disc_do_inv:
  assumes "disc_inv overlap w" "disc_do overlap l w = Some w'"
  shows "disc_inv overlap w'"
  using assms
  by (cases l)
     (auto simp: start_inv job_close_inv job_create_inv stop_take_inv stop_finish_inv job_begin_inv
       split: if_splits job.splits intro: job_store_inv)

interpretation disc: step_machine "\<lambda>w. w = new_world" "disc_step overlap" "disc_inv overlap" for overlap
proof
  show "disc_inv overlap s" if "s = new_world" for s
    using that by (simp add: disc_inv_def new_world_def new_disc_v5_def referenced_def single_job_def)
  show "disc_inv overlap t" if "disc_inv overlap s" "disc_step overlap s l t" for s l t
    using that disc_do_inv by (auto simp: disc_step_iff)
qed

section \<open>Properties\<close>

fun disc_run :: "bool \<Rightarrow> disc_label list \<Rightarrow> disc_world \<Rightarrow> disc_world option" where
  "disc_run overlap [] w = Some w"
| "disc_run overlap (l # ls) w = Option.bind (disc_do overlap l w) (disc_run overlap ls)"

lemma disc_run_reachable:
  "reachable i (disc_step overlap) w \<Longrightarrow> disc_run overlap ls w = Some w' \<Longrightarrow> reachable i (disc_step overlap) w'"
proof (induction ls arbitrary: w)
  case Nil
  then show ?case by simp
next
  case (Cons l ls)
  then obtain v where "disc_do overlap l w = Some v" "disc_run overlap ls v = Some w'"
    by (auto split: bind_splits)
  with Cons show ?case by (blast intro: disc_step.intros reach_step)
qed

lemma disc_reached:
  "disc_run overlap ls new_world = Some w \<Longrightarrow> reachable (\<lambda>w. w = new_world) (disc_step overlap) w"
  by (rule disc_run_reachable [OF reach_init]) simp_all

lemma discovery_listeners_parts:
  assumes "reachable (\<lambda>w. w = new_world) (disc_step False) w"
  shows "mset (w_open w) = referenced w"
    and "w_jobs w = [] \<and> w_stops w = [] \<Longrightarrow> w_open w = opt_list (d_listener (w_disc w))"
proof -
  have inv: "disc_inv False w" using assms by (rule disc.inv_reachable)
  then show "mset (w_open w) = referenced w" by (simp add: disc_inv_def single_job_def)
  then show "w_jobs w = [] \<and> w_stops w = [] \<Longrightarrow> w_open w = opt_list (d_listener (w_disc w))"
    by (cases "d_listener (w_disc w)") (auto simp: referenced_def opt_list_def)
qed

text \<open>
  C12: If the scheduler does not overlap its jobs, no open listener is ever forgotten: in every
  interleaving of Start, Stop and the jobs the open listeners are the current one, those a job
  is about to store and those a Stop is about to close, each counted once. With nothing in flight
  the current listener is the only open one.
\<close>

theorem discovery_listeners:
  assumes "reachable (\<lambda>w. w = new_world) (disc_step False) w"
  shows "mset (w_open w) = referenced w
    \<and> (w_jobs w = [] \<and> w_stops w = [] \<longrightarrow> w_open w = opt_list (d_listener (w_disc w)))"
  using discovery_listeners_parts [OF assms] by simp


lemma discovery_listeners_witness:
  "\<exists>w. disc_run False [LStart, LCronCheck 0, LCronMake 0 True, LJob, LClose 0, LCreate 0 True, LStore 0] new_world
       = Some w \<and> w_open w = opt_list (d_listener (w_disc w)) \<and> d_listener (w_disc w) = Some 1"
proof -
  let ?ls = "[LStart, LCronCheck 0, LCronMake 0 True, LJob, LClose 0, LCreate 0 True, LStore 0]"
  obtain w where w: "disc_run False ?ls new_world = Some w"
    "w_jobs w = [] \<and> w_stops w = [] \<and> d_listener (w_disc w) = Some 1"
    by (simp add: new_world_def new_disc_v5_def start_call_def cron_check_def cron_make_def job_begin_def
        job_close_def job_create_def job_store_def drop_at_def)
  from w(2) have "w_open w = opt_list (d_listener (w_disc w))"
    by (intro discovery_listeners [OF disc_reached [OF w(1)], THEN conjunct2, THEN mp]) simp
  with w show ?thesis by blast
qed

lemmas disc_run_defs = new_world_def new_disc_v5_def start_call_def cron_check_def cron_make_def
  job_begin_def job_close_def job_create_def job_store_def stop_take_def stop_finish_def drop_at_def
  close_open_def opt_list_def

lemma discovery_leaks_parts:
  "\<exists>w. reachable (\<lambda>w. w = new_world) (disc_step False) w \<and> \<not> d_started (w_disc w)
     \<and> w_schedulers w = [] \<and> w_starters w = [] \<and> w_jobs w = [] \<and> w_stops w = [] \<and> w_open w = [1]"
  "\<exists>w. reachable (\<lambda>w. w = new_world) (disc_step True) w \<and> w_jobs w = [] \<and> w_stops w = []
     \<and> w_open w = [2, 1] \<and> d_listener (w_disc w) = Some 2"
proof -
  obtain w where "disc_run False [LStart, LCronCheck 0, LCronMake 0 True, LJob, LClose 0, LStop, LStopped 0,
      LCreate 0 True, LStore 0] new_world = Some w"
    "\<not> d_started (w_disc w) \<and> w_schedulers w = [] \<and> w_starters w = [] \<and> w_jobs w = [] \<and> w_stops w = []
     \<and> w_open w = [1]"
    by (simp add: disc_run_defs)
  then show "\<exists>w. reachable (\<lambda>w. w = new_world) (disc_step False) w \<and> \<not> d_started (w_disc w)
     \<and> w_schedulers w = [] \<and> w_starters w = [] \<and> w_jobs w = [] \<and> w_stops w = [] \<and> w_open w = [1]"
    using disc_reached by blast
  obtain w where "disc_run True [LStart, LCronCheck 0, LCronMake 0 True, LJob, LJob, LClose 0, LClose 1,
      LCreate 0 True, LCreate 1 True, LStore 0, LStore 0] new_world = Some w"
    "w_jobs w = [] \<and> w_stops w = [] \<and> w_open w = [2, 1] \<and> d_listener (w_disc w) = Some 2"
    by (simp add: disc_run_defs)
  then show "\<exists>w. reachable (\<lambda>w. w = new_world) (disc_step True) w \<and> w_jobs w = [] \<and> w_stops w = []
     \<and> w_open w = [2, 1] \<and> d_listener (w_disc w) = Some 2"
    using disc_reached by blast
qed

text \<open>
  C31: Two interleavings leak. A Stop between the test of a job and its last section returns with
  the service stopped and its scheduler shut down, and the job then installs a listener that
  stays open. With overlapping jobs a listener that was just installed is overwritten without
  being closed, and no reference to it is left.
\<close>

theorem discovery_leaks:
  "(\<exists>w. reachable (\<lambda>w. w = new_world) (disc_step False) w \<and> \<not> d_started (w_disc w)
     \<and> w_schedulers w = [] \<and> w_starters w = [] \<and> w_jobs w = [] \<and> w_stops w = [] \<and> w_open w = [1])
   \<and> (\<exists>w. reachable (\<lambda>w. w = new_world) (disc_step True) w \<and> w_jobs w = [] \<and> w_stops w = []
     \<and> w_open w = [2, 1] \<and> d_listener (w_disc w) = Some 2)"
  by (intro conjI discovery_leaks_parts)


text \<open>The state a failing \<open>startCrons\<close> leaves behind.\<close>

definition stuck_start :: "disc_world \<Rightarrow> bool" where
  "stuck_start w \<longleftrightarrow> d_started (w_disc w) \<and> w_schedulers w = [] \<and> w_starters w = [] \<and> w_jobs w = []"

lemma failed_start_sticks_parts:
  "\<exists>w. disc_run overlap [LStart, LCronCheck 0, LCronMake 0 False] new_world = Some w
     \<and> w_start_errors w = 1 \<and> stuck_start w"
  "stuck_start w \<Longrightarrow> LStop \<notin> set ls \<Longrightarrow> disc_run overlap ls w = Some w' \<Longrightarrow>
     stuck_start w' \<and> w_start_errors w' = w_start_errors w"
  "stuck_start w \<Longrightarrow> start_call w = w"
proof -
  show "\<exists>w. disc_run overlap [LStart, LCronCheck 0, LCronMake 0 False] new_world = Some w
     \<and> w_start_errors w = 1 \<and> stuck_start w"
    by (simp add: disc_run_defs stuck_start_def)
  show call: "stuck_start w \<Longrightarrow> start_call w = w" for w by (simp add: stuck_start_def start_call_def)
  have step: "stuck_start v \<and> w_start_errors v = w_start_errors w"
    if "stuck_start w" "l \<noteq> LStop" "disc_do overlap l w = Some v" for w l v
    using that call
    by (cases l) (auto simp: stuck_start_def stop_finish_def split: if_splits prod.splits)
  show "stuck_start w \<Longrightarrow> LStop \<notin> set ls \<Longrightarrow> disc_run overlap ls w = Some w' \<Longrightarrow>
     stuck_start w' \<and> w_start_errors w' = w_start_errors w"
  proof (induction ls arbitrary: w)
    case Nil
    then show ?case by simp
  next
    case (Cons l ls)
    from Cons.prems(3) obtain v where v: "disc_do overlap l w = Some v" "disc_run overlap ls v = Some w'"
      by (auto split: bind_splits)
    from Cons.prems have "stuck_start v \<and> w_start_errors v = w_start_errors w"
      by (intro step [OF _ _ v(1)]) auto
    with Cons.IH [of v] Cons.prems(2) v(2) show ?case by simp
  qed
qed

text \<open>
  A Start that fails because the scheduler could not be created leaves the service marked as
  started. Whatever is called afterwards short of Stop, no scheduler is created and no job runs:
  Start itself returns at once, without an error.
\<close>

theorem failed_start_sticks:
  "(\<exists>w. disc_run overlap [LStart, LCronCheck 0, LCronMake 0 False] new_world = Some w
     \<and> w_start_errors w = 1 \<and> stuck_start w)
   \<and> (stuck_start w \<and> LStop \<notin> set ls \<and> disc_run overlap ls w = Some w' \<longrightarrow>
     stuck_start w' \<and> w_start_errors w' = w_start_errors w)
   \<and> (stuck_start w \<longrightarrow> start_call w = w)"
  using failed_start_sticks_parts by blast


lemma failed_start_sticks_witness:
  "\<exists>w. disc_run False [LStart, LCronCheck 0, LCronMake 0 False, LStart, LStart] new_world = Some w
     \<and> stuck_start w"
proof -
  obtain v where v: "disc_run False [LStart, LCronCheck 0, LCronMake 0 False] new_world = Some v"
    "stuck_start v"
    using failed_start_sticks by blast
  have "disc_run False [LStart, LStart] v = Some v" using failed_start_sticks v(2) by simp
  with v show ?thesis by (auto simp: disc_run_defs stuck_start_def)
qed

text \<open>
  The filter of discovery v5 is the one of v4 that also refuses private addresses, so every
  node v5 publishes v4 publishes too, and v4 publishes nodes of private networks.
\<close>

theorem filter_peer_v5_v4:
  "filter_peer_v5 local_id node =
     (filter_peer_v4 local_id node \<and> (case node of None \<Rightarrow> False | Some n \<Rightarrow> \<not> is_private (dn_ip n)))"
  "listen_for_new_nodes filter_peer_v5 local_id found
     = filter (\<lambda>n. \<not> is_private (dn_ip n)) (listen_for_new_nodes filter_peer_v4 local_id found)"
  "filter_peer_v4 None (Some \<lparr>dn_id = i, dn_ip = [192, 168, 1, 1], dn_tcp = Inr 30303\<rparr>)"
proof -
  show eq: "filter_peer_v5 local_id node =
     (filter_peer_v4 local_id node \<and> (case node of None \<Rightarrow> False | Some n \<Rightarrow> \<not> is_private (dn_ip n)))" for node
    by (cases node) (auto simp: filter_peer_v5_def filter_peer_v4_def)
  show "listen_for_new_nodes filter_peer_v5 local_id found
     = filter (\<lambda>n. \<not> is_private (dn_ip n)) (listen_for_new_nodes filter_peer_v4 local_id found)"
    by (simp add: listen_for_new_nodes_def eq conj_commute)
  show "filter_peer_v4 None (Some \<lparr>dn_id = i, dn_ip = [192, 168, 1, 1], dn_tcp = Inr 30303\<rparr>)"
    by (simp add: filter_peer_v4_def)
qed

text \<open>A listener that was returned releases everything; an error leaves open what came before it.\<close>

lemma create_listener_close:
  "create_listener i r = (Inr l, opened) \<Longrightarrow> mset (fst (close_listener l)) = mset opened"
  by (auto simp: create_listener_def close_listener_def split: option.splits)

lemma create_listener_leaks:
  "lr_socket r = None \<Longrightarrow> lr_database r = Some e \<Longrightarrow> create_listener i r = (Inl e, [Socket])"
  "lr_socket r = None \<Longrightarrow> lr_database r = None \<Longrightarrow> lr_protocol r = Some e \<Longrightarrow>
     create_listener i r = (Inl e, [Socket, Database])"
  by (simp_all add: create_listener_def)

lemma update_boot_nodes_atomic:
  "update_boot_nodes parse addrs d =
     (if \<forall>a \<in> set addrs. is_ok (parse a)
      then (Inr (), d\<lparr>d_boot_nodes := map (\<lambda>a. case parse a of Inr n \<Rightarrow> n) addrs\<rparr>)
      else (Inl (case parse (the (List.find (\<lambda>a. \<not> is_ok (parse a)) addrs)) of Inl e \<Rightarrow> e), d))"
proof -
  have "parse_all parse addrs =
     (if \<forall>a \<in> set addrs. is_ok (parse a) then Inr (map (\<lambda>a. case parse a of Inr n \<Rightarrow> n) addrs)
      else Inl (case parse (the (List.find (\<lambda>a. \<not> is_ok (parse a)) addrs)) of Inl e \<Rightarrow> e))"
    by (induction addrs) (auto split: sum.splits)
  then show ?thesis by (simp add: update_boot_nodes_def)
qed

end
