(* ===== verification/DiscoveryV4.thy ===== *)
theory DiscoveryV4
  imports Discovery
begin

text \<open>
  \<open>DiscV4\<close> method by method (\<open>pkg/discovery/disc_v4.go\<close>): each call of \<open>Start\<close>, \<open>Stop\<close>, the scheduled job and
  the rest run alone, with what \<open>Discovery\<close> leaves out of its machine: keys, local nodes, boot nodes,
  the resources of a listener one by one, and the nodes that are published. The refinement at the end
  says that each whole call is a run of the fine-grained machine. A listener, its socket, its
  database and its protocol instance carry the number \<open>vw_next\<close> had when it was made; \<open>vw_leaked\<close> are
  the resources an error left open with no listener around them.
\<close>

section \<open>State\<close>

record local_node =
  ln_key :: string
  ln_ip :: bytes
  ln_udp :: int
  ln_tcp :: int
  ln_fallback_ip :: bytes
  ln_fallback_udp :: int

record listener_v4 =
  lv_num :: nat
  lv_conn :: bool
  lv_local_node :: "local_node option"
  lv_discovery :: "string list option"

record disc_v4 =
  v4_restart :: int
  v4_boot_nodes :: "string list"
  v4_listener :: "listener_v4 option"
  v4_priv_key :: "string option"
  v4_handlers :: "string list"
  v4_scheduler :: "nat option"
  v4_started :: bool

record v4_world =
  vw_disc :: disc_v4
  vw_open :: "(resource \<times> nat) list"
  vw_leaked :: "resource list"
  vw_next :: nat
  vw_schedulers :: "nat list"
  vw_start_errors :: nat

definition new_disc_v4 :: "int \<Rightarrow> disc_v4" where
  "new_disc_v4 restart = \<lparr>v4_restart = restart, v4_boot_nodes = [], v4_listener = None, v4_priv_key = None,
     v4_handlers = [], v4_scheduler = None, v4_started = False\<rparr>"

definition new_v4_world :: "int \<Rightarrow> v4_world" where
  "new_v4_world restart = \<lparr>vw_disc = new_disc_v4 restart, vw_open = [], vw_leaked = [], vw_next = 0,
     vw_schedulers = [], vw_start_errors = 0\<rparr>"

definition on_v4 :: "(disc_v4 \<Rightarrow> disc_v4) \<Rightarrow> v4_world \<Rightarrow> v4_world" where
  "on_v4 f w = w\<lparr>vw_disc := f (vw_disc w)\<rparr>"

text \<open>What the libraries and the system answer while one call runs.\<close>

record v4_results =
  vr_key :: "string + string"
  vr_socket :: "string option"
  vr_database :: "string option"
  vr_protocol :: "string option"
  vr_cron_new :: "string option"
  vr_cron_job :: "string option"
  vr_conn_close :: "string option"
  vr_cron_stop :: "string option"

section \<open>Listeners\<close>

definition close_listener_v4 :: "v4_results \<Rightarrow> listener_v4 \<Rightarrow> v4_world \<Rightarrow> string option \<times> listener_v4 \<times> v4_world" where
  "close_listener_v4 r l w =
     (let n = lv_num l;
          gone = (if lv_discovery l \<noteq> None then {Protocol} else {}) \<union> (if lv_local_node l \<noteq> None then {Database} else {}) \<union>
                 (if lv_conn l then {Socket} else {})
      in (if lv_conn l then vr_conn_close r else None, l\<lparr>lv_local_node := None\<rparr>,
          w\<lparr>vw_open := filter (\<lambda>(x, m). \<not> (x \<in> gone \<and> m = n)) (vw_open w)\<rparr>))"

text \<open>The ID of a node is a function of its key.\<close>

definition get_local_node_id_v4 :: "(string \<Rightarrow> string) \<Rightarrow> listener_v4 \<Rightarrow> string option" where
  "get_local_node_id_v4 id_of l = map_option (\<lambda>n. id_of (ln_key n)) (lv_local_node l)"

definition create_local_node_v4 :: "v4_results \<Rightarrow> string \<Rightarrow> bytes \<Rightarrow> int \<Rightarrow> int \<Rightarrow> string + local_node" where
  "create_local_node_v4 r priv_key ip_addr udp_port tcp_port =
     (case vr_database r of
        Some e \<Rightarrow> Inl e
      | None \<Rightarrow> Inr \<lparr>ln_key = priv_key, ln_ip = ip_addr, ln_udp = udp_port, ln_tcp = tcp_port,
                    ln_fallback_ip = ip_addr, ln_fallback_udp = udp_port\<rparr>)"

text \<open>Only a protocol instance that started makes the resources those of a listener.\<close>

definition create_listener_v4 :: "v4_results \<Rightarrow> string \<Rightarrow> (v4_world, string, listener_v4) act" where
  "create_listener_v4 r priv_key = (\<lambda>w.
     let ip_addr = [0, 0, 0, 0]; n = vw_next w in
     case vr_socket r of
       Some e \<Rightarrow> (Inl e, w)
     | None \<Rightarrow>
         (case create_local_node_v4 r priv_key ip_addr 0 0 of
            Inl e \<Rightarrow> (Inl e, w\<lparr>vw_leaked := [Socket] @ vw_leaked w\<rparr>)
          | Inr node \<Rightarrow>
              (case vr_protocol r of
                 Some e \<Rightarrow> (Inl e, w\<lparr>vw_leaked := [Socket, Database] @ vw_leaked w\<rparr>)
               | None \<Rightarrow>
                   (Inr \<lparr>lv_num = n, lv_conn = True, lv_local_node = Some node,
                         lv_discovery = Some (v4_boot_nodes (vw_disc w))\<rparr>,
                    w\<lparr>vw_open := [(Protocol, n), (Database, n), (Socket, n)] @ vw_open w, vw_next := n + 1\<rparr>))))"

text \<open>\<open>startDiscovery\<close> adds a log message.\<close>

definition start_discovery_v4 :: "v4_results \<Rightarrow> string \<Rightarrow> (v4_world, string, listener_v4) act" where
  "start_discovery_v4 r priv_key = act_bind (create_listener_v4 r priv_key) (\<lambda>listener. act_return listener)"

definition start_listener_v4 :: "v4_results \<Rightarrow> (v4_world, string, unit) act" where
  "start_listener_v4 r = (\<lambda>w.
     let w1 = (case v4_listener (vw_disc w) of
                 Some l \<Rightarrow> on_v4 (\<lambda>d. d\<lparr>v4_listener := None\<rparr>) (snd (snd (close_listener_v4 r l w)))
               | None \<Rightarrow> w) in
     case vr_key r of
       Inl e \<Rightarrow> (Inl e, w1)
     | Inr priv_key \<Rightarrow>
         (case start_discovery_v4 r priv_key (on_v4 (\<lambda>d. d\<lparr>v4_priv_key := Some priv_key\<rparr>) w1) of
            (Inl e, w2) \<Rightarrow> (Inl e, w2)
          | (Inr listener, w2) \<Rightarrow> (Inr (), on_v4 (\<lambda>d. d\<lparr>v4_listener := Some listener\<rparr>) w2)))"

section \<open>Start, Stop and the job\<close>

definition start_crons_v4 :: "v4_results \<Rightarrow> (v4_world, string, unit) act" where
  "start_crons_v4 r = (\<lambda>w.
     if v4_scheduler (vw_disc w) \<noteq> None then (Inr (), w)
     else
       case vr_cron_new r of
         Some e \<Rightarrow> (Inl e, w)
       | None \<Rightarrow>
           (case vr_cron_job r of
              Some e \<Rightarrow> (Inl e, w)
            | None \<Rightarrow>
                (Inr (), (on_v4 (\<lambda>d. d\<lparr>v4_scheduler := Some (vw_next w)\<rparr>) w)
                  \<lparr>vw_schedulers := vw_next w # vw_schedulers w, vw_next := vw_next w + 1\<rparr>)))"

definition start_v4 :: "v4_results \<Rightarrow> (v4_world, string, unit) act" where
  "start_v4 r = (\<lambda>w.
     if v4_started (vw_disc w) then (Inr (), w)
     else
       case start_crons_v4 r (on_v4 (\<lambda>d. d\<lparr>v4_started := True\<rparr>) w) of
         (Inl e, w1) \<Rightarrow> (Inl e, w1\<lparr>vw_start_errors := Suc (vw_start_errors w1)\<rparr>)
       | (Inr _, w1) \<Rightarrow> (Inr (), w1))"

text \<open>The task given to the scheduler; an error is logged.\<close>

definition restart_job_v4 :: "v4_results \<Rightarrow> v4_world \<Rightarrow> string option \<times> v4_world" where
  "restart_job_v4 r w =
     (if \<not> v4_started (vw_disc w) then (None, w)
      else case start_listener_v4 r w of (Inl e, w') \<Rightarrow> (Some e, w') | (Inr _, w') \<Rightarrow> (None, w'))"

definition stop_v4 :: "v4_results \<Rightarrow> (v4_world, string, unit) act" where
  "stop_v4 r = (\<lambda>w.
     let listener = v4_listener (vw_disc w); scheduler = v4_scheduler (vw_disc w);
         w1 = on_v4 (\<lambda>d. d\<lparr>v4_started := False, v4_listener := None, v4_scheduler := None\<rparr>) w;
         w2 = (case listener of Some l \<Rightarrow> snd (snd (close_listener_v4 r l w1)) | None \<Rightarrow> w1) in
     case scheduler of
       None \<Rightarrow> (Inr (), w2)
     | Some s \<Rightarrow>
         (case vr_cron_stop r of Some e \<Rightarrow> Inl e | None \<Rightarrow> Inr (), w2\<lparr>vw_schedulers := filter (\<lambda>t. t \<noteq> s) (vw_schedulers w2)\<rparr>))"

section \<open>Boot nodes and records\<close>

definition update_boot_nodes_v4 :: "(string \<Rightarrow> string + string) \<Rightarrow> string list \<Rightarrow> (v4_world, string, unit) act" where
  "update_boot_nodes_v4 parse addrs = (\<lambda>w.
     case parse_all parse addrs of
       Inl e \<Rightarrow> (Inl e, w)
     | Inr bn \<Rightarrow> (Inr (), on_v4 (\<lambda>d. d\<lparr>v4_boot_nodes := bn\<rparr>) w))"

definition on_node_record_v4 :: "string \<Rightarrow> v4_world \<Rightarrow> v4_world" where
  "on_node_record_v4 handler = on_v4 (\<lambda>d. d\<lparr>v4_handlers := v4_handlers d @ [handler]\<rparr>)"

text \<open>The handlers run for a record and the errors logged.\<close>

definition handle_subscriber_error_v4 :: "string option \<Rightarrow> string list" where
  "handle_subscriber_error_v4 err = (case err of None \<Rightarrow> [] | Some e \<Rightarrow> [e])"

definition publish_node_record_v4 ::
  "(string \<Rightarrow> disc_node \<Rightarrow> string option) \<Rightarrow> disc_node \<Rightarrow> disc_v4 \<Rightarrow> (string \<times> disc_node) list \<times> string list" where
  "publish_node_record_v4 result node d =
     (map (\<lambda>h. (h, node)) (v4_handlers d), concat (map (\<lambda>h. handle_subscriber_error_v4 (result h node)) (v4_handlers d)))"

text \<open>
  \<open>listenForNewNodes\<close>: what the iterator gave until it was closed, each node with the service as it was
  when the filter and the emitter looked at it.
\<close>

definition listen_for_new_nodes_v4 ::
  "(string \<Rightarrow> string) \<Rightarrow> (string \<Rightarrow> disc_node \<Rightarrow> string option) \<Rightarrow> disc_v4 \<Rightarrow> (disc_node option \<times> disc_v4) list \<Rightarrow>
     (string \<times> disc_node) list" where
  "listen_for_new_nodes_v4 id_of result d found =
     (case v4_listener d of
        None \<Rightarrow> []
      | Some l \<Rightarrow>
          if lv_discovery l = None then []
          else concat (map (\<lambda>(node, now).
                 if filter_peer_v4 (Option.bind (v4_listener now) (get_local_node_id_v4 id_of)) node
                 then (case node of Some n \<Rightarrow> fst (publish_node_record_v4 result n now) | None \<Rightarrow> []) else []) found))"

section \<open>Whole calls are runs of the machine\<close>

text \<open>The machine's view: a listener is open while its protocol instance is.\<close>

definition v4_abs :: "v4_world \<Rightarrow> disc_world" where
  "v4_abs w =
     \<lparr>w_disc = \<lparr>d_boot_nodes = [], d_listener = map_option lv_num (v4_listener (vw_disc w)),
        d_scheduler = v4_scheduler (vw_disc w), d_started = v4_started (vw_disc w), d_handlers = []\<rparr>,
      w_open = map snd (filter (\<lambda>(x, n). x = Protocol) (vw_open w)), w_lost = [], w_next = vw_next w,
      w_schedulers = vw_schedulers w, w_starters = [], w_jobs = [], w_stops = [], w_start_errors = vw_start_errors w\<rparr>"

datatype v4_call =
    V4Start v4_results | V4Stop v4_results | V4Job v4_results
  | V4BootNodes "string \<Rightarrow> string + string" "string list" | V4Subscribe string

fun v4_do :: "v4_call \<Rightarrow> v4_world \<Rightarrow> v4_world" where
  "v4_do (V4Start r) w = snd (start_v4 r w)"
| "v4_do (V4Stop r) w = snd (stop_v4 r w)"
| "v4_do (V4Job r) w = (if vw_schedulers w = [] then w else snd (restart_job_v4 r w))"
| "v4_do (V4BootNodes parse addrs) w = snd (update_boot_nodes_v4 parse addrs w)"
| "v4_do (V4Subscribe h) w = on_node_record_v4 h w"

text \<open>Every resource that is open belongs to the current listener, each once.\<close>

definition listener_resources :: "listener_v4 option \<Rightarrow> (resource \<times> nat) list" where
  "listener_resources l =
     (case l of None \<Rightarrow> [] | Some l \<Rightarrow> [(Protocol, lv_num l), (Database, lv_num l), (Socket, lv_num l)])"

definition whole_listener :: "listener_v4 option \<Rightarrow> bool" where
  "whole_listener l =
     (case l of None \<Rightarrow> True | Some l \<Rightarrow> lv_conn l \<and> lv_local_node l \<noteq> None \<and> lv_discovery l \<noteq> None)"

definition v4_inv :: "v4_world \<Rightarrow> bool" where
  "v4_inv w \<longleftrightarrow> vw_open w = listener_resources (v4_listener (vw_disc w)) \<and> whole_listener (v4_listener (vw_disc w))"

lemma close_current:
  assumes "v4_inv w" "v4_listener (vw_disc w) = Some l"
  shows "snd (snd (close_listener_v4 r l (on_v4 f w))) = on_v4 f w\<lparr>vw_open := []\<rparr>"
  using assms by (auto simp: close_listener_v4_def v4_inv_def listener_resources_def whole_listener_def on_v4_def Let_def)

lemma close_current_id:
  assumes "v4_inv w" "v4_listener (vw_disc w) = Some l"
  shows "snd (snd (close_listener_v4 r l w)) = w\<lparr>vw_open := []\<rparr>"
  using close_current [OF assms, of r id] by (simp add: on_v4_def)

definition fresh_listener :: "string \<Rightarrow> v4_world \<Rightarrow> listener_v4" where
  "fresh_listener key w = \<lparr>lv_num = vw_next w, lv_conn = True,
     lv_local_node = Some \<lparr>ln_key = key, ln_ip = [0, 0, 0, 0], ln_udp = 0, ln_tcp = 0,
       ln_fallback_ip = [0, 0, 0, 0], ln_fallback_udp = 0\<rparr>,
     lv_discovery = Some (v4_boot_nodes (vw_disc w))\<rparr>"

lemma create_listener_v4_cases:
  obtains (failed) e lk where "create_listener_v4 r key w = (Inl e, w\<lparr>vw_leaked := lk @ vw_leaked w\<rparr>)"
  | (made) "create_listener_v4 r key w = (Inr (fresh_listener key w),
      w\<lparr>vw_open := listener_resources (Some (fresh_listener key w)) @ vw_open w, vw_next := vw_next w + 1\<rparr>)"
proof -
  note run = create_listener_v4_def create_local_node_v4_def Let_def
  have "create_listener_v4 r key w = (Inl e, w\<lparr>vw_leaked := [] @ vw_leaked w\<rparr>)" if "vr_socket r = Some e" for e
    using that by (simp add: run)
  moreover have "create_listener_v4 r key w = (Inl e, w\<lparr>vw_leaked := [Socket] @ vw_leaked w\<rparr>)"
    if "vr_socket r = None" "vr_database r = Some e" for e
    using that by (simp add: run)
  moreover have "create_listener_v4 r key w = (Inl e, w\<lparr>vw_leaked := [Socket, Database] @ vw_leaked w\<rparr>)"
    if "vr_socket r = None" "vr_database r = None" "vr_protocol r = Some e" for e
    using that by (simp add: run)
  moreover have ?thesis if "vr_socket r = None" "vr_database r = None" "vr_protocol r = None"
    using that by (intro made) (simp add: run fresh_listener_def listener_resources_def)
  ultimately show thesis by (metis failed option.exhaust)
qed

text \<open>What the first part of \<open>startListener\<close> leaves, and the whole of it.\<close>

definition without_listener :: "v4_world \<Rightarrow> v4_world" where
  "without_listener w = (on_v4 (\<lambda>d. d\<lparr>v4_listener := None\<rparr>) w)\<lparr>vw_open := []\<rparr>"

lemma start_listener_first:
  assumes "v4_inv w"
  shows "(case v4_listener (vw_disc w) of
            Some l \<Rightarrow> on_v4 (\<lambda>d. d\<lparr>v4_listener := None\<rparr>) (snd (snd (close_listener_v4 r l w)))
          | None \<Rightarrow> w) = without_listener w"
proof (cases "v4_listener (vw_disc w)")
  case None
  then show ?thesis using assms by (simp add: without_listener_def on_v4_def v4_inv_def listener_resources_def)
next
  case (Some l)
  then show ?thesis using close_current_id [OF assms Some, of r] by (simp add: without_listener_def on_v4_def)
qed

lemma start_listener_cases:
  assumes "v4_inv w"
  obtains (failed) e k lk where
      "start_listener_v4 r w = (Inl e, (on_v4 (\<lambda>d. d\<lparr>v4_priv_key := k\<rparr>) (without_listener w))\<lparr>vw_leaked := lk @ vw_leaked w\<rparr>)"
  | (running) k where "start_listener_v4 r w = (Inr (),
      (on_v4 (\<lambda>d. d\<lparr>v4_priv_key := Some k, v4_listener := Some (fresh_listener k w)\<rparr>) (without_listener w))
      \<lparr>vw_open := listener_resources (Some (fresh_listener k w)), vw_next := vw_next w + 1\<rparr>)"
proof (cases "vr_key r")
  case (Inl e)
  then have "start_listener_v4 r w = (Inl e, (on_v4 (\<lambda>d. d\<lparr>v4_priv_key := v4_priv_key (vw_disc w)\<rparr>) (without_listener w))
      \<lparr>vw_leaked := [] @ vw_leaked w\<rparr>)"
    by (simp add: start_listener_v4_def start_listener_first [OF assms] Let_def without_listener_def on_v4_def)
  then show thesis by (rule failed)
next
  case (Inr key)
  let ?w1 = "on_v4 (\<lambda>d. d\<lparr>v4_priv_key := Some key\<rparr>) (without_listener w)"
  have fresh: "fresh_listener key ?w1 = fresh_listener key w"
    by (simp add: fresh_listener_def on_v4_def without_listener_def)
  have run: "start_listener_v4 r w = (case create_listener_v4 r key ?w1 of
      (Inl e, w2) \<Rightarrow> (Inl e, w2) | (Inr l, w2) \<Rightarrow> (Inr (), on_v4 (\<lambda>d. d\<lparr>v4_listener := Some l\<rparr>) w2))"
    by (simp add: start_listener_v4_def start_listener_first [OF assms] Inr start_discovery_v4_def act_run Let_def
        split: sum.splits prod.splits)
  show thesis
  proof (cases rule: create_listener_v4_cases [of r key ?w1])
    case (failed e lk)
    then show thesis using that(1) [of e lk "Some key"] run by (simp add: on_v4_def without_listener_def)
  next
    case made
    then show thesis using that(2) [of key] run fresh by (simp add: on_v4_def without_listener_def)
  qed
qed

lemma v4_do_inv:
  assumes "v4_inv w"
  shows "v4_inv (v4_do c w)"
proof (cases c)
  case (V4Start r)
  with assms show ?thesis
    by (auto simp: start_v4_def start_crons_v4_def v4_inv_def on_v4_def split: option.splits sum.splits prod.splits if_splits)
next
  case (V4Stop r)
  with assms show ?thesis
    by (cases "v4_listener (vw_disc w)")
      (auto simp: stop_v4_def Let_def close_current [OF assms] split: option.splits; auto simp: v4_inv_def on_v4_def listener_resources_def whole_listener_def)+
next
  case (V4Job r)
  then show ?thesis
    by (cases rule: start_listener_cases [OF assms, of r])
      (use assms in \<open>auto simp: restart_job_v4_def v4_inv_def on_v4_def without_listener_def listener_resources_def
        whole_listener_def fresh_listener_def\<close>)
next
  case (V4BootNodes parse addrs)
  with assms show ?thesis by (auto simp: update_boot_nodes_v4_def v4_inv_def on_v4_def split: sum.splits)
next
  case (V4Subscribe h)
  with assms show ?thesis by (simp add: on_node_record_v4_def v4_inv_def on_v4_def)
qed

lemma v4_abs_open: "v4_inv w \<Longrightarrow> w_open (v4_abs w) = opt_list (map_option lv_num (v4_listener (vw_disc w)))"
  by (auto simp: v4_abs_def v4_inv_def listener_resources_def opt_list_def split: option.splits)

lemma start_v4_run: "\<exists>ls. disc_run False ls (v4_abs w) = Some (v4_abs (snd (start_v4 r w)))"
proof -
  consider (on) "v4_started (vw_disc w)"
    | (has) "\<not> v4_started (vw_disc w)" "v4_scheduler (vw_disc w) \<noteq> None"
    | (make) "\<not> v4_started (vw_disc w)" "v4_scheduler (vw_disc w) = None" by blast
  then show ?thesis
  proof cases
    case on
    then have "disc_run False [LStart] (v4_abs w) = Some (v4_abs (snd (start_v4 r w)))"
      by (simp add: start_v4_def v4_abs_def start_call_def)
    then show ?thesis by blast
  next
    case has
    then have "disc_run False [LStart, LCronCheck 0] (v4_abs w) = Some (v4_abs (snd (start_v4 r w)))"
      by (simp add: start_v4_def start_crons_v4_def v4_abs_def start_call_def cron_check_def drop_at_def on_v4_def)
    then show ?thesis by blast
  next
    case make
    then have "disc_run False [LStart, LCronCheck 0, LCronMake 0 (vr_cron_new r = None \<and> vr_cron_job r = None)] (v4_abs w)
        = Some (v4_abs (snd (start_v4 r w)))"
      by (cases "vr_cron_new r"; cases "vr_cron_job r")
        (simp_all add: start_v4_def start_crons_v4_def v4_abs_def start_call_def cron_check_def cron_make_def drop_at_def on_v4_def)
    then show ?thesis by blast
  qed
qed

lemma stop_v4_state:
  assumes "v4_inv w"
  shows "snd (stop_v4 r w) = (on_v4 (\<lambda>d. d\<lparr>v4_started := False, v4_listener := None, v4_scheduler := None\<rparr>) w)
    \<lparr>vw_open := [], vw_schedulers := filter (\<lambda>t. Some t \<noteq> v4_scheduler (vw_disc w)) (vw_schedulers w)\<rparr>"
proof (cases "v4_listener (vw_disc w)")
  case None
  with assms have "vw_open w = []" by (simp add: v4_inv_def listener_resources_def)
  with None show ?thesis
    by (cases "v4_scheduler (vw_disc w)") (simp_all add: stop_v4_def on_v4_def)
next
  case (Some l)
  then show ?thesis
    by (cases "v4_scheduler (vw_disc w)") (simp_all add: stop_v4_def Let_def close_current [OF assms Some], simp_all add: on_v4_def)
qed

lemma stop_v4_run:
  assumes "v4_inv w"
  shows "\<exists>ls. disc_run False ls (v4_abs w) = Some (v4_abs (snd (stop_v4 r w)))"
proof -
  have "disc_run False [LStop, LStopped 0] (v4_abs w) = Some (v4_abs (snd (stop_v4 r w)))"
    using v4_abs_open [OF assms]
    by (cases "v4_listener (vw_disc w)")
      (simp_all add: stop_v4_state [OF assms] on_v4_def v4_abs_def stop_take_def stop_finish_def drop_at_def
        close_open_def opt_list_def)
  then show ?thesis by blast
qed

lemma restart_job_v4_run:
  assumes "v4_inv w" "vw_schedulers w \<noteq> []"
  shows "\<exists>ls. disc_run False ls (v4_abs w) = Some (v4_abs (snd (restart_job_v4 r w)))"
proof (cases "v4_started (vw_disc w)")
  case False
  then have "disc_run False [LJob] (v4_abs w) = Some (v4_abs (snd (restart_job_v4 r w)))"
    using assms(2) by (simp add: restart_job_v4_def v4_abs_def job_begin_def)
  then show ?thesis by blast
next
  case True
  note run = restart_job_v4_def v4_abs_def job_begin_def job_close_def job_create_def job_store_def drop_at_def close_open_def
    opt_list_def without_listener_def on_v4_def
  note open_abs = v4_abs_open [OF assms(1), unfolded v4_abs_def, simplified]
  from assms(1) show ?thesis
  proof (cases rule: start_listener_cases [where r = r])
    case (failed e k lk)
    then have "disc_run False [LJob, LClose 0, LCreate 0 False] (v4_abs w) = Some (v4_abs (snd (restart_job_v4 r w)))"
      using True assms(2) open_abs by (cases "v4_listener (vw_disc w)") (simp_all add: run)
    then show ?thesis by blast
  next
    case (running k)
    then have "disc_run False [LJob, LClose 0, LCreate 0 True, LStore 0] (v4_abs w) = Some (v4_abs (snd (restart_job_v4 r w)))"
      using True assms(2) open_abs
      by (cases "v4_listener (vw_disc w)") (simp_all add: run listener_resources_def fresh_listener_def)
    then show ?thesis by blast
  qed
qed

lemma v4_call_run:
  assumes "v4_inv w"
  shows "\<exists>ls. disc_run False ls (v4_abs w) = Some (v4_abs (v4_do c w))"
proof (cases c)
  case (V4BootNodes parse addrs)
  then have "v4_abs (v4_do c w) = v4_abs w"
    by (auto simp: update_boot_nodes_v4_def v4_abs_def on_v4_def split: sum.splits)
  then show ?thesis by (intro exI [of _ "[]"]) simp
next
  case (V4Subscribe h)
  then have "v4_abs (v4_do c w) = v4_abs w" by (simp add: on_node_record_v4_def v4_abs_def on_v4_def)
  then show ?thesis by (intro exI [of _ "[]"]) simp
next
  case (V4Job r)
  then show ?thesis using restart_job_v4_run [OF assms] by (cases "vw_schedulers w = []") (auto intro: exI [of _ "[]"])
qed (use start_v4_run stop_v4_run [OF assms] in simp_all)

fun v4_run :: "v4_call list \<Rightarrow> v4_world \<Rightarrow> v4_world" where
  "v4_run [] w = w"
| "v4_run (c # cs) w = v4_run cs (v4_do c w)"

lemma v4_run_reaches:
  assumes "v4_inv w" "reachable (\<lambda>w. w = new_world) (disc_step False) (v4_abs w)"
  shows "v4_inv (v4_run cs w) \<and> reachable (\<lambda>w. w = new_world) (disc_step False) (v4_abs (v4_run cs w))"
  using assms
proof (induction cs arbitrary: w)
  case (Cons c cs)
  obtain ls where "disc_run False ls (v4_abs w) = Some (v4_abs (v4_do c w))" using v4_call_run [OF Cons.prems(1)] by blast
  with Cons.prems have "reachable (\<lambda>w. w = new_world) (disc_step False) (v4_abs (v4_do c w))"
    by (blast intro: disc_run_reachable)
  with Cons.IH [OF v4_do_inv [OF Cons.prems(1)]] show ?case by simp
qed simp

lemma v4_new: "v4_inv (new_v4_world restart)" "v4_abs (new_v4_world restart) = new_world"
  by (simp_all add: v4_inv_def new_v4_world_def new_disc_v4_def listener_resources_def whole_listener_def v4_abs_def
      new_world_def new_disc_v5_def)

text \<open>
  C38: any sequence of whole calls of \<open>DiscV4\<close>, whatever the libraries answer, is a run of the machine of
  \<open>Discovery\<close>, and so is each call on its own, so what that says of every interleaving holds of it; and
  between two calls the open
  resources are exactly the socket, the database and the protocol instance of the current listener,
  apart from those that a failed start of a listener left open behind it.
\<close>

theorem disc_v4_refines:
  "reachable (\<lambda>w. w = new_world) (disc_step False) (v4_abs (v4_run cs (new_v4_world restart))) \<and>
   (\<exists>ls. disc_run False ls (v4_abs (v4_run cs (new_v4_world restart))) =
      Some (v4_abs (v4_do c (v4_run cs (new_v4_world restart))))) \<and>
   vw_open (v4_run cs (new_v4_world restart)) =
     listener_resources (v4_listener (vw_disc (v4_run cs (new_v4_world restart))))"
proof -
  have "reachable (\<lambda>w. w = new_world) (disc_step False) (v4_abs (new_v4_world restart))"
    by (rule reach_init) (simp add: v4_new)
  with v4_new(1) have inv: "v4_inv (v4_run cs (new_v4_world restart))"
    and "reachable (\<lambda>w. w = new_world) (disc_step False) (v4_abs (v4_run cs (new_v4_world restart)))"
    using v4_run_reaches by blast+
  with v4_call_run [OF inv, of c] show ?thesis by (simp add: v4_inv_def)
qed

text \<open>
  New boot nodes wait for the next job: the running listener keeps the ones it was made with, and the
  listener of a job that succeeds has those of that moment, and a key of its own.
\<close>

lemma boot_nodes_take_effect:
  assumes "v4_inv w"
  shows "v4_listener (vw_disc (snd (update_boot_nodes_v4 parse addrs w))) = v4_listener (vw_disc w)"
    and "v4_started (vw_disc w) \<Longrightarrow> restart_job_v4 r w = (None, w') \<Longrightarrow>
           \<exists>l k. v4_listener (vw_disc w') = Some l \<and> lv_discovery l = Some (v4_boot_nodes (vw_disc w)) \<and>
             v4_priv_key (vw_disc w') = Some k \<and> map_option ln_key (lv_local_node l) = Some k"
proof -
  show "v4_listener (vw_disc (snd (update_boot_nodes_v4 parse addrs w))) = v4_listener (vw_disc w)"
    by (simp add: update_boot_nodes_v4_def on_v4_def split: sum.splits)
  assume "v4_started (vw_disc w)" "restart_job_v4 r w = (None, w')"
  then show "\<exists>l k. v4_listener (vw_disc w') = Some l \<and> lv_discovery l = Some (v4_boot_nodes (vw_disc w)) \<and>
             v4_priv_key (vw_disc w') = Some k \<and> map_option ln_key (lv_local_node l) = Some k"
    by (cases rule: start_listener_cases [OF assms, of r])
      (auto simp: restart_job_v4_def on_v4_def without_listener_def fresh_listener_def)
qed

text \<open>Each failed start of a listener leaves what it had opened, with nothing that could close it.\<close>

lemma failed_listener_leaks:
  assumes "v4_inv w" "v4_started (vw_disc w)" "vr_key r = Inr k" "vr_socket r = None" "vr_database r = None"
    and "vr_protocol r = Some e"
  shows "restart_job_v4 r w = (Some e, w') \<Longrightarrow> vw_leaked w' = [Socket, Database] @ vw_leaked w \<and> v4_listener (vw_disc w') = None"
  using assms(2-) start_listener_first [OF assms(1), of r]
  by (auto simp: restart_job_v4_def start_listener_v4_def start_discovery_v4_def create_listener_v4_def create_local_node_v4_def
      act_run Let_def on_v4_def without_listener_def)

end
