(* ===== verification/ExecMessages.thy ===== *)
theory ExecMessages
  imports GoStrings
begin

text \<open>
  The messages of the execution client, \<open>pkg/execution/mimicry\<close>: the RLPx \<open>Hello\<close> and
  \<open>Disconnect\<close>, the eth \<open>Status\<close> in its two layouts, and the requests and answers the client
  handles. RLP, snappy and go-ethereum's message numbers are parameters, collected in one
  record \<open>exec_lib\<close>. Unsigned integers are natural numbers: they are only compared and printed.
  Packets the client passes on without looking inside are kept as byte strings.
\<close>

section \<open>Packets\<close>

record cap =
  cap_name :: string
  cap_version :: nat

record hello =
  h_version :: nat
  h_name :: string
  h_caps :: "cap list"
  h_listen_port :: nat
  h_id :: bytes

record fork_id =
  fid_hash :: bytes
  fid_next :: nat

record status68_packet =
  s68_protocol_version :: nat
  s68_network_id :: nat
  s68_td :: int
  s68_head :: bytes
  s68_genesis :: bytes
  s68_fork_id :: fork_id

text \<open>go-ethereum's \<open>eth.StatusPacket\<close>, the layout of eth/69 and later.\<close>

record status69_packet =
  s69_protocol_version :: nat
  s69_network_id :: nat
  s69_genesis :: bytes
  s69_fork_id :: fork_id
  s69_earliest_block :: nat
  s69_latest_block :: nat
  s69_latest_block_hash :: bytes

text \<open>The \<open>Status\<close> interface; a provider may return a type of its own.\<close>

datatype status = Status68 status68_packet | Status69 status69_packet | StatusOther nat

record block_headers_request =
  bhr_request_id :: nat
  bhr_request :: "bytes option"

record hashes_request =
  hr_request_id :: nat
  hr_hashes :: "bytes list"

record receipts_request =
  rr_request_id :: nat
  rr_hashes :: "bytes list"
  rr_first_block_receipt_index :: nat

text \<open>The answer to a receipts request, in the layout of eth/69 or eth/70.\<close>

datatype receipts = Receipts69 nat "bytes list" | Receipts70 nat bool "bytes list"

record pooled_transactions =
  pt_request_id :: nat
  pt_list :: bytes

text \<open>The libraries: message numbers, RLP encoders and decoders, snappy.\<close>

record exec_lib =
  StatusMsg :: nat
  TransactionsMsg :: nat
  GetBlockHeadersMsg :: nat
  BlockHeadersMsg :: nat
  GetBlockBodiesMsg :: nat
  BlockBodiesMsg :: nat
  NewPooledTransactionHashesMsg :: nat
  GetPooledTransactionsMsg :: nat
  PooledTransactionsMsg :: nat
  GetReceiptsMsg :: nat
  ReceiptsMsg :: nat
  BlockRangeUpdateMsg :: nat
  rlp_decode_hello :: "bytes \<Rightarrow> string + hello"
  rlp_encode_hello :: "hello \<Rightarrow> string + bytes"
  rlp_decode_status68 :: "bytes \<Rightarrow> string + status68_packet"
  rlp_encode_status68 :: "status68_packet \<Rightarrow> string + bytes"
  rlp_decode_status69 :: "bytes \<Rightarrow> string + status69_packet"
  rlp_encode_status69 :: "status69_packet \<Rightarrow> string + bytes"
  rlp_decode_opaque :: "bytes \<Rightarrow> string + bytes"
  rlp_decode_block_headers_request :: "bytes \<Rightarrow> string + block_headers_request"
  rlp_decode_hashes_request :: "bytes \<Rightarrow> string + hashes_request"
  rlp_decode_receipts70_request :: "bytes \<Rightarrow> string + receipts_request"
  rlp_decode_pooled :: "bytes \<Rightarrow> string + pooled_transactions"
  rlp_encode_raw_list :: "bytes list \<Rightarrow> string + bytes list"
  rlp_encode_response :: "nat \<Rightarrow> bytes list \<Rightarrow> string + bytes"
  rlp_encode_receipts70 :: "nat \<Rightarrow> bool \<Rightarrow> bytes list \<Rightarrow> string + bytes"
  rlp_encode_hashes_request :: "hashes_request \<Rightarrow> string + bytes"
  rlp_decode_raw_values :: "bytes \<Rightarrow> string + bytes list"
  rlp_decode_bytes :: "bytes \<Rightarrow> string + bytes"
  rlp_decode_reason :: "bytes \<Rightarrow> string + nat"
  snappy_decode_frame :: "bytes \<Rightarrow> string + bytes"
  DiscInvalid :: nat

definition RLPXOffset :: nat where "RLPXOffset = 0x10"

definition HelloCode :: nat where "HelloCode = 0x00"
definition DisconnectCode :: nat where "DisconnectCode = 0x01"
definition PingCode :: nat where "PingCode = 0x02"
definition PongCode :: nat where "PongCode = 0x03"
definition StatusCode :: "exec_lib \<Rightarrow> nat" where "StatusCode lib = RLPXOffset + StatusMsg lib"
definition TransactionsCode :: "exec_lib \<Rightarrow> nat" where "TransactionsCode lib = RLPXOffset + TransactionsMsg lib"
definition GetBlockHeadersCode :: "exec_lib \<Rightarrow> nat" where "GetBlockHeadersCode lib = RLPXOffset + GetBlockHeadersMsg lib"
definition BlockHeadersCode :: "exec_lib \<Rightarrow> nat" where "BlockHeadersCode lib = RLPXOffset + BlockHeadersMsg lib"
definition GetBlockBodiesCode :: "exec_lib \<Rightarrow> nat" where "GetBlockBodiesCode lib = RLPXOffset + GetBlockBodiesMsg lib"
definition BlockBodiesCode :: "exec_lib \<Rightarrow> nat" where "BlockBodiesCode lib = RLPXOffset + BlockBodiesMsg lib"
definition NewPooledTransactionHashesCode :: "exec_lib \<Rightarrow> nat" where
  "NewPooledTransactionHashesCode lib = RLPXOffset + NewPooledTransactionHashesMsg lib"
definition GetPooledTransactionsCode :: "exec_lib \<Rightarrow> nat" where
  "GetPooledTransactionsCode lib = RLPXOffset + GetPooledTransactionsMsg lib"
definition PooledTransactionsCode :: "exec_lib \<Rightarrow> nat" where
  "PooledTransactionsCode lib = RLPXOffset + PooledTransactionsMsg lib"
definition GetReceiptsCode :: "exec_lib \<Rightarrow> nat" where "GetReceiptsCode lib = RLPXOffset + GetReceiptsMsg lib"
definition ReceiptsCode :: "exec_lib \<Rightarrow> nat" where "ReceiptsCode lib = RLPXOffset + ReceiptsMsg lib"
definition BlockRangeUpdateCode :: "exec_lib \<Rightarrow> nat" where "BlockRangeUpdateCode lib = RLPXOffset + BlockRangeUpdateMsg lib"

lemmas exec_codes = RLPXOffset_def HelloCode_def DisconnectCode_def PingCode_def PongCode_def StatusCode_def
  TransactionsCode_def GetBlockHeadersCode_def BlockHeadersCode_def GetBlockBodiesCode_def BlockBodiesCode_def
  NewPooledTransactionHashesCode_def GetPooledTransactionsCode_def PooledTransactionsCode_def GetReceiptsCode_def
  ReceiptsCode_def BlockRangeUpdateCode_def

section \<open>Hello\<close>

definition P2PProtocolVersion :: nat where "P2PProtocolVersion = 5"
definition minP2PProtocolVersion :: nat where "minP2PProtocolVersion = 5"
definition minETHProtocolVersion :: nat where "minETHProtocolVersion = 68"
definition maxETHProtocolVersion :: nat where "maxETHProtocolVersion = 70"
definition ETHCapName :: string where "ETHCapName = ''eth''"

lemmas hello_consts = P2PProtocolVersion_def minP2PProtocolVersion_def minETHProtocolVersion_def
  maxETHProtocolVersion_def ETHCapName_def

definition eth_cap :: "hello \<Rightarrow> cap option" where
  "eth_cap h = List.find (\<lambda>c. cap_name c = ETHCapName) (h_caps h)"

definition supported_version :: "nat \<Rightarrow> bool" where
  "supported_version v = (minETHProtocolVersion \<le> v \<and> v \<le> maxETHProtocolVersion)"

text \<open>The loop of \<open>Validate\<close> over the capabilities, with its two variables.\<close>

fun scan_caps :: "bool \<Rightarrow> nat \<Rightarrow> cap list \<Rightarrow> bool \<times> nat" where
  "scan_caps supports highest [] = (supports, highest)"
| "scan_caps supports highest (c # cs) =
     (if cap_name c = ETHCapName then
        scan_caps (supports \<or> supported_version (cap_version c)) (if highest < cap_version c then cap_version c else highest) cs
      else scan_caps supports highest cs)"

definition validate_hello :: "hello \<Rightarrow> string option" where
  "validate_hello h =
     (if h_version h < minP2PProtocolVersion then
        Some (''peer is using unsupported p2p protocol version: '' @ dec_of_nat (h_version h))
      else
        (case scan_caps False 0 (h_caps h) of
           (supports, highest) \<Rightarrow>
             if highest = 0 then Some ''peer does not support eth protocol''
             else if \<not> supports then Some (''peer is using unsupported eth protocol version: '' @ dec_of_nat highest)
             else None))"

fun scan_version :: "nat \<Rightarrow> cap list \<Rightarrow> nat" where
  "scan_version highest [] = highest"
| "scan_version highest (c # cs) =
     (if cap_name c = ETHCapName \<and> highest < cap_version c \<and> supported_version (cap_version c)
      then scan_version (cap_version c) cs else scan_version highest cs)"

definition eth_protocol_version :: "hello \<Rightarrow> nat" where
  "eth_protocol_version h = scan_version 0 (h_caps h)"

text \<open>The loop of \<open>SupportedEthCaps\<close>, which also stops at 0 because its counter is unsigned.\<close>

fun eth_caps_from :: "nat \<Rightarrow> cap list" where
  "eth_caps_from i =
     (if minETHProtocolVersion \<le> i then
        \<lparr>cap_name = ETHCapName, cap_version = i\<rparr> # (if i = 0 then [] else eth_caps_from (i - 1))
      else [])"

declare eth_caps_from.simps [simp del]

definition supported_eth_caps :: "cap list" where
  "supported_eth_caps = eth_caps_from maxETHProtocolVersion"

definition eth_versions :: "hello \<Rightarrow> nat set" where
  "eth_versions h = {cap_version c | c. c \<in> set (h_caps h) \<and> cap_name c = ETHCapName}"

lemma scan_caps_result:
  "scan_caps s m cs = (s \<or> (\<exists>c \<in> set cs. cap_name c = ETHCapName \<and> supported_version (cap_version c)),
     foldl max m (map cap_version (filter (\<lambda>c. cap_name c = ETHCapName) cs)))"
proof (induction cs arbitrary: s m)
  case (Cons c cs)
  have "(if m < cap_version c then cap_version c else m) = max m (cap_version c)" by (simp add: max_def)
  with Cons show ?case by (auto simp del: fold_simps)
qed simp

lemma foldl_max_ge: "m \<le> foldl max m xs \<and> (\<forall>x \<in> set xs. x \<le> foldl max m xs)" for m :: nat
proof (induction xs arbitrary: m)
  case (Cons a xs)
  from Cons.IH [of "max m a"] show ?case by auto
qed simp

lemma scan_version_bound:
  "m \<le> scan_version m cs \<and>
   (scan_version m cs = m \<or> (\<exists>c \<in> set cs. cap_name c = ETHCapName \<and> supported_version (cap_version c) \<and>
      cap_version c = scan_version m cs)) \<and>
   (\<forall>c \<in> set cs. cap_name c = ETHCapName \<longrightarrow> supported_version (cap_version c) \<longrightarrow> cap_version c \<le> scan_version m cs)"
proof (induction cs arbitrary: m)
  case (Cons c cs)
  show ?case
  proof (cases "cap_name c = ETHCapName \<and> m < cap_version c \<and> supported_version (cap_version c)")
    case True
    then show ?thesis using Cons.IH [of "cap_version c"] by simp metis
  next
    case False
    then have "scan_version m (c # cs) = scan_version m cs" by auto
    moreover have "cap_name c = ETHCapName \<Longrightarrow> supported_version (cap_version c) \<Longrightarrow> cap_version c \<le> scan_version m cs"
      using False Cons.IH [of m] by (meson not_less order_trans)
    ultimately show ?thesis using Cons.IH [of m] by auto
  qed
qed simp

lemma supported_eth_caps_value:
  "supported_eth_caps = [\<lparr>cap_name = ''eth'', cap_version = 70\<rparr>, \<lparr>cap_name = ''eth'', cap_version = 69\<rparr>,
     \<lparr>cap_name = ''eth'', cap_version = 68\<rparr>]"
  by (simp add: supported_eth_caps_def hello_consts eth_caps_from.simps)

text \<open>
  C15: \<open>Validate\<close> accepts exactly the hellos of p2p version 5 or later that offer an eth version from
  68 to 70, and then \<open>ETHProtocolVersion\<close> is the highest such version on offer: one the client
  itself lists in \<open>SupportedEthCaps\<close>.
\<close>

theorem hello_negotiation:
  "(validate_hello h = None \<longleftrightarrow> 5 \<le> h_version h \<and> eth_versions h \<inter> {68..70} \<noteq> {}) \<and>
   (validate_hello h = None \<longrightarrow>
      eth_protocol_version h \<in> eth_versions h \<inter> {68..70} \<and>
      (\<forall>v \<in> eth_versions h \<inter> {68..70}. v \<le> eth_protocol_version h) \<and>
      \<lparr>cap_name = ''eth'', cap_version = eth_protocol_version h\<rparr> \<in> set supported_eth_caps)"
proof -
  have sup: "supported_version v \<longleftrightarrow> v \<in> {68..70}" for v
    by (simp add: supported_version_def hello_consts)
  let ?eth = "filter (\<lambda>c. cap_name c = ETHCapName) (h_caps h)"
  have some: "(\<exists>c \<in> set (h_caps h). cap_name c = ETHCapName \<and> supported_version (cap_version c)) \<longleftrightarrow>
      eth_versions h \<inter> {68..70} \<noteq> {}"
    by (auto simp: eth_versions_def sup)
  have nz: "foldl max 0 (map cap_version ?eth) \<noteq> 0" if "eth_versions h \<inter> {68..70} \<noteq> {}"
  proof -
    from that obtain c where c: "c \<in> set (h_caps h)" "cap_name c = ETHCapName" "68 \<le> cap_version c"
      by (auto simp: eth_versions_def)
    then have "cap_version c \<in> set (map cap_version ?eth)" by auto
    then have "cap_version c \<le> foldl max 0 (map cap_version ?eth)" using foldl_max_ge by blast
    then show ?thesis using c(3) by linarith
  qed
  have "validate_hello h = None \<longleftrightarrow> 5 \<le> h_version h \<and> foldl max 0 (map cap_version ?eth) \<noteq> 0 \<and>
      (\<exists>c \<in> set (h_caps h). cap_name c = ETHCapName \<and> supported_version (cap_version c))"
    by (simp add: validate_hello_def scan_caps_result minP2PProtocolVersion_def not_less)
  then have valid: "validate_hello h = None \<longleftrightarrow> 5 \<le> h_version h \<and> eth_versions h \<inter> {68..70} \<noteq> {}"
    using some nz by blast
  have "eth_protocol_version h \<in> eth_versions h \<inter> {68..70}" if "eth_versions h \<inter> {68..70} \<noteq> {}"
  proof -
    from that obtain v where "v \<in> eth_versions h" "v \<in> {68..70}" by blast
    then have "v \<le> eth_protocol_version h"
      using scan_version_bound [of 0 "h_caps h"] by (auto simp: eth_versions_def eth_protocol_version_def sup)
    then have "eth_protocol_version h \<noteq> 0" using \<open>v \<in> {68..70}\<close> by auto
    then obtain c where "c \<in> set (h_caps h)" "cap_name c = ETHCapName" "supported_version (cap_version c)"
      "cap_version c = eth_protocol_version h"
      using scan_version_bound [of 0 "h_caps h"] by (auto simp: eth_protocol_version_def)
    then show ?thesis unfolding eth_versions_def using sup by auto metis
  qed
  moreover have "v \<le> eth_protocol_version h" if "v \<in> eth_versions h \<inter> {68..70}" for v
    using scan_version_bound [of 0 "h_caps h"] that by (auto simp: eth_versions_def eth_protocol_version_def sup)
  moreover have "\<lparr>cap_name = ''eth'', cap_version = v\<rparr> \<in> set supported_eth_caps" if "v \<in> {68..70}" for v
  proof -
    from that have "v = 68 \<or> v = 69 \<or> v = 70" by auto
    then show ?thesis by (auto simp: supported_eth_caps_value)
  qed
  ultimately show ?thesis using valid by blast
qed

lemma hello_negotiation_witness:
  "validate_hello \<lparr>h_version = 5, h_name = ''geth'', h_caps = [\<lparr>cap_name = ''eth'', cap_version = 69\<rparr>,
     \<lparr>cap_name = ''snap'', cap_version = 70\<rparr>], h_listen_port = 0, h_id = []\<rparr> = None"
proof -
  let ?h = "\<lparr>h_version = 5, h_name = ''geth'', h_caps = [\<lparr>cap_name = ''eth'', cap_version = 69\<rparr>,
     \<lparr>cap_name = ''snap'', cap_version = 70\<rparr>], h_listen_port = 0, h_id = []\<rparr>"
  have "69 \<in> eth_versions ?h \<inter> {68..70}"
    by (auto simp: eth_versions_def ETHCapName_def intro: exI [of _ "\<lparr>cap_name = ''eth'', cap_version = 69\<rparr>"])
  then show ?thesis using hello_negotiation [of ?h] by auto
qed

section \<open>Status\<close>

definition status_protocol_version :: "status \<Rightarrow> nat" where
  "status_protocol_version s = (case s of Status68 p \<Rightarrow> s68_protocol_version p | Status69 p \<Rightarrow> s69_protocol_version p | StatusOther n \<Rightarrow> n)"

definition status_genesis :: "status \<Rightarrow> bytes" where
  "status_genesis s = (case s of Status68 p \<Rightarrow> s68_genesis p | Status69 p \<Rightarrow> s69_genesis p | StatusOther _ \<Rightarrow> [])"

definition status_head :: "status \<Rightarrow> bytes" where
  "status_head s = (case s of Status68 p \<Rightarrow> s68_head p | Status69 p \<Rightarrow> s69_latest_block_hash p | StatusOther _ \<Rightarrow> [])"

definition status_network_id :: "status \<Rightarrow> nat" where
  "status_network_id s = (case s of Status68 p \<Rightarrow> s68_network_id p | Status69 p \<Rightarrow> s69_network_id p | StatusOther _ \<Rightarrow> 0)"

definition status_fork_id_hash :: "status \<Rightarrow> bytes" where
  "status_fork_id_hash s = (case s of Status68 p \<Rightarrow> fid_hash (s68_fork_id p) | Status69 p \<Rightarrow> fid_hash (s69_fork_id p) | StatusOther _ \<Rightarrow> [])"

definition status_fork_id_next :: "status \<Rightarrow> nat" where
  "status_fork_id_next s = (case s of Status68 p \<Rightarrow> fid_next (s68_fork_id p) | Status69 p \<Rightarrow> fid_next (s69_fork_id p) | StatusOther _ \<Rightarrow> 0)"

definition receive_status :: "exec_lib \<Rightarrow> nat \<Rightarrow> bytes \<Rightarrow> string + status" where
  "receive_status lib eth_cap_version data =
     (if eth_cap_version = 68 then
        (case rlp_decode_status68 lib data of
           Inl e \<Rightarrow> Inl (err_wrap ''error decoding eth/68 status'' e) | Inr p \<Rightarrow> Inr (Status68 p))
      else if eth_cap_version = 69 \<or> eth_cap_version = 70 then
        (case rlp_decode_status69 lib data of
           Inl e \<Rightarrow> Inl (err_wrap (''error decoding eth/'' @ dec_of_nat eth_cap_version @ '' status'') e)
         | Inr p \<Rightarrow> Inr (Status69 p))
      else Inl (''unsupported eth protocol version for status: '' @ dec_of_nat eth_cap_version))"

definition encode_status :: "exec_lib \<Rightarrow> status \<Rightarrow> string + bytes" where
  "encode_status lib s =
     (case s of
        StatusOther _ \<Rightarrow> Inl ''unsupported status type''
      | Status68 p \<Rightarrow> (case rlp_encode_status68 lib p of Inl e \<Rightarrow> Inl (err_wrap ''error encoding status'' e) | Inr d \<Rightarrow> Inr d)
      | Status69 p \<Rightarrow> (case rlp_encode_status69 lib p of Inl e \<Rightarrow> Inl (err_wrap ''error encoding status'' e) | Inr d \<Rightarrow> Inr d))"

section \<open>Disconnect\<close>

text \<open>\<open>DiscReason\<close> is one byte.\<close>

definition decode_disconnect_reason_rlp :: "exec_lib \<Rightarrow> bytes \<Rightarrow> nat \<times> string option" where
  "decode_disconnect_reason_rlp lib data =
     (case data of
        [] \<Rightarrow> (DiscInvalid lib, None)
      | b # _ \<Rightarrow>
          if 0xc0 \<le> b then
            (case rlp_decode_raw_values lib data of
               Inl e \<Rightarrow> (DiscInvalid lib, Some e)
             | Inr [] \<Rightarrow> (DiscInvalid lib, None)
             | Inr (el # _) \<Rightarrow>
                 (case rlp_decode_bytes lib el of
                    Inl e \<Rightarrow> (DiscInvalid lib, Some e)
                  | Inr [r] \<Rightarrow> (unat r, None)
                  | Inr _ \<Rightarrow> (DiscInvalid lib, None)))
          else
            (case rlp_decode_reason lib data of
               Inl e \<Rightarrow> (DiscInvalid lib, Some (err_wrap ''decode legacy disconnect reason'' e))
             | Inr r \<Rightarrow> (r, None)))"

definition decode_disconnect_reason :: "exec_lib \<Rightarrow> bytes \<Rightarrow> nat \<times> string option" where
  "decode_disconnect_reason lib data =
     (if data = [] then (DiscInvalid lib, None)
      else
        case decode_disconnect_reason_rlp lib data of
          (reason, None) \<Rightarrow> (reason, None)
        | (_, Some e) \<Rightarrow>
            (case snappy_decode_frame lib data of
               Inl _ \<Rightarrow> (DiscInvalid lib, Some e)
             | Inr decoded \<Rightarrow>
                 (case decode_disconnect_reason_rlp lib decoded of
                    (reason, None) \<Rightarrow> (reason, None)
                  | (_, Some _) \<Rightarrow> (DiscInvalid lib, Some e))))"

definition receive_disconnect :: "exec_lib \<Rightarrow> bytes \<Rightarrow> nat" where
  "receive_disconnect lib data = fst (decode_disconnect_reason lib data)"

end
