(* ===== verification/ExecSession.thy ===== *)
theory ExecSession
  imports ExecMessages
begin

text \<open>
  A session of the execution client, \<open>pkg/execution/mimicry/client.go\<close> and the handlers of the
  \<open>message_*.go\<close> files. The connection is what the client writes to it (frames of a code and a
  payload) with a plan of the outcomes of the writes still to come; what it reads is the list of
  frames and failures the loop gets. Events are what the broker was asked to emit.
\<close>

datatype exec_event =
    EvDisconnect "nat option"
  | EvHello hello
  | EvStatus status
  | EvTransactions bytes
  | EvNewPooledTransactionHashes bytes

record exec_client =
  c_name :: string
  c_public_key :: bytes
  c_has_rlpx :: bool
  c_written :: "(nat \<times> bytes) list"
  c_write_plan :: "string option list"
  c_snappy :: bool
  c_eth_cap_version :: nat
  c_status_sent :: bool
  c_pooled :: "nat list"
  c_delivered :: "(nat \<times> bytes) list"
  c_events :: "exec_event list"
  c_status_provider :: "(nat \<Rightarrow> status option \<Rightarrow> string + status option) option"
  c_header_provider :: "(bytes \<Rightarrow> string + bytes list) option"
  c_body_provider :: "(bytes list \<Rightarrow> string + bytes list) option"
  c_receipt_provider :: "(bytes list \<Rightarrow> nat \<Rightarrow> string + bytes list) option"

type_synonym 'a exec_act = "(exec_client, string, 'a) act"

definition emit :: "exec_event \<Rightarrow> 'a exec_act \<Rightarrow> 'a exec_act" where
  "emit e m = (\<lambda>c. m (c\<lparr>c_events := c_events c @ [e]\<rparr>))"

definition of_result :: "string \<Rightarrow> string + 'a \<Rightarrow> 'a exec_act" where
  "of_result msg r = (\<lambda>c. (case r of Inl e \<Rightarrow> Inl (err_wrap msg e) | Inr x \<Rightarrow> Inr x, c))"

section \<open>Creation and options\<close>

definition new_exec_client :: "string \<Rightarrow> bytes \<Rightarrow> (exec_client \<Rightarrow> exec_client) list \<Rightarrow> exec_client" where
  "new_exec_client name public_key opts =
     foldl (\<lambda>c opt. opt c) \<lparr>c_name = name, c_public_key = public_key, c_has_rlpx = False, c_written = [],
       c_write_plan = [], c_snappy = False, c_eth_cap_version = 0, c_status_sent = False, c_pooled = [],
       c_delivered = [], c_events = [], c_status_provider = None, c_header_provider = None,
       c_body_provider = None, c_receipt_provider = None\<rparr> opts"

definition with_status_provider ::
  "(nat \<Rightarrow> status option \<Rightarrow> string + status option) option \<Rightarrow> exec_client \<Rightarrow> exec_client" where
  "with_status_provider p c = c\<lparr>c_status_provider := p\<rparr>"

definition with_header_provider :: "(bytes \<Rightarrow> string + bytes list) option \<Rightarrow> exec_client \<Rightarrow> exec_client" where
  "with_header_provider p c = c\<lparr>c_header_provider := p\<rparr>"

definition with_body_provider :: "(bytes list \<Rightarrow> string + bytes list) option \<Rightarrow> exec_client \<Rightarrow> exec_client" where
  "with_body_provider p c = c\<lparr>c_body_provider := p\<rparr>"

definition with_receipt_provider ::
  "(bytes list \<Rightarrow> nat \<Rightarrow> string + bytes list) option \<Rightarrow> exec_client \<Rightarrow> exec_client" where
  "with_receipt_provider p c = c\<lparr>c_receipt_provider := p\<rparr>"

section \<open>Writing\<close>

definition write_rlpx :: "nat \<Rightarrow> bytes \<Rightarrow> unit exec_act" where
  "write_rlpx code data = (\<lambda>c.
     if \<not> c_has_rlpx c then (Inl ''rlpx connection is not initialized'', c)
     else
       case c_write_plan c of
         Some e # plan \<Rightarrow> (Inl e, c\<lparr>c_write_plan := plan\<rparr>)
       | plan \<Rightarrow> (Inr (), c\<lparr>c_write_plan := tl plan, c_written := c_written c @ [(code, data)]\<rparr>))"

definition send_hello :: "exec_lib \<Rightarrow> unit exec_act" where
  "send_hello lib = (\<lambda>c.
     act_bind (of_result ''error encoding hello'' (rlp_encode_hello lib
       \<lparr>h_version = P2PProtocolVersion, h_name = c_name c, h_caps = supported_eth_caps, h_listen_port = 0,
        h_id = c_public_key c\<rparr>))
       (\<lambda>d. act_wrap ''error sending hello'' (write_rlpx HelloCode d)) c)"

definition send_status :: "exec_lib \<Rightarrow> status \<Rightarrow> unit exec_act" where
  "send_status lib s =
     act_bind (\<lambda>c. (encode_status lib s, c)) (\<lambda>d.
     act_bind (act_wrap ''error sending status'' (write_rlpx (StatusCode lib) d)) (\<lambda>_ c.
     (Inr (), c\<lparr>c_status_sent := True\<rparr>)))"

definition send_pong :: "unit exec_act" where
  "send_pong = act_wrap ''error sending pong'' (write_rlpx PongCode [])"

definition send_block_headers :: "exec_lib \<Rightarrow> nat \<Rightarrow> bytes list \<Rightarrow> unit exec_act" where
  "send_block_headers lib request_id headers =
     act_bind (of_result ''error encoding block headers'' (rlp_encode_response lib request_id headers))
       (\<lambda>d. act_wrap ''error sending block headers'' (write_rlpx (BlockHeadersCode lib) d))"

definition send_block_bodies :: "exec_lib \<Rightarrow> nat \<Rightarrow> bytes list \<Rightarrow> unit exec_act" where
  "send_block_bodies lib request_id bodies =
     act_bind (of_result ''error encoding block bodies'' (rlp_encode_response lib request_id bodies))
       (\<lambda>d. act_wrap ''error sending block bodies'' (write_rlpx (BlockBodiesCode lib) d))"

definition send_pooled_transactions :: "exec_lib \<Rightarrow> nat \<Rightarrow> bytes list \<Rightarrow> unit exec_act" where
  "send_pooled_transactions lib request_id txs =
     act_bind (of_result ''error encoding pooled transactions'' (rlp_encode_response lib request_id txs))
       (\<lambda>d. act_wrap ''error sending pooled transactions'' (write_rlpx (PooledTransactionsCode lib) d))"

definition send_receipts :: "exec_lib \<Rightarrow> receipts \<Rightarrow> unit exec_act" where
  "send_receipts lib r =
     act_bind (of_result ''error encoding block receipts''
       (case r of
          Receipts69 request_id l \<Rightarrow> rlp_encode_response lib request_id l
        | Receipts70 request_id incomplete l \<Rightarrow> rlp_encode_receipts70 lib request_id incomplete l))
       (\<lambda>d. act_wrap ''error sending block receipts'' (write_rlpx (ReceiptsCode lib) d))"

definition send_get_pooled_transactions :: "exec_lib \<Rightarrow> hashes_request \<Rightarrow> unit exec_act" where
  "send_get_pooled_transactions lib r =
     act_bind (of_result ''error encoding get pooled transactions'' (rlp_encode_hashes_request lib r))
       (\<lambda>d. act_wrap ''error sending get pooled transactions'' (write_rlpx (GetPooledTransactionsCode lib) d))"

definition send_transactions :: "exec_lib \<Rightarrow> string + bytes \<Rightarrow> unit exec_act" where
  "send_transactions lib encoded =
     act_bind (of_result ''error encoding transactions'' encoded)
       (\<lambda>d. act_wrap ''error sending transactions'' (write_rlpx (TransactionsCode lib) d))"

section \<open>Handlers\<close>

definition publish_disconnect :: "nat option \<Rightarrow> exec_client \<Rightarrow> exec_client" where
  "publish_disconnect reason c = c\<lparr>c_events := c_events c @ [EvDisconnect reason]\<rparr>"

definition handle_session_error :: "string \<Rightarrow> exec_client \<Rightarrow> exec_client" where
  "handle_session_error e c = publish_disconnect None c"

definition receive_hello :: "exec_lib \<Rightarrow> bytes \<Rightarrow> hello exec_act" where
  "receive_hello lib data =
     act_bind (of_result ''error decoding hello'' (rlp_decode_hello lib data))
       (\<lambda>h. case validate_hello h of Some e \<Rightarrow> act_fail e | None \<Rightarrow> act_return h)"

text \<open>The Status the provider may want sent at once, unless one was sent before.\<close>

definition send_initial_status :: "exec_lib \<Rightarrow> unit exec_act" where
  "send_initial_status lib = (\<lambda>c.
     case c_status_provider c of
       None \<Rightarrow> (Inr (), c)
     | Some provider \<Rightarrow>
         if c_status_sent c then (Inr (), c)
         else
           (case provider (c_eth_cap_version c) None of
              Inl e \<Rightarrow> (Inl (err_wrap ''failed to build initial provided Status'' e), c)
            | Inr None \<Rightarrow> (Inr (), c)
            | Inr (Some s) \<Rightarrow> send_status lib s c))"

definition handle_hello :: "exec_lib \<Rightarrow> bytes \<Rightarrow> unit exec_act" where
  "handle_hello lib data =
     act_bind (receive_hello lib data) (\<lambda>h c.
       send_initial_status lib
         (c\<lparr>c_eth_cap_version := eth_protocol_version h, c_events := c_events c @ [EvHello h], c_snappy := True\<rparr>))"

definition handle_status :: "exec_lib \<Rightarrow> bytes \<Rightarrow> unit exec_act" where
  "handle_status lib data =
     act_bind (\<lambda>c. (receive_status lib (c_eth_cap_version c) data, c)) (\<lambda>s.
     act_bind
       (\<lambda>c. case c_status_provider c of
              None \<Rightarrow> (Inr s, c)
            | Some provider \<Rightarrow>
                (case provider (c_eth_cap_version c) (Some s) of
                   Inl e \<Rightarrow> (Inl (err_wrap ''failed to build provided Status'' e), c)
                 | Inr None \<Rightarrow> (Inr s, c)
                 | Inr (Some provided) \<Rightarrow> (Inr provided, c))) (\<lambda>response.
     emit (EvStatus s) (\<lambda>c. if c_status_sent c then (Inr (), c) else send_status lib response c)))"

definition handle_disconnect :: "exec_lib \<Rightarrow> bytes \<Rightarrow> exec_client \<Rightarrow> exec_client" where
  "handle_disconnect lib data = publish_disconnect (Some (receive_disconnect lib data))"

definition handle_ping :: "unit exec_act" where
  "handle_ping = send_pong"

definition handle_transactions :: "exec_lib \<Rightarrow> bytes \<Rightarrow> unit exec_act" where
  "handle_transactions lib data =
     act_bind (of_result ''error decoding transactions'' (rlp_decode_opaque lib data))
       (\<lambda>txs. emit (EvTransactions txs) (act_return ()))"

definition handle_get_block_headers :: "exec_lib \<Rightarrow> bytes \<Rightarrow> unit exec_act" where
  "handle_get_block_headers lib data =
     act_bind (of_result ''error decoding get block headers'' (rlp_decode_block_headers_request lib data)) (\<lambda>req.
     act_bind
       (\<lambda>c. case (c_header_provider c, bhr_request req) of
              (Some provider, Some request) \<Rightarrow>
                (case provider request of
                   Inl _ \<Rightarrow> (Inr [], c)
                 | Inr headers \<Rightarrow> of_result ''error encoding provided block headers'' (rlp_encode_raw_list lib headers) c)
            | _ \<Rightarrow> (Inr [], c)) (\<lambda>headers.
     send_block_headers lib (bhr_request_id req) headers))"

definition handle_block_headers :: "exec_lib \<Rightarrow> bytes \<Rightarrow> unit exec_act" where
  "handle_block_headers lib data =
     act_bind (of_result ''error decoding block headers'' (rlp_decode_opaque lib data)) (\<lambda>_. act_return ())"

definition handle_get_block_bodies :: "exec_lib \<Rightarrow> bytes \<Rightarrow> unit exec_act" where
  "handle_get_block_bodies lib data =
     act_bind (of_result ''error decoding get block bodies'' (rlp_decode_hashes_request lib data)) (\<lambda>req.
     act_bind
       (\<lambda>c. case c_body_provider c of
              None \<Rightarrow> (Inr [], c)
            | Some provider \<Rightarrow>
                (case provider (hr_hashes req) of
                   Inl e \<Rightarrow> (Inl (err_wrap ''fetch block bodies'' e), c)
                 | Inr bodies \<Rightarrow> of_result ''encode block bodies'' (rlp_encode_raw_list lib bodies) c)) (\<lambda>bodies.
     send_block_bodies lib (hr_request_id req) bodies))"

definition handle_new_pooled_transaction_hashes :: "exec_lib \<Rightarrow> bytes \<Rightarrow> unit exec_act" where
  "handle_new_pooled_transaction_hashes lib data =
     act_bind (of_result ''error decoding new pooled transaction hashes'' (rlp_decode_opaque lib data))
       (\<lambda>hashes. emit (EvNewPooledTransactionHashes hashes) (act_return ()))"

definition handle_get_pooled_transactions :: "exec_lib \<Rightarrow> bytes \<Rightarrow> unit exec_act" where
  "handle_get_pooled_transactions lib data =
     act_bind (of_result ''error decoding get pooled transactions'' (rlp_decode_hashes_request lib data))
       (\<lambda>req. send_pooled_transactions lib (hr_request_id req) [])"

text \<open>
  The answer goes to the channel of the request it names, if there is one. The send blocks until
  the requester takes it; that part is modelled by the step relation of the pooled transactions.
\<close>

definition handle_pooled_transactions :: "exec_lib \<Rightarrow> bytes \<Rightarrow> unit exec_act" where
  "handle_pooled_transactions lib data =
     act_bind (of_result ''error decoding get block headers'' (rlp_decode_pooled lib data)) (\<lambda>txs c.
       (Inr (), if pt_request_id txs \<in> set (c_pooled c)
                then c\<lparr>c_delivered := c_delivered c @ [(pt_request_id txs, pt_list txs)]\<rparr> else c))"

definition receive_get_receipts :: "exec_lib \<Rightarrow> bytes \<Rightarrow> receipts_request exec_act" where
  "receive_get_receipts lib data = (\<lambda>c.
     if c_eth_cap_version c = 70 then
       of_result ''error decoding eth/70 get block receipts'' (rlp_decode_receipts70_request lib data) c
     else
       of_result ''error decoding get block receipts''
         (case rlp_decode_hashes_request lib data of
            Inl e \<Rightarrow> Inl e
          | Inr r \<Rightarrow> Inr \<lparr>rr_request_id = hr_request_id r, rr_hashes = hr_hashes r, rr_first_block_receipt_index = 0\<rparr>) c)"

text \<open>\<open>handleGetReceipts\<close> reports a failed send itself before it returns the error.\<close>

definition handle_get_receipts :: "exec_lib \<Rightarrow> bytes \<Rightarrow> unit exec_act" where
  "handle_get_receipts lib data =
     act_bind (receive_get_receipts lib data) (\<lambda>req.
     act_bind
       (\<lambda>c. case c_receipt_provider c of
              None \<Rightarrow> (Inr [], c)
            | Some provider \<Rightarrow>
                (case provider (rr_hashes req) (rr_first_block_receipt_index req) of
                   Inl e \<Rightarrow> (Inl (err_wrap ''fetch receipts'' e), c)
                 | Inr l \<Rightarrow> of_result ''encode receipts'' (rlp_encode_raw_list lib l) c)) (\<lambda>l c.
     case send_receipts lib
            (if 70 \<le> c_eth_cap_version c then Receipts70 (rr_request_id req) False l else Receipts69 (rr_request_id req) l) c of
       (Inl e, c') \<Rightarrow> (Inl e, handle_session_error e c')
     | (Inr _, c') \<Rightarrow> (Inr (), c')))"

definition handle_block_range_update :: "exec_lib \<Rightarrow> bytes \<Rightarrow> unit exec_act" where
  "handle_block_range_update lib data =
     act_bind (of_result ''error decoding block range update'' (rlp_decode_opaque lib data)) (\<lambda>_. act_return ())"

section \<open>The session loop\<close>

text \<open>The \<open>switch\<close> of \<open>startSession\<close>, cases in the code's order; \<open>DisconnectCode\<close> is handled apart.\<close>

definition handle_frame :: "exec_lib \<Rightarrow> nat \<Rightarrow> bytes \<Rightarrow> unit exec_act" where
  "handle_frame lib code data =
     (if code = HelloCode then handle_hello lib data
      else if code = PingCode then handle_ping
      else if code = StatusCode lib then handle_status lib data
      else if code = TransactionsCode lib then handle_transactions lib data
      else if code = GetBlockHeadersCode lib then handle_get_block_headers lib data
      else if code = BlockHeadersCode lib then handle_block_headers lib data
      else if code = GetBlockBodiesCode lib then handle_get_block_bodies lib data
      else if code = NewPooledTransactionHashesCode lib then handle_new_pooled_transaction_hashes lib data
      else if code = GetPooledTransactionsCode lib then handle_get_pooled_transactions lib data
      else if code = PooledTransactionsCode lib then handle_pooled_transactions lib data
      else if code = GetReceiptsCode lib then handle_get_receipts lib data
      else if code = BlockRangeUpdateCode lib then handle_block_range_update lib data
      else act_return ())"

datatype incoming = DeadlineError string | ReadError string | Frame nat bytes

text \<open>
  One turn of the loop; the flag says whether the session goes on. The loop over the inputs the
  session gets: at the end of the list a session that goes on waits for the next input.
\<close>

definition session_turn :: "exec_lib \<Rightarrow> incoming \<Rightarrow> exec_client \<Rightarrow> bool \<times> exec_client" where
  "session_turn lib inp c =
     (case inp of
        DeadlineError e \<Rightarrow> (False, handle_session_error (err_wrap ''error setting rlpx read deadline'' e) c)
      | ReadError e \<Rightarrow> (False, handle_session_error (err_wrap ''error reading rlpx connection'' e) c)
      | Frame code data \<Rightarrow>
          if code = DisconnectCode then (False, handle_disconnect lib data c)
          else
            (case handle_frame lib code data c of
               (Inl e, c') \<Rightarrow> (False, handle_session_error e c')
             | (Inr _, c') \<Rightarrow> (True, c')))"

fun session_loop :: "exec_lib \<Rightarrow> incoming list \<Rightarrow> exec_client \<Rightarrow> bool \<times> exec_client" where
  "session_loop lib [] c = (True, c)"
| "session_loop lib (inp # inps) c =
     (case session_turn lib inp c of
        (False, c') \<Rightarrow> (False, c')
      | (True, c') \<Rightarrow> session_loop lib inps c')"

definition start_session :: "exec_lib \<Rightarrow> incoming list \<Rightarrow> exec_client \<Rightarrow> bool \<times> exec_client" where
  "start_session lib inps c =
     (case send_hello lib c of
        (Inl e, c') \<Rightarrow> (False, handle_session_error e c')
      | (Inr _, c') \<Rightarrow> session_loop lib inps c')"

section \<open>What every handler keeps\<close>

text \<open>go-ethereum gives the messages different numbers.\<close>

definition distinct_messages :: "exec_lib \<Rightarrow> bool" where
  "distinct_messages lib = distinct [StatusMsg lib, TransactionsMsg lib, GetBlockHeadersMsg lib, BlockHeadersMsg lib,
     GetBlockBodiesMsg lib, BlockBodiesMsg lib, NewPooledTransactionHashesMsg lib, GetPooledTransactionsMsg lib,
     PooledTransactionsMsg lib, GetReceiptsMsg lib, ReceiptsMsg lib, BlockRangeUpdateMsg lib]"

definition status_count :: "exec_lib \<Rightarrow> exec_client \<Rightarrow> nat" where
  "status_count lib c = length (filter (\<lambda>w. fst w = StatusCode lib) (c_written c))"

definition session_inv :: "exec_lib \<Rightarrow> exec_client \<Rightarrow> bool" where
  "session_inv lib c \<longleftrightarrow>
     status_count lib c = (if c_status_sent c then 1 else 0) \<and>
     c_eth_cap_version c \<in> {0, 68, 69, 70} \<and>
     (c_eth_cap_version c \<noteq> 0 \<longrightarrow> c_snappy c) \<and>
     (c_status_sent c \<longrightarrow> c_eth_cap_version c \<noteq> 0)"

definition is_disconnect :: "exec_event \<Rightarrow> bool" where
  "is_disconnect e = (case e of EvDisconnect _ \<Rightarrow> True | _ \<Rightarrow> False)"

definition disconnects :: "exec_client \<Rightarrow> nat" where
  "disconnects c = length (filter is_disconnect (c_events c))"

text \<open>The relation every handler's state before and after stand in.\<close>

definition session_le :: "exec_lib \<Rightarrow> exec_client \<Rightarrow> exec_client \<Rightarrow> bool" where
  "session_le lib c c' \<longleftrightarrow> (session_inv lib c \<longrightarrow> session_inv lib c') \<and> disconnects c' = disconnects c"

lemma session_le_refl [simp]: "session_le lib c c"
  by (simp add: session_le_def)

lemma session_le_reflp: "reflp (session_le lib)"
  by (rule reflpI) simp

lemma session_le_transp: "transp (session_le lib)"
  by (rule transpI) (simp add: session_le_def)

lemma write_rlpx_le: "code \<noteq> StatusCode lib \<Longrightarrow> act_keeps (session_le lib) (write_rlpx code d)"
  by (auto simp: act_keeps_def write_rlpx_def session_le_def session_inv_def status_count_def disconnects_def
      split: list.splits option.splits)

lemma of_result_le: "act_keeps (session_le lib) (of_result msg r)"
  by (simp add: act_keeps_def of_result_def)

lemma emit_le: "\<not> is_disconnect e \<Longrightarrow> act_keeps (session_le lib) m \<Longrightarrow> act_keeps (session_le lib) (emit e m)"
  by (auto simp: act_keeps_def emit_def session_le_def session_inv_def status_count_def disconnects_def)

lemmas session_keeps = act_keeps_bind [OF session_le_transp] act_keeps_map_err
  act_keeps_return [OF session_le_reflp] act_keeps_fail [OF session_le_reflp] of_result_le write_rlpx_le emit_le

text \<open>A state function that does not change the state, whatever it reads and returns.\<close>

lemma read_only_le: "(\<And>c. snd (m c) = c) \<Longrightarrow> act_keeps (session_le lib) m"
  by (simp add: act_keeps_def)

lemma other_codes:
  assumes "distinct_messages lib"
  shows "HelloCode \<noteq> StatusCode lib" "PongCode \<noteq> StatusCode lib" "BlockHeadersCode lib \<noteq> StatusCode lib"
    "BlockBodiesCode lib \<noteq> StatusCode lib" "PooledTransactionsCode lib \<noteq> StatusCode lib" "ReceiptsCode lib \<noteq> StatusCode lib"
  using assms by (auto simp: distinct_messages_def exec_codes)

lemma send_status_le:
  assumes "\<not> c_status_sent c" and "c_eth_cap_version c \<noteq> 0"
  shows "session_le lib c (snd (send_status lib s c))"
  using assms
  by (auto simp: send_status_def act_run write_rlpx_def session_le_def session_inv_def status_count_def disconnects_def
      split: sum.splits list.splits option.splits)

lemma status_step_le:
  assumes "session_le lib c c1" and "c_eth_cap_version c1 \<noteq> 0"
    and "c' = c1 \<or> (\<not> c_status_sent c1 \<and> (\<exists>s. c' = snd (send_status lib s c1)))"
  shows "session_le lib c c'"
  using assms(3)
proof (elim disjE conjE exE)
  fix s assume "\<not> c_status_sent c1" and c': "c' = snd (send_status lib s c1)"
  from send_status_le [OF this(1) assms(2)] have "session_le lib c1 c'" by (simp add: c')
  with assms(1) show ?thesis by (rule transpD [OF session_le_transp])
qed (simp add: assms(1))

lemma eth_version_cases: "validate_hello h = None \<Longrightarrow> eth_protocol_version h \<in> {68, 69, 70}"
proof -
  assume valid: "validate_hello h = None"
  then have "\<exists>c \<in> set (h_caps h). cap_name c = ETHCapName \<and> supported_version (cap_version c)"
    by (auto simp: validate_hello_def scan_caps_result split: if_splits)
  then obtain c where "c \<in> set (h_caps h)" "cap_name c = ETHCapName" "supported_version (cap_version c)" by blast
  then have "0 < scan_version 0 (h_caps h)"
    using scan_version_bound [of 0 "h_caps h"] by (force simp: supported_version_def hello_consts)
  then have "supported_version (scan_version 0 (h_caps h))"
    using scan_version_bound [of 0 "h_caps h"] by auto
  then show ?thesis by (auto simp: eth_protocol_version_def supported_version_def hello_consts)
qed

lemma send_initial_status_le:
  assumes "c_eth_cap_version c \<noteq> 0"
  shows "session_le lib c (snd (send_initial_status lib c))"
proof (cases "c_status_provider c")
  case (Some provider)
  show ?thesis
  proof (cases "c_status_sent c")
    case False
    then show ?thesis using Some send_status_le [OF False assms]
      by (simp add: send_initial_status_def split: sum.splits option.splits)
  qed (simp add: send_initial_status_def Some)
qed (simp add: send_initial_status_def)

lemma receive_hello_ok: "receive_hello lib data c = (r, c') \<Longrightarrow> c' = c \<and> (\<forall>h. r = Inr h \<longrightarrow> validate_hello h = None)"
  by (auto simp: receive_hello_def act_run of_result_def split: sum.splits option.splits)

lemma handle_hello_le: "act_keeps (session_le lib) (handle_hello lib data)"
proof
  fix c
  obtain r c0 where rec: "receive_hello lib data c = (r, c0)" by fastforce
  with receive_hello_ok have c0: "c0 = c" and valid: "\<And>h. r = Inr h \<Longrightarrow> validate_hello h = None" by blast+
  show "session_le lib c (snd (handle_hello lib data c))"
  proof (cases r)
    case (Inl e)
    with rec c0 show ?thesis by (simp add: handle_hello_def act_run)
  next
    case (Inr h)
    let ?c1 = "c\<lparr>c_eth_cap_version := eth_protocol_version h, c_events := c_events c @ [EvHello h], c_snappy := True\<rparr>"
    note v = eth_version_cases [OF valid [OF Inr]]
    have "session_le lib c ?c1"
      using v by (auto simp: session_le_def session_inv_def status_count_def disconnects_def is_disconnect_def)
    moreover have "session_le lib ?c1 (snd (send_initial_status lib ?c1))"
      using v by (intro send_initial_status_le) auto
    moreover have "handle_hello lib data c = send_initial_status lib ?c1"
      using rec c0 Inr by (simp add: handle_hello_def act_run)
    ultimately show ?thesis using transpD [OF session_le_transp] by metis
  qed
qed

lemma handle_status_le: "act_keeps (session_le lib) (handle_status lib data)"
proof
  fix c
  show "session_le lib c (snd (handle_status lib data c))"
  proof (cases "receive_status lib (c_eth_cap_version c) data")
    case (Inl e)
    then show ?thesis by (simp add: handle_status_def act_run)
  next
    case (Inr s)
    let ?c1 = "c\<lparr>c_events := c_events c @ [EvStatus s]\<rparr>"
    have le: "session_le lib c ?c1"
      by (simp add: session_le_def session_inv_def status_count_def disconnects_def is_disconnect_def)
    have v: "c_eth_cap_version ?c1 \<noteq> 0"
      using Inr by (auto simp: receive_status_def split: if_splits)
    have "snd (handle_status lib data c) = c \<or> snd (handle_status lib data c) = ?c1 \<or>
        (\<not> c_status_sent ?c1 \<and> (\<exists>s. snd (handle_status lib data c) = snd (send_status lib s ?c1)))"
      using Inr by (auto simp: handle_status_def act_run emit_def split: option.splits sum.splits)
    then show ?thesis
    proof (elim disjE)
      assume "snd (handle_status lib data c) = c"
      then show ?thesis by simp
    qed (use le v in \<open>auto intro: status_step_le [of lib c ?c1]\<close>)
  qed
qed

lemma handlers_le:
  assumes "distinct_messages lib"
  shows "act_keeps (session_le lib) handle_ping"
    "act_keeps (session_le lib) (handle_transactions lib data)"
    "act_keeps (session_le lib) (handle_get_block_headers lib data)"
    "act_keeps (session_le lib) (handle_block_headers lib data)"
    "act_keeps (session_le lib) (handle_get_block_bodies lib data)"
    "act_keeps (session_le lib) (handle_new_pooled_transaction_hashes lib data)"
    "act_keeps (session_le lib) (handle_get_pooled_transactions lib data)"
    "act_keeps (session_le lib) (handle_block_range_update lib data)"
    "act_keeps (session_le lib) (send_receipts lib r)"
  unfolding handle_ping_def send_pong_def handle_transactions_def handle_get_block_headers_def handle_block_headers_def
    handle_get_block_bodies_def handle_new_pooled_transaction_hashes_def handle_get_pooled_transactions_def
    handle_block_range_update_def send_receipts_def send_block_headers_def send_block_bodies_def
    send_pooled_transactions_def
  by (intro session_keeps other_codes [OF assms] read_only_le;
      simp add: is_disconnect_def of_result_def split: option.splits sum.splits)+

lemma handle_pooled_transactions_le: "act_keeps (session_le lib) (handle_pooled_transactions lib data)"
  by (auto simp: act_keeps_def handle_pooled_transactions_def act_run of_result_def session_le_def session_inv_def
      status_count_def disconnects_def split: sum.splits)

lemma receive_get_receipts_state: "snd (receive_get_receipts lib data c) = c"
  by (simp add: receive_get_receipts_def of_result_def)

text \<open>\<open>handleGetReceipts\<close> is the exception: it reports a failed send before it returns the error.\<close>

lemma handle_get_receipts_result:
  assumes "distinct_messages lib" and "handle_get_receipts lib data c = (r, c')"
  shows "session_le lib c c' \<or>
     (\<not> is_ok r \<and> (\<exists>c1. session_le lib c c1 \<and> c' = c1\<lparr>c_events := c_events c1 @ [EvDisconnect None]\<rparr>))"
proof -
  have le: "session_le lib c (snd (send_receipts lib rc c))" for rc
    using handlers_le(9) [OF assms(1)] by (simp add: act_keeps_def)
  obtain r0 where rec: "receive_get_receipts lib data c = (r0, c)"
    using receive_get_receipts_state [of lib data c] by (metis prod.collapse)
  show ?thesis
  proof (cases r0)
    case (Inl e)
    with assms(2) rec show ?thesis by (simp add: handle_get_receipts_def act_run)
  next
    case (Inr req)
    let ?prov = "\<lambda>c. case c_receipt_provider c of
              None \<Rightarrow> (Inr [], c)
            | Some provider \<Rightarrow>
                (case provider (rr_hashes req) (rr_first_block_receipt_index req) of
                   Inl e \<Rightarrow> (Inl (err_wrap ''fetch receipts'' e), c)
                 | Inr l \<Rightarrow> of_result ''encode receipts'' (rlp_encode_raw_list lib l) c)"
    have "snd (?prov c) = c" by (simp add: of_result_def split: option.splits sum.splits)
    then obtain r1 where prov: "?prov c = (r1, c)" by (metis prod.collapse)
    show ?thesis
    proof (cases r1)
      case (Inl e)
      with assms(2) rec Inr prov show ?thesis by (simp add: handle_get_receipts_def act_run)
    next
      case (Inr l)
      let ?send = "send_receipts lib (if 70 \<le> c_eth_cap_version c then Receipts70 (rr_request_id req) False l
          else Receipts69 (rr_request_id req) l) c"
      have "(case ?send of (Inl e, c') \<Rightarrow> (Inl e, handle_session_error e c') | (Inr _, c') \<Rightarrow> (Inr (), c')) = (r, c')"
        using assms(2) rec \<open>r0 = Inr req\<close> prov Inr by (simp add: handle_get_receipts_def act_run)
      then show ?thesis using le
        by (auto simp: handle_session_error_def publish_disconnect_def split: prod.splits sum.splits)
           (metis snd_conv)+
    qed
  qed
qed

lemma handle_frame_result:
  assumes "distinct_messages lib" and "handle_frame lib code data c = (r, c')"
  shows "session_le lib c c' \<or>
     (\<not> is_ok r \<and> (\<exists>c1. session_le lib c c1 \<and> c' = c1\<lparr>c_events := c_events c1 @ [EvDisconnect None]\<rparr>))"
proof (cases "code \<noteq> HelloCode \<and> handle_frame lib code data = handle_get_receipts lib data")
  case True
  with handle_get_receipts_result [OF assms(1)] assms(2) show ?thesis by simp
next
  case False
  then have "act_keeps (session_le lib) (handle_frame lib code data)"
    by (auto simp: handle_frame_def handle_hello_le handle_status_le handlers_le [OF assms(1)]
        handle_pooled_transactions_le act_keeps_return [OF session_le_reflp])
  from act_keepsD [OF this assms(2)] show ?thesis by simp
qed

lemma session_le_event: "session_inv lib (c\<lparr>c_events := es\<rparr>) = session_inv lib c"
  by (simp add: session_inv_def status_count_def)

lemma session_turn_result:
  assumes "distinct_messages lib" and "session_turn lib inp c = (go_on, c')"
  shows "(session_inv lib c \<longrightarrow> session_inv lib c') \<and>
         (if go_on then disconnects c' = disconnects c
          else disconnects c < disconnects c' \<and> disconnects c' \<le> disconnects c + 2)"
proof (cases inp)
  case (Frame code data)
  show ?thesis
  proof (cases "code = DisconnectCode")
    case True
    with Frame assms(2) show ?thesis
      by (auto simp: session_turn_def handle_disconnect_def publish_disconnect_def session_le_event disconnects_def
          is_disconnect_def)
  next
    case False
    obtain r c1 where h: "handle_frame lib code data c = (r, c1)" by fastforce
    have out: "go_on = is_ok r" "c' = (if is_ok r then c1 else c1\<lparr>c_events := c_events c1 @ [EvDisconnect None]\<rparr>)"
      using assms(2) Frame False h
      by (auto simp: session_turn_def handle_session_error_def publish_disconnect_def split: sum.splits)
    from handle_frame_result [OF assms(1) h] show ?thesis
      by (auto simp: out session_le_def session_le_event disconnects_def is_disconnect_def)
  qed
qed (use assms(2) in \<open>auto simp: session_turn_def handle_session_error_def publish_disconnect_def session_le_event
      disconnects_def is_disconnect_def\<close>)

lemma session_loop_result:
  assumes "distinct_messages lib" and "session_loop lib inps c = (go_on, c')"
  shows "(session_inv lib c \<longrightarrow> session_inv lib c') \<and>
         (if go_on then disconnects c' = disconnects c
          else disconnects c < disconnects c' \<and> disconnects c' \<le> disconnects c + 2)"
  using assms(2)
proof (induction inps arbitrary: c)
  case Nil
  then show ?case by simp
next
  case (Cons inp inps)
  obtain go c1 where t: "session_turn lib inp c = (go, c1)" by fastforce
  note turn = session_turn_result [OF assms(1) t]
  show ?case
  proof (cases go)
    case True
    with Cons.prems t have "session_loop lib inps c1 = (go_on, c')" by simp
    from Cons.IH [OF this] turn True show ?thesis by auto
  next
    case False
    with Cons.prems t turn show ?thesis by simp
  qed
qed

lemma start_session_result:
  assumes "distinct_messages lib" and "start_session lib inps c = (go_on, c')"
  shows "(session_inv lib c \<longrightarrow> session_inv lib c') \<and>
         (if go_on then disconnects c' = disconnects c
          else disconnects c < disconnects c' \<and> disconnects c' \<le> disconnects c + 2)"
proof -
  obtain r c1 where h: "send_hello lib c = (r, c1)" by fastforce
  have "act_keeps (session_le lib) (\<lambda>c. act_bind (of_result ''error encoding hello'' (rlp_encode_hello lib
       \<lparr>h_version = P2PProtocolVersion, h_name = n, h_caps = supported_eth_caps, h_listen_port = 0, h_id = k\<rparr>))
       (\<lambda>d. act_wrap ''error sending hello'' (write_rlpx HelloCode d)) c)" for n k
    by (intro session_keeps other_codes [OF assms(1)])
  then have "session_le lib c (snd (send_hello lib c))"
    unfolding send_hello_def act_keeps_def by simp
  then have le: "session_le lib c c1" by (simp add: h)
  show ?thesis
  proof (cases r)
    case (Inl e)
    with h assms(2) le show ?thesis
      by (auto simp: start_session_def handle_session_error_def publish_disconnect_def session_le_def session_le_event
          disconnects_def is_disconnect_def)
  next
    case (Inr u)
    with h assms(2) have "session_loop lib inps c1 = (go_on, c')" by (simp add: start_session_def)
    from session_loop_result [OF assms(1) this] le show ?thesis by (auto simp: session_le_def split: if_splits)
  qed
qed

section \<open>Properties of a session\<close>

text \<open>
  C11: over a whole session, whatever the peer sends in whatever order and however writes fail, the
  client writes at most one Status, and only after it accepted a Hello: then the negotiated
  version is 68, 69 or 70 and snappy is on.
\<close>

theorem session_one_status:
  assumes "distinct_messages lib"
    and "start_session lib inps (new_exec_client name key opts) = (go_on, c)"
    and "session_inv lib (new_exec_client name key opts)"
  shows "length (filter (\<lambda>w. fst w = StatusCode lib) (c_written c)) \<le> 1 \<and>
         (filter (\<lambda>w. fst w = StatusCode lib) (c_written c) \<noteq> [] \<longrightarrow>
            c_eth_cap_version c \<in> {68, 69, 70} \<and> c_snappy c)"
proof -
  have "session_inv lib c" using start_session_result [OF assms(1,2)] assms(3) by blast
  then show ?thesis
    by (cases "c_status_sent c") (auto simp: session_inv_def status_count_def)
qed

definition demo_lib :: exec_lib where
  "demo_lib = \<lparr>StatusMsg = 0, TransactionsMsg = 2, GetBlockHeadersMsg = 3, BlockHeadersMsg = 4, GetBlockBodiesMsg = 5,
     BlockBodiesMsg = 6, NewPooledTransactionHashesMsg = 8, GetPooledTransactionsMsg = 9, PooledTransactionsMsg = 10,
     GetReceiptsMsg = 15, ReceiptsMsg = 16, BlockRangeUpdateMsg = 17,
     rlp_decode_hello = (\<lambda>d. Inr \<lparr>h_version = 5, h_name = ''peer'', h_caps = [\<lparr>cap_name = ''eth'', cap_version = length d\<rparr>],
        h_listen_port = 0, h_id = []\<rparr>),
     rlp_encode_hello = (\<lambda>_. Inr []), rlp_decode_status68 = (\<lambda>_. Inl ''rlp''), rlp_encode_status68 = (\<lambda>_. Inl ''rlp''),
     rlp_decode_status69 = (\<lambda>d. Inr \<lparr>s69_protocol_version = 69, s69_network_id = 1, s69_genesis = d,
        s69_fork_id = \<lparr>fid_hash = [], fid_next = 0\<rparr>, s69_earliest_block = 0, s69_latest_block = 0, s69_latest_block_hash = d\<rparr>),
     rlp_encode_status69 = (\<lambda>p. Inr (s69_genesis p)), rlp_decode_opaque = Inr,
     rlp_decode_block_headers_request = (\<lambda>_. Inl ''rlp''),
     rlp_decode_hashes_request = (\<lambda>d. Inr \<lparr>hr_request_id = length d, hr_hashes = [d]\<rparr>),
     rlp_decode_receipts70_request = (\<lambda>_. Inl ''rlp''), rlp_decode_pooled = (\<lambda>d. Inr \<lparr>pt_request_id = length d, pt_list = d\<rparr>),
     rlp_encode_raw_list = Inr, rlp_encode_response = (\<lambda>_ l. Inr (concat l)), rlp_encode_receipts70 = (\<lambda>_ _ l. Inr (concat l)),
     rlp_encode_hashes_request = (\<lambda>r. Inr (concat (hr_hashes r))), rlp_decode_raw_values = (\<lambda>_. Inl ''rlp''),
     rlp_decode_bytes = Inr, rlp_decode_reason = (\<lambda>_. Inl ''rlp''), snappy_decode_frame = (\<lambda>_. Inl ''corrupt''), DiscInvalid = 0xff\<rparr>"

lemma demo_lib_distinct: "distinct_messages demo_lib"
  by (simp add: distinct_messages_def demo_lib_def)

definition connected :: "string option list \<Rightarrow> exec_client \<Rightarrow> exec_client" where
  "connected plan c = c\<lparr>c_has_rlpx := True, c_write_plan := plan\<rparr>"

lemma new_client_inv: "session_inv lib (new_exec_client name key [connected plan])"
  by (simp add: session_inv_def status_count_def new_exec_client_def connected_def)

lemma session_one_status_witness:
  "length (filter (\<lambda>w. fst w = StatusCode demo_lib) (c_written (snd (start_session demo_lib
     [Frame HelloCode (replicate 69 0), Frame (StatusCode demo_lib) [1], Frame HelloCode (replicate 69 0),
      Frame (StatusCode demo_lib) [2]] (new_exec_client ''me'' [] [connected []]))))) \<le> 1"
  using session_one_status [OF demo_lib_distinct prod.collapse [symmetric] new_client_inv] by blast

text \<open>
  subscribers of the disconnect event hear of the end of a session and of nothing else: a session
  that goes on has emitted none, one that ended has emitted one, or two when answering a
  receipts request failed.
\<close>

theorem session_disconnect_events:
  assumes "distinct_messages lib"
    and "start_session lib inps (new_exec_client name key opts) = (go_on, c)"
    and "c_events (new_exec_client name key opts) = []"
  shows "(go_on \<longleftrightarrow> length (filter is_disconnect (c_events c)) = 0) \<and>
         length (filter is_disconnect (c_events c)) \<le> 2"
proof -
  have "disconnects (new_exec_client name key opts) = 0" by (simp add: disconnects_def assms(3))
  with start_session_result [OF assms(1,2)] show ?thesis
    by (cases go_on) (auto simp: disconnects_def)
qed

lemma session_disconnect_events_witness:
  "length (filter is_disconnect (c_events (snd (start_session demo_lib [ReadError ''reset'']
     (new_exec_client ''me'' [] [connected []]))))) \<le> 2"
  using session_disconnect_events [OF demo_lib_distinct prod.collapse [symmetric], of "''me''" "[]" "[connected []]"]
  by (simp add: new_exec_client_def connected_def)

text \<open>
  when the answer to a receipts request cannot be written the session ends with two disconnect
  events: the handler reports the failure itself and then returns the error to the loop, which
  reports it again.
\<close>

theorem receipts_failure_reported_twice:
  assumes "receive_get_receipts lib data c = (Inr req, c)" and "c_receipt_provider c = None"
    and "send_receipts lib (if 70 \<le> c_eth_cap_version c then Receipts70 (rr_request_id req) False []
           else Receipts69 (rr_request_id req) []) c = (Inl e, c1)"
    and "handle_frame lib (GetReceiptsCode lib) data = handle_get_receipts lib data"
    and "GetReceiptsCode lib \<noteq> DisconnectCode"
  shows "session_turn lib (Frame (GetReceiptsCode lib) data) c =
     (False, c1\<lparr>c_events := c_events c1 @ [EvDisconnect None, EvDisconnect None]\<rparr>)"
  using assms
  by (simp add: session_turn_def handle_get_receipts_def act_run handle_session_error_def publish_disconnect_def)

lemma receipts_failure_reported_twice_witness:
  "session_turn demo_lib (Frame (GetReceiptsCode demo_lib) [1]) (new_exec_client ''me'' [] [connected [Some ''broken pipe'']]) =
     (False, (new_exec_client ''me'' [] [connected []])\<lparr>c_events := [EvDisconnect None, EvDisconnect None]\<rparr>)"
proof -
  let ?c = "new_exec_client ''me'' [] [connected [Some ''broken pipe'']]"
  let ?c1 = "new_exec_client ''me'' [] [connected []]"
  have "receive_get_receipts demo_lib [1] ?c =
      (Inr \<lparr>rr_request_id = 1, rr_hashes = [[1]], rr_first_block_receipt_index = 0\<rparr>, ?c)"
    by (simp add: receive_get_receipts_def of_result_def new_exec_client_def connected_def demo_lib_def)
  moreover have "c_receipt_provider ?c = None" by (simp add: new_exec_client_def connected_def)
  moreover have "send_receipts demo_lib (if 70 \<le> c_eth_cap_version ?c then Receipts70 1 False [] else Receipts69 1 []) ?c =
      (Inl ''error sending block receipts: broken pipe'', ?c1)"
    by (simp add: send_receipts_def of_result_def act_run write_rlpx_def new_exec_client_def connected_def demo_lib_def
        err_wrap_def)
  moreover have "handle_frame demo_lib (GetReceiptsCode demo_lib) [1] = handle_get_receipts demo_lib [1]"
    by (simp add: handle_frame_def exec_codes demo_lib_def)
  moreover have "GetReceiptsCode demo_lib \<noteq> DisconnectCode" by (simp add: exec_codes demo_lib_def)
  ultimately show ?thesis
    using receipts_failure_reported_twice
      [of demo_lib "[1]" ?c "\<lparr>rr_request_id = 1, rr_hashes = [[1]], rr_first_block_receipt_index = 0\<rparr>"
        "''error sending block receipts: broken pipe''" ?c1]
    by (simp add: new_exec_client_def connected_def)
qed

section \<open>Reading a disconnect\<close>

text \<open>
  a disconnect is understood whether or not the sender compressed it: if the plain bytes are a
  reason it is taken from them, otherwise, if snappy unpacks them to a reason, it is that one;
  bytes that are neither, and empty ones, give \<open>DiscInvalid\<close> (no input fails). Either way the
  session ends with that one reason published.
\<close>

theorem disconnect_reason_cases:
  "session_turn lib (Frame DisconnectCode data) c =
     (False, c\<lparr>c_events := c_events c @ [EvDisconnect (Some
        (if data = [] then DiscInvalid lib
         else if snd (decode_disconnect_reason_rlp lib data) = None then fst (decode_disconnect_reason_rlp lib data)
         else
           case snappy_decode_frame lib data of
             Inl _ \<Rightarrow> DiscInvalid lib
           | Inr decoded \<Rightarrow>
               if snd (decode_disconnect_reason_rlp lib decoded) = None
               then fst (decode_disconnect_reason_rlp lib decoded) else DiscInvalid lib))]\<rparr>)"
proof -
  have "receive_disconnect lib data =
        (if data = [] then DiscInvalid lib
         else if snd (decode_disconnect_reason_rlp lib data) = None then fst (decode_disconnect_reason_rlp lib data)
         else
           case snappy_decode_frame lib data of
             Inl _ \<Rightarrow> DiscInvalid lib
           | Inr decoded \<Rightarrow>
               if snd (decode_disconnect_reason_rlp lib decoded) = None
               then fst (decode_disconnect_reason_rlp lib decoded) else DiscInvalid lib)"
    by (cases "decode_disconnect_reason_rlp lib data")
       (auto simp: receive_disconnect_def decode_disconnect_reason_def split: option.splits sum.splits prod.splits)
  then show ?thesis by (simp add: session_turn_def handle_disconnect_def publish_disconnect_def)
qed

end
