(* ===== verification/PooledTxs.thy ===== *)
theory PooledTxs
  imports ExecSession Interfaces
begin

text \<open>
  \<open>GetPooledTransactions\<close> and \<open>handlePooledTransactions\<close> of \<open>pkg/execution/mimicry\<close>: requesters and
  the session goroutine share the map of answer channels under one mutex. A channel is
  unbuffered, so the session goroutine's send waits until the requester's \<open>select\<close> takes it, and it
  holds the mutex while it waits. A requester is named by its request number (a random 64-bit
  number; two requests in flight have different numbers).
\<close>

section \<open>Requesters and the session goroutine\<close>

text \<open>\<open>Closing\<close>: the result is decided and the deferred clean-up waits for the mutex.\<close>

datatype requester = Idle | Waiting | Closing "string + bytes" | Done "string + bytes"

datatype receiver = Receiving | WantsLock nat bytes | Sending nat bytes | Unlocking

record pooled =
  p_requesters :: "nat \<Rightarrow> requester"
  p_channels :: "nat set"
  p_receiver :: receiver
  p_locked :: bool
  p_received :: "(nat \<times> bytes) list"

definition pooled_init :: "pooled \<Rightarrow> bool" where
  "pooled_init s \<longleftrightarrow> s = \<lparr>p_requesters = (\<lambda>_. Idle), p_channels = {}, p_receiver = Receiving, p_locked = False, p_received = []\<rparr>"

datatype pooled_label =
    PRequest nat "string option" | PTimeout nat | PCleanup nat | PReceive nat bytes | PLookup | PDeliver | PUnlock

definition set_requester :: "nat \<Rightarrow> requester \<Rightarrow> pooled \<Rightarrow> pooled" where
  "set_requester i r s = s\<lparr>p_requesters := (p_requesters s)(i := r)\<rparr>"

inductive pooled_step :: "pooled \<Rightarrow> pooled_label \<Rightarrow> pooled \<Rightarrow> bool" where
  request: "p_requesters s i = Idle \<Longrightarrow> \<not> p_locked s \<Longrightarrow>
     pooled_step s (PRequest i err)
       (set_requester i (case err of None \<Rightarrow> Waiting | Some e \<Rightarrow> Closing (Inl e)) (s\<lparr>p_channels := insert i (p_channels s)\<rparr>))"
| timeout: "p_requesters s i = Waiting \<Longrightarrow> pooled_step s (PTimeout i) (set_requester i (Closing (Inl ''timeout'')) s)"
| cleanup: "p_requesters s i = Closing r \<Longrightarrow> \<not> p_locked s \<Longrightarrow>
     pooled_step s (PCleanup i) (set_requester i (Done r) (s\<lparr>p_channels := p_channels s - {i}\<rparr>))"
| receive: "p_receiver s = Receiving \<Longrightarrow>
     pooled_step s (PReceive i txs) (s\<lparr>p_receiver := WantsLock i txs, p_received := p_received s @ [(i, txs)]\<rparr>)"
| lookup: "p_receiver s = WantsLock i txs \<Longrightarrow> \<not> p_locked s \<Longrightarrow>
     pooled_step s PLookup
       (s\<lparr>p_locked := True, p_receiver := (if i \<in> p_channels s then Sending i txs else Unlocking)\<rparr>)"
| deliver: "p_receiver s = Sending i txs \<Longrightarrow> p_requesters s i = Waiting \<Longrightarrow>
     pooled_step s PDeliver (set_requester i (Closing (Inr txs)) (s\<lparr>p_receiver := Unlocking\<rparr>))"
| unlock: "p_receiver s = Unlocking \<Longrightarrow> pooled_step s PUnlock (s\<lparr>p_locked := False, p_receiver := Receiving\<rparr>)"

inductive_cases pooled_stepE: "pooled_step s l t"

text \<open>
  The map holds the channels of the requests in flight; the session goroutine sends only while it
  holds the mutex, and only on a channel of the map, so never on a closed one; a transaction
  answer comes from a received packet that names the request.
\<close>

definition pooled_inv :: "pooled \<Rightarrow> bool" where
  "pooled_inv s \<longleftrightarrow>
     p_channels s = {i. p_requesters s i = Waiting \<or> (\<exists>r. p_requesters s i = Closing r)} \<and>
     (p_locked s \<longleftrightarrow> p_receiver s = Unlocking \<or> (\<exists>i txs. p_receiver s = Sending i txs)) \<and>
     (\<forall>i txs. p_receiver s = Sending i txs \<longrightarrow> i \<in> p_channels s) \<and>
     (\<forall>i txs. p_receiver s = Sending i txs \<or> p_receiver s = WantsLock i txs \<longrightarrow> (i, txs) \<in> set (p_received s)) \<and>
     (\<forall>i txs. p_requesters s i = Closing (Inr txs) \<or> p_requesters s i = Done (Inr txs) \<longrightarrow> (i, txs) \<in> set (p_received s))"

lemma pooled_step_inv: "pooled_inv s \<Longrightarrow> pooled_step s l t \<Longrightarrow> pooled_inv t"
  by (erule pooled_stepE)
     (auto simp: pooled_inv_def set_requester_def split: option.splits if_splits)

interpretation pooled: step_machine pooled_init pooled_step pooled_inv
proof unfold_locales
  show "pooled_inv s" if "pooled_init s" for s using that by (simp add: pooled_init_def pooled_inv_def)
qed (rule pooled_step_inv)

text \<open>
  C10: in every interleaving of requests, time-outs and received packets the session goroutine never
  sends on a closed channel (it sends on channels of the map only, which are closed only under the
  mutex it holds), and a request returns transactions only if a packet with its request number
  and those transactions was received.
\<close>

theorem pooled_safe:
  assumes "reachable pooled_init pooled_step s"
  shows "(\<forall>i txs. p_receiver s = Sending i txs \<longrightarrow> i \<in> p_channels s \<and> p_locked s) \<and>
         (\<forall>i txs. p_requesters s i = Done (Inr txs) \<longrightarrow> (i, txs) \<in> set (p_received s)) \<and>
         (\<forall>i r. p_requesters s i = Done r \<longrightarrow> i \<notin> p_channels s)"
  using pooled.inv_reachable [OF assms] by (auto simp: pooled_inv_def)

definition pooled_start :: pooled where
  "pooled_start = \<lparr>p_requesters = (\<lambda>_. Idle), p_channels = {}, p_receiver = Receiving, p_locked = False, p_received = []\<rparr>"

lemma pooled_start_reachable: "reachable pooled_init pooled_step pooled_start"
  by (rule reach_init) (simp add: pooled_init_def pooled_start_def)

text \<open>A request that times out between the look-up of its channel and the send.\<close>

definition late_answer :: "nat \<Rightarrow> bytes \<Rightarrow> pooled" where
  "late_answer i txs = \<lparr>p_requesters = (\<lambda>_. Idle)(i := Closing (Inl ''timeout'')), p_channels = {i},
     p_receiver = Sending i txs, p_locked = True, p_received = [(i, txs)]\<rparr>"

lemma late_answer_reachable: "reachable pooled_init pooled_step (late_answer i txs)"
proof -
  define w where "w = (\<lambda>_ :: nat. Idle)(i := Waiting)"
  define s1 where "s1 = \<lparr>p_requesters = w, p_channels = {i}, p_receiver = Receiving, p_locked = False, p_received = []\<rparr>"
  define s2 where "s2 = \<lparr>p_requesters = w, p_channels = {i}, p_receiver = WantsLock i txs, p_locked = False, p_received = [(i, txs)]\<rparr>"
  define s3 where "s3 = \<lparr>p_requesters = w, p_channels = {i}, p_receiver = Sending i txs, p_locked = True, p_received = [(i, txs)]\<rparr>"
  have "pooled_step pooled_start (PRequest i None) s1"
    using pooled_step.request [of pooled_start i None] by (simp add: pooled_start_def set_requester_def s1_def w_def)
  with pooled_start_reachable have 1: "reachable pooled_init pooled_step s1" by (rule reach_step)
  have "pooled_step s1 (PReceive i txs) s2"
    using pooled_step.receive [of s1 i txs] by (simp add: s1_def s2_def)
  with 1 have 2: "reachable pooled_init pooled_step s2" by (rule reach_step)
  have "pooled_step s2 PLookup s3"
    using pooled_step.lookup [of s2 i txs] by (simp add: s2_def s3_def)
  with 2 have 3: "reachable pooled_init pooled_step s3" by (rule reach_step)
  have "pooled_step s3 (PTimeout i) (late_answer i txs)"
    using pooled_step.timeout [of s3 i] by (simp add: s3_def late_answer_def set_requester_def w_def)
  with 3 show ?thesis by (rule reach_step)
qed

lemma pooled_safe_witness: "7 \<in> p_channels (late_answer 7 [1])"
proof -
  have "p_receiver (late_answer 7 [1]) = Sending 7 [1]" by (simp add: late_answer_def)
  with pooled_safe [OF late_answer_reachable [of 7 "[1]"]] show ?thesis by blast
qed

text \<open>The state in which the session goroutine waits for a requester that has given up.\<close>

definition jammed :: "nat \<Rightarrow> pooled \<Rightarrow> bool" where
  "jammed i s \<longleftrightarrow> p_locked s \<and> (\<exists>txs. p_receiver s = Sending i txs) \<and> (\<exists>r. p_requesters s i = Closing r)"

lemma jammed_step: "jammed i s \<Longrightarrow> pooled_step s l t \<Longrightarrow> jammed i t"
  by (erule pooled_stepE) (auto simp: jammed_def set_requester_def split: if_splits)

text \<open>
  C27: a request that times out after the session goroutine looked up its channel locks both for
  good: the goroutine waits for a receiver while it holds the mutex, the request waits for the
  mutex. Such a state is reachable, and from it no interleaving leads out: the session never
  reads another packet, and neither this request nor any later one of this client returns.
\<close>

theorem pooled_timeout_deadlock:
  "(\<exists>s. reachable pooled_init pooled_step s \<and> jammed i s) \<and>
   (\<forall>s t. jammed i s \<longrightarrow> reachable (\<lambda>u. u = s) pooled_step t \<longrightarrow>
      jammed i t \<and> (\<forall>j r. p_requesters t j = Done r \<longrightarrow> p_requesters s j = Done r) \<and> p_received t = p_received s)"
proof (intro conjI allI impI)
  show "\<exists>s. reachable pooled_init pooled_step s \<and> jammed i s"
    using late_answer_reachable [of i "[]"] by (intro exI [of _ "late_answer i []"]) (simp add: jammed_def late_answer_def)
next
  fix s t
  assume s: "jammed i s" and r: "reachable (\<lambda>u. u = s) pooled_step t"
  from r have "jammed i t \<and> (\<forall>j r. p_requesters t j = Done r \<longrightarrow> p_requesters s j = Done r) \<and> p_received t = p_received s"
  proof (induction rule: reachable.induct)
    case (reach_init u)
    with s show ?case by simp
  next
    case (reach_step u l v)
    then have "jammed i u" by blast
    have "(\<forall>j r. p_requesters v j = Done r \<longrightarrow> p_requesters u j = Done r) \<and> p_received v = p_received u"
      using reach_step.hyps(2) \<open>jammed i u\<close>
      by (elim pooled_stepE) (auto simp: jammed_def set_requester_def split: if_splits option.splits)
    with reach_step.IH jammed_step [OF \<open>jammed i u\<close> reach_step.hyps(2)] show ?case by metis
  qed
  then show "jammed i t" and "p_received t = p_received s"
    and "\<And>j r. p_requesters t j = Done r \<Longrightarrow> p_requesters s j = Done r" by blast+
qed

lemma pooled_timeout_deadlock_witness: "jammed 7 (late_answer 7 [1]) \<and> p_received (late_answer 7 [1]) = [(7, [1])]"
proof -
  have j: "jammed 7 (late_answer 7 [1])" by (simp add: jammed_def late_answer_def)
  have "reachable (\<lambda>u. u = late_answer 7 [1]) pooled_step (late_answer 7 [1])" by (rule reach_init) simp
  with j pooled_timeout_deadlock [of 7] have "jammed 7 (late_answer 7 [1])" by blast
  then show ?thesis by (simp add: late_answer_def)
qed

end
