(* ===== verification/CrawlerServe.thy ===== *)
theory CrawlerServe
  imports CrawlerConn
begin

text \<open>
  The requests the crawler answers, \<open>req_handlers.go\<close>, and their registration in
  \<open>wireUpComponents\<close> (\<open>wiring.go\<close>). A handler runs on the crawler and the stream of the request;
  \<open>proto\<close> is the protocol negotiated for the stream, \<open>pid\<close> the peer. There is one network encoder
  per message type.
\<close>

record crawl_codecs =
  cc_status1 :: "status_v1 net_encoder"
  cc_status2 :: "status_v2 net_encoder"
  cc_goodbye :: "u64 net_encoder"
  cc_ping :: "u64 net_encoder"
  cc_metadata2 :: "metadata_v2 net_encoder"
  cc_metadata3 :: "metadata_v3 net_encoder"

type_synonym 'n serve = "'n crawler \<Rightarrow> stream \<Rightarrow> (string option \<times> 'n crawler) \<times> stream"

definition err_of :: "string + 'a \<Rightarrow> string option" where
  "err_of r = (case r of Inl e \<Rightarrow> Some e | Inr _ \<Rightarrow> None)"

text \<open>The deferred \<open>stream.Close()\<close>, whose error is only logged.\<close>

definition close_stream :: "stream \<Rightarrow> stream" where
  "close_stream st = snd (stream_call OpClose st)"

section \<open>Handlers\<close>

definition read_incoming_status :: "crawl_codecs \<Rightarrow> string \<Rightarrow> string \<Rightarrow> (stream, string, status_v1) act" where
  "read_incoming_status E sfx proto = (\<lambda>st.
     case (if proto = StatusV2ProtocolID sfx
           then act_bind (read_request (cc_status2 E)) (\<lambda>s. act_return (status_to_v1 s)) st
           else read_request (cc_status1 E) st) of
       (Inl e, st1) \<Rightarrow> (Inl e, snd (write_response (cc_status1 E) None (Some ''failed to decode request body'') st1))
     | ok \<Rightarrow> ok)"

definition write_status_response :: "crawl_codecs \<Rightarrow> string \<Rightarrow> string \<Rightarrow> status_v1 \<Rightarrow> (stream, string, unit) act" where
  "write_status_response E sfx proto s =
     (if proto = StatusV2ProtocolID sfx then write_response (cc_status2 E) (Some (status_v2_from_v1 s)) None
      else write_response (cc_status1 E) (Some s) None)"

definition handle_status_request :: "crawl_codecs \<Rightarrow> string \<Rightarrow> string \<Rightarrow> string \<Rightarrow> 'n serve" where
  "handle_status_request E sfx proto pid c st =
     (case read_incoming_status E sfx proto st of
        (Inl e, st1) \<Rightarrow> ((Some e, c), close_stream st1)
      | (Inr theirs, st1) \<Rightarrow>
          (let ours = cr_status c;
               c1 = (if sv_fork_digest ours \<noteq> sv_fork_digest theirs
                     then emit_crawl (EvPeerStatusUpdated pid (get_peer_enr c pid) ours) c else c) in
           case write_status_response E sfx proto ours st1 of
             (r, st2) \<Rightarrow> ((err_of r, c1), close_stream st2)))"

definition handle_goodbye_request :: "crawl_codecs \<Rightarrow> 'n serve" where
  "handle_goodbye_request E c st =
     (case act_bind (read_request (cc_goodbye E)) (\<lambda>_. write_response (cc_goodbye E) (Some 0) None) st of
        (Inl e, st1) \<Rightarrow> ((Some e, c), close_stream (snd (write_response (cc_goodbye E) None (Some e) st1)))
      | (Inr _, st1) \<Rightarrow> ((None, c), close_stream st1))"

definition handle_ping_request :: "crawl_codecs \<Rightarrow> 'n serve" where
  "handle_ping_request E c st =
     (case act_bind (read_request (cc_ping E))
             (\<lambda>_. write_response (cc_ping E) (Some (mv_seq_number (cr_metadata c))) None) st of
        (r, st1) \<Rightarrow> ((err_of r, c), close_stream st1))"

definition handle_metadata_request :: "crawl_codecs \<Rightarrow> string \<Rightarrow> string \<Rightarrow> 'n serve" where
  "handle_metadata_request E sfx proto c st =
     (case (if proto = MetaDataV3ProtocolID sfx
            then write_response (cc_metadata3 E) (Some (metadata_v3_from_v2 (cr_metadata c))) None st
            else write_response (cc_metadata2 E) (Some (cr_metadata c)) None st) of
        (r, st1) \<Rightarrow> ((err_of r, c), close_stream st1))"

text \<open>The handler of the requests that are not served closes the stream only after its answer.\<close>

definition handle_dummy_rpc :: "crawl_codecs \<Rightarrow> 'n serve" where
  "handle_dummy_rpc E c st =
     (case write_response (cc_status1 E) None (Some ''unknown error'') st of
        (Inl e, st1) \<Rightarrow> ((Some e, c), st1)
      | (Inr _, st1) \<Rightarrow> (case stream_call OpClose st1 of (r, st2) \<Rightarrow> ((err_of r, c), st2)))"

section \<open>Registration\<close>

datatype serve_name = ServeStatus | ServeGoodbye | ServePing | ServeMetadata | ServeDummy

definition serve :: "crawl_codecs \<Rightarrow> string \<Rightarrow> string \<Rightarrow> string \<Rightarrow> serve_name \<Rightarrow> 'n serve" where
  "serve E sfx proto pid h =
     (case h of
        ServeStatus \<Rightarrow> handle_status_request E sfx proto pid
      | ServeGoodbye \<Rightarrow> handle_goodbye_request E
      | ServePing \<Rightarrow> handle_ping_request E
      | ServeMetadata \<Rightarrow> handle_metadata_request E sfx proto
      | ServeDummy \<Rightarrow> handle_dummy_rpc E)"

definition wiring :: "string \<Rightarrow> (string \<times> serve_name \<times> string) list" where
  "wiring sfx =
     [(StatusV1ProtocolID sfx, ServeStatus, ''failed to register status v1 handler''),
      (StatusV2ProtocolID sfx, ServeStatus, ''failed to register status v2 handler''),
      (GoodbyeV1ProtocolID sfx, ServeGoodbye, ''failed to register goodbye handler''),
      (PingV1ProtocolID sfx, ServePing, ''failed to register ping handler''),
      (MetaDataV2ProtocolID sfx, ServeMetadata, ''failed to register metadata v2 handler''),
      (MetaDataV3ProtocolID sfx, ServeMetadata, ''failed to register metadata v3 handler''),
      (BeaconBlocksByRangeV1ProtocolID sfx, ServeDummy, ''failed to register dummy RPC handler''),
      (BeaconBlocksByRootV1ProtocolID sfx, ServeDummy, ''failed to register dummy RPC handler''),
      (BeaconBlocksByRangeV2ProtocolID sfx, ServeDummy, ''failed to register dummy RPC handler''),
      (BeaconBlocksByRootV2ProtocolID sfx, ServeDummy, ''failed to register dummy RPC handler''),
      (BlobSidecarsByRangeV1ProtocolID sfx, ServeDummy, ''failed to register dummy RPC handler''),
      (BlobSidecarsByRootV1ProtocolID sfx, ServeDummy, ''failed to register dummy RPC handler'')]"

definition wire_up_components :: "string \<Rightarrow> (serve_name req_resp, string, unit) act" where
  "wire_up_components sfx = act_list (map (\<lambda>(proto, h, msg). act_wrap msg (register_handler proto h)) (wiring sfx))"

lemma wiring_distinct: "distinct (map fst (wiring sfx))"
  by (simp add: wiring_def protocol_id_defs req_protocol_eq)

lemma wiring_registers:
  "\<exists>r. wire_up_components sfx new_req_resp = (Inr (), r) \<and>
     (\<forall>(proto, h, msg) \<in> set (wiring sfx). protocol_handler r proto = Some (Some h)) \<and>
     (\<forall>proto. proto \<notin> fst ` set (wiring sfx) \<longrightarrow> protocol_handler r proto = protocol_handler new_req_resp proto)"
proof -
  have fresh: "\<forall>(k, v, m) \<in> set (wiring sfx). True \<and> protocol_handler new_req_resp k = None"
    by (auto simp: protocol_handler_def new_req_resp_def)
  show ?thesis unfolding wire_up_components_def using rr.register_all [OF wiring_distinct fresh] by blast
qed


section \<open>Serving a status\<close>

text \<open>Every handler but the last closes the stream whatever happens.\<close>

lemma close_stream_log: "s_log (close_stream st) = s_log st @ [OpClose]"
  by (simp add: close_stream_def stream_call_def Let_def split: list.splits option.splits)

lemma served_stream_closed:
  "last (s_log (snd (handle_status_request E sfx proto pid c st))) = OpClose"
  "last (s_log (snd (handle_goodbye_request E c st))) = OpClose"
  "last (s_log (snd (handle_ping_request E c st))) = OpClose"
  "last (s_log (snd (handle_metadata_request E sfx proto c st))) = OpClose"
  by (simp_all add: handle_status_request_def handle_goodbye_request_def handle_ping_request_def handle_metadata_request_def
      close_stream_log Let_def split: prod.splits sum.splits)

lemma status_ok_to_v1: "status_v2_ok s \<Longrightarrow> status_v1_ok (status_to_v1 s)"
  by (simp add: status_v1_ok_def status_v2_ok_def status_to_v1_def)

lemma read_incoming_status_lawful:
  assumes "lawful_encoder status_v1_ok (cc_status1 E) enc1" and "lawful_encoder status_v2_ok (cc_status2 E) enc2" and "status_v2_ok theirs" and "smooth st"
    and "s_in st = (if proto = StatusV2ProtocolID sfx then enc2 theirs else enc1 (status_to_v1 theirs))"
  shows "\<exists>st'. read_incoming_status E sfx proto st = (Inr (status_to_v1 theirs), st') \<and> smooth st' \<and> s_out st' = s_out st"
proof (cases "proto = StatusV2ProtocolID sfx")
  case True
  with assms(5) read_request_lawful [OF assms(2,3,4), of "[]"] show ?thesis
    by (auto simp: read_incoming_status_def act_run)
next
  case False
  with assms(5) read_request_lawful [OF assms(1) status_ok_to_v1 [OF assms(3)] assms(4), of "[]"] show ?thesis
    by (auto simp: read_incoming_status_def)
qed

lemma write_status_response_lawful:
  assumes "lawful_encoder status_v1_ok (cc_status1 E) enc1" and "lawful_encoder status_v2_ok (cc_status2 E) enc2" and "status_v1_ok s" and "smooth st"
  shows "\<exists>st'. write_status_response E sfx proto s st = (Inr (), st') \<and>
    s_out st' = s_out st @ 0 # (if proto = StatusV2ProtocolID sfx then enc2 (status_v2_from_v1 s) else enc1 s)"
  using write_response_lawful [OF assms(1,3,4)] write_response_lawful [OF assms(2) status_ok_convert [OF assms(3)] assms(4)]
  by (auto simp: write_status_response_def)

text \<open>
  C13: a status request in either version is answered in that version with the crawler's own status, and
  the peer's request layer decodes exactly that status from the answer. When the fork digests differ the
  crawler reports a changed status of the peer, but the status it reports is its own.
\<close>

theorem status_served:
  assumes "lawful_encoder status_v1_ok (cc_status1 E) enc1" and "lawful_encoder status_v2_ok (cc_status2 E) enc2"
    and "status_v2_ok theirs" and "status_v1_ok (cr_status c)" and "smooth server" and "s_out server = []" and "smooth client" and "s_out client = []"
    and "s_in server = (if proto = StatusV2ProtocolID sfx then enc2 theirs else enc1 (status_to_v1 theirs))"
    and "handle_status_request E sfx proto pid c server = ((err, c'), server')" and "s_in client = s_out server'"
  shows "err = None \<and> last (s_log server') = OpClose \<and>
         c' = (if sv_fork_digest (cr_status c) = s2_fork_digest theirs then c
               else emit_crawl (EvPeerStatusUpdated pid (cr_enrs c pid) (cr_status c)) c) \<and>
         (if proto = StatusV2ProtocolID sfx
          then map_sum id status_to_v1 (fst (send_request (cc_status2 E) (Inr client) (Some theirs))) = Inr (cr_status c)
          else fst (send_request (cc_status1 E) (Inr client) (Some (status_to_v1 theirs))) = Inr (cr_status c))"
proof -
  obtain s1 where r: "read_incoming_status E sfx proto server = (Inr (status_to_v1 theirs), s1)" and s1: "smooth s1" "s_out s1 = []"
    using read_incoming_status_lawful [OF assms(1-3,5,9)] assms(6) by auto
  obtain s2 where w: "write_status_response E sfx proto (cr_status c) s1 = (Inr (), s2)"
    and out: "s_out s2 = 0 # (if proto = StatusV2ProtocolID sfx then enc2 (status_v2_from_v1 (cr_status c)) else enc1 (cr_status c))"
    using write_status_response_lawful [OF assms(1,2,4) s1(1), of sfx proto] s1(2) by auto
  have res: "err = None \<and> server' = close_stream s2 \<and>
      c' = (if sv_fork_digest (cr_status c) = s2_fork_digest theirs then c
            else emit_crawl (EvPeerStatusUpdated pid (cr_enrs c pid) (cr_status c)) c)"
    using assms(10) r w by (auto simp: handle_status_request_def err_of_def status_to_v1_def get_peer_enr_def Let_def)
  have "s_in client = s_out s2"
    using assms(11) res by (simp add: close_stream_def stream_call_def Let_def split: list.splits option.splits)
  then show ?thesis
    using res out close_stream_log send_request_lawful [OF assms(1) status_ok_to_v1 [OF assms(3)] assms(4,7,8)]
      send_request_lawful [OF assms(2,3) status_ok_convert [OF assms(4)] assms(7,8)]
    by (auto simp: status_to_v1_def status_v2_from_v1_def)
qed

text \<open>A network encoder for the statuses: the bytes of the new version, read in one piece.\<close>

definition fixed_encoder :: "nat \<Rightarrow> ('o \<Rightarrow> bytes) \<Rightarrow> (bytes \<Rightarrow> string + 'o) \<Rightarrow> 'o net_encoder" where
  "fixed_encoder n enc dec = \<lparr>encode_with_max_length = (\<lambda>p. stream_write (enc p)),
     decode_with_max_length = act_bind (read_full n) (\<lambda>buf st. (dec buf, st))\<rparr>"

lemma fixed_encoder_lawful:
  assumes "\<And>p. P p \<Longrightarrow> length (enc p) = n \<and> dec (enc p) = Inr p"
  shows "lawful_encoder P (fixed_encoder n enc dec) enc"
  using assms by (simp add: lawful_encoder_def fixed_encoder_def stream_write_smooth act_run read_full_smooth)

definition demo_codecs :: crawl_codecs where
  "demo_codecs = \<lparr>
     cc_status1 = fixed_encoder StatusV2ByteLen (\<lambda>s. status_v2_serialize plain_ssz (status_v2_from_v1 s))
       (\<lambda>b. map_sum id status_to_v1 (status_v2_deserialize plain_ssz b)),
     cc_status2 = fixed_encoder StatusV2ByteLen (status_v2_serialize plain_ssz) (status_v2_deserialize plain_ssz),
     cc_goodbye = fixed_encoder 8 le_bytes (\<lambda>b. Inr (of_le_bytes b)), cc_ping = fixed_encoder 8 le_bytes (\<lambda>b. Inr (of_le_bytes b)),
     cc_metadata2 = fixed_encoder 0 (\<lambda>_. []) (\<lambda>_. Inl ''no fields''), cc_metadata3 = fixed_encoder 0 (\<lambda>_. []) (\<lambda>_. Inl ''no fields'')\<rparr>"

lemma demo_codecs_lawful:
  "lawful_encoder status_v1_ok (cc_status1 demo_codecs) (\<lambda>s. status_v2_serialize plain_ssz (status_v2_from_v1 s))"
  "lawful_encoder status_v2_ok (cc_status2 demo_codecs) (status_v2_serialize plain_ssz)"
  unfolding demo_codecs_def crawl_codecs.simps
  by (rule fixed_encoder_lawful, simp add: status_v2_wire [OF plain_ssz_lawful] status_ok_convert status_v1_v2_v1)
    (rule fixed_encoder_lawful, simp add: status_v2_wire [OF plain_ssz_lawful])

lemma status_served_witness:
  "fst (fst (handle_status_request demo_codecs ''x'' (StatusV2ProtocolID ''x'') ''p'' demo_crawler
     \<lparr>s_in = status_v2_serialize plain_ssz demo_status, s_out = [], s_plan = [], s_log = []\<rparr>)) = None"
proof -
  let ?server = "\<lparr>s_in = status_v2_serialize plain_ssz demo_status, s_out = [], s_plan = [], s_log = []\<rparr>"
  obtain err c' server' where h: "handle_status_request demo_codecs ''x'' (StatusV2ProtocolID ''x'') ''p'' demo_crawler ?server = ((err, c'), server')"
    by (metis prod.exhaust)
  let ?client = "\<lparr>s_in = s_out server', s_out = [], s_plan = [], s_log = []\<rparr>"
  have "status_v2_ok demo_status" and "status_v1_ok (cr_status demo_crawler)"
    by (simp_all add: status_v2_ok_def demo_status_def status_v1_ok_def demo_crawler_def new_crawler_def set_enr_def zero_status_def)
  moreover have "smooth ?server" and "smooth ?client" by (simp_all add: smooth_def)
  ultimately have "err = None"
    using status_served [OF demo_codecs_lawful, of demo_status demo_crawler ?server ?client "StatusV2ProtocolID ''x''" "''x''" "''p''" err c' server'] h
    by simp
  with h show ?thesis by simp
qed

end
