(* ===== verification/TraceIds.thy ===== *)
theory TraceIds
  imports Hashes
begin

text \<open>
  Trace identifiers of beacon nodes (\<open>pkg/ethereum/beacon/trace_id.go\<close>). The map
  \<open>uniqueIDs\<close>, whose values are all \<open>true\<close>, is the list of its keys. The loop that looks
  for an unused identifier is a partial function: \<open>None\<close> is a loop that never ends, and
  \<open>unique_id_terminates\<close> shows it is never the result. The counter of the loop stays at or
  below the number of identifiers in use, so the Go \<open>int\<close> cannot overflow.
\<close>

section \<open>The code\<close>

text \<open>\<open>base64.URLEncoding.EncodeToString(hash[:])[:8]\<close>\<close>

definition trace_base_id :: "string \<Rightarrow> string" where
  "trace_base_id address = take 8 (base64_url (sha256 (bytes_of_str address)))"

partial_function (option) unique_id :: "string list \<Rightarrow> string \<Rightarrow> string \<Rightarrow> nat \<Rightarrow> string option" where
  "unique_id used base_id i counter =
     (if i \<in> set used
      then unique_id used base_id (base_id @ ''-'' @ dec_of_nat counter) (counter + 1)
      else Some i)"

fun trace_ids_from :: "string list \<Rightarrow> string list \<Rightarrow> string list option" where
  "trace_ids_from used [] = Some []"
| "trace_ids_from used (address # addresses) =
     (let base_id = trace_base_id address
      in case unique_id used base_id base_id 1 of
           None \<Rightarrow> None
         | Some i \<Rightarrow> map_option (Cons i) (trace_ids_from (i # used) addresses))"

definition generate_beacon_trace_ids :: "string list \<Rightarrow> (string + string list) option" where
  "generate_beacon_trace_ids addresses =
     (if addresses = [] then Some (Inl ''no addresses provided'')
      else map_option Inr (trace_ids_from [] addresses))"

text \<open>\<open>traceIDs[0]\<close> panics on an empty list.\<close>

definition generate_beacon_trace_id :: "string \<Rightarrow> (fault + string) option" where
  "generate_beacon_trace_id address =
     map_option (\<lambda>r. case r of
         Inl e \<Rightarrow> Inl (Err e)
       | Inr [] \<Rightarrow> Inl (Panic ''index out of range'')
       | Inr (i # _) \<Rightarrow> Inr i)
       (generate_beacon_trace_ids [address])"

section \<open>Candidates\<close>

text \<open>The identifiers the loop tries, in order.\<close>

definition trace_candidate :: "string \<Rightarrow> nat \<Rightarrow> string" where
  "trace_candidate base_id n = (if n = 0 then base_id else base_id @ ''-'' @ dec_of_nat n)"

lemma trace_candidate_inj [simp]: "trace_candidate b m = trace_candidate b n \<longleftrightarrow> m = n"
  by (auto simp: trace_candidate_def)

text \<open>One of the first \<open>length used + 1\<close> candidates is unused: they are distinct.\<close>

lemma unused_candidate: "\<exists>n \<le> length used. trace_candidate b n \<notin> set used"
proof (rule ccontr)
  assume "\<not> ?thesis"
  then have "trace_candidate b ` {..length used} \<subseteq> set used" by auto
  then have "card (trace_candidate b ` {..length used}) \<le> card (set used)"
    by (intro card_mono) auto
  also have "\<dots> \<le> length used" by (rule card_length)
  finally show False by (simp add: card_image inj_on_def)
qed

lemma first_unused_candidate:
  obtains n where "n \<le> length used" "trace_candidate b n \<notin> set used"
    "\<forall>j < n. trace_candidate b j \<in> set used"
proof -
  let ?P = "\<lambda>n. trace_candidate b n \<notin> set used"
  obtain m where m: "m \<le> length used" "?P m" using unused_candidate by blast
  have "?P (Least ?P)" using m(2) by (rule LeastI)
  moreover have "Least ?P \<le> length used" using Least_le [of ?P, OF m(2)] m(1) by simp
  moreover have "\<forall>j < Least ?P. trace_candidate b j \<in> set used" using not_less_Least [of _ ?P] by blast
  ultimately show thesis by (intro that)
qed

lemma unique_id_from:
  assumes "c \<le> n" "trace_candidate b n \<notin> set used"
    "\<forall>j. c \<le> j \<and> j < n \<longrightarrow> trace_candidate b j \<in> set used"
  shows "unique_id used b (trace_candidate b c) (c + 1) = Some (trace_candidate b n)"
  using assms
proof (induction "n - c" arbitrary: c)
  case 0
  then show ?case by (subst unique_id.simps) simp
next
  case (Suc k)
  then have "c < n" by simp
  with Suc.prems have "trace_candidate b c \<in> set used" by simp
  moreover have "b @ ''-'' @ dec_of_nat (c + 1) = trace_candidate b (c + 1)"
    by (simp add: trace_candidate_def)
  moreover have "unique_id used b (trace_candidate b (c + 1)) (c + 1 + 1) = Some (trace_candidate b n)"
    using Suc.hyps(2) Suc.prems \<open>c < n\<close> by (intro Suc.hyps(1)) auto
  ultimately show ?case by (subst unique_id.simps) simp
qed

lemma unique_id_first:
  "\<exists>n \<le> length used. unique_id used b b 1 = Some (trace_candidate b n)
     \<and> trace_candidate b n \<notin> set used \<and> (\<forall>j < n. trace_candidate b j \<in> set used)"
proof -
  obtain n where n: "n \<le> length used" "trace_candidate b n \<notin> set used"
    "\<forall>j < n. trace_candidate b j \<in> set used" by (rule first_unused_candidate)
  then have "unique_id used b (trace_candidate b 0) (0 + 1) = Some (trace_candidate b n)"
    by (intro unique_id_from) auto
  moreover have "trace_candidate b 0 = b" by (simp add: trace_candidate_def)
  ultimately show ?thesis using n by auto
qed

text \<open>
  C20: The uniqueness loop of GenerateBeaconTraceIDs ends on every set of identifiers in use:
  it returns the first unused one of the base identifier, base-1, base-2, ..., after at most
  as many rounds as there are identifiers in use.
\<close>

theorem unique_id_terminates:
  "\<exists>n \<le> length used. unique_id used b b 1 = Some (trace_candidate b n)
     \<and> trace_candidate b n \<notin> set used
     \<and> n = (LEAST m. trace_candidate b m \<notin> set used)"
proof -
  obtain n where n: "n \<le> length used" "unique_id used b b 1 = Some (trace_candidate b n)"
    "trace_candidate b n \<notin> set used" "\<forall>j < n. trace_candidate b j \<in> set used"
    using unique_id_first by blast
  then have "n = (LEAST m. trace_candidate b m \<notin> set used)"
    by (intro Least_equality [symmetric]) (auto simp: not_less [symmetric])
  with n show ?thesis by blast
qed

section \<open>The whole list\<close>

lemma trace_ids_from_total:
  "\<exists>ids. trace_ids_from used as = Some ids \<and> length ids = length as \<and> distinct ids
     \<and> set ids \<inter> set used = {}
     \<and> list_all2 (\<lambda>a i. \<exists>n < length used + length as. i = trace_candidate (trace_base_id a) n) as ids"
proof (induction as arbitrary: used)
  case Nil
  then show ?case by simp
next
  case (Cons a as)
  obtain n where n: "n \<le> length used" "unique_id used (trace_base_id a) (trace_base_id a) 1
      = Some (trace_candidate (trace_base_id a) n)" "trace_candidate (trace_base_id a) n \<notin> set used"
    using unique_id_first by blast
  define i where "i = trace_candidate (trace_base_id a) n"
  obtain ids where ids: "trace_ids_from (i # used) as = Some ids" "length ids = length as"
    "distinct ids" "set ids \<inter> set (i # used) = {}"
    "list_all2 (\<lambda>a i. \<exists>n < length used + length (a # as). i = trace_candidate (trace_base_id a) n) as ids"
    using Cons.IH [of "i # used"] by auto
  from n(1) have "n < length used + length (a # as)" by simp
  with ids n show ?case by (auto simp: i_def)
qed

text \<open>Adding addresses at the end leaves the identifiers of the others as they were.\<close>

lemma trace_ids_from_append:
  "trace_ids_from used (as @ bs) =
     Option.bind (trace_ids_from used as)
       (\<lambda>ids. map_option ((@) ids) (trace_ids_from (rev ids @ used) bs))"
  by (induction as arbitrary: used)
     (auto simp: Let_def option.map_comp comp_def map_option_case split: option.splits bind_splits)

text \<open>
  GenerateBeaconTraceIDs gives every address an identifier of its own, whatever collisions
  the truncated hashes have: the identifier starts with the eight characters of the address
  and carries a counter below the number of addresses, and addresses appended to the list
  change no identifier before them.
\<close>

theorem trace_ids_unique:
  assumes "addresses \<noteq> []"
  shows "\<exists>ids. generate_beacon_trace_ids addresses = Some (Inr ids)
    \<and> length ids = length addresses \<and> distinct ids
    \<and> list_all2 (\<lambda>a i. \<exists>n < length addresses. i = trace_candidate (trace_base_id a) n) addresses ids
    \<and> (\<forall>more. \<exists>ids'. generate_beacon_trace_ids (addresses @ more) = Some (Inr (ids @ ids')))"
proof -
  obtain ids where ids: "trace_ids_from [] addresses = Some ids" "length ids = length addresses"
    "distinct ids"
    "list_all2 (\<lambda>a i. \<exists>n < length addresses. i = trace_candidate (trace_base_id a) n) addresses ids"
    using trace_ids_from_total [of "[]" addresses] by auto
  have "\<exists>ids'. generate_beacon_trace_ids (addresses @ more) = Some (Inr (ids @ ids'))" for more
    using trace_ids_from_total [of "rev ids" more] assms ids(1)
    by (auto simp: generate_beacon_trace_ids_def trace_ids_from_append)
  with ids assms show ?thesis by (auto simp: generate_beacon_trace_ids_def)
qed

lemma trace_ids_unique_witness:
  "\<exists>a b. generate_beacon_trace_ids [''http://node'', ''http://node''] = Some (Inr [a, b]) \<and> a \<noteq> b"
proof -
  obtain ids where "generate_beacon_trace_ids [''http://node'', ''http://node''] = Some (Inr ids)"
    "length ids = 2" "distinct ids"
    using trace_ids_unique [of "[''http://node'', ''http://node'']"] by auto
  then show ?thesis by (auto simp: length_Suc_conv numeral_2_eq_2)
qed

lemma generate_one:
  "generate_beacon_trace_id address = Some (Inr (trace_base_id address))"
  by (simp add: generate_beacon_trace_id_def generate_beacon_trace_ids_def Let_def unique_id.simps)

end
