(* ===== verification/Networks.thy ===== *)
theory Networks
  imports GoStrings
begin

text \<open>
  Deriving the name of an Ethereum network (\<open>pkg/ethereum/networks/networks.go\<close>). The maps
  \<open>NetworkGenesisRoots\<close> and \<open>NetworkIDs\<close> are association lists read with \<open>map_of\<close> (their keys
  are distinct); of \<open>state.Spec\<close>, a type of another module, the model has the three fields
  the code reads. \<open>EqualFold\<close> on ASCII is exact here: the first argument is always one of the
  known addresses, which have only hexadecimal digits and the letter x.
\<close>

type_synonym network_name = string

record network =
  net_name :: network_name
  net_id :: u64
  net_deposit_address :: string
  net_deposit_chain_id :: u64

definition NetworkNameNone :: network_name where "NetworkNameNone = ''none''"
definition NetworkNameUnknown :: network_name where "NetworkNameUnknown = ''unknown''"
definition NetworkNameMainnet :: network_name where "NetworkNameMainnet = ''mainnet''"
definition NetworkNameGoerli :: network_name where "NetworkNameGoerli = ''goerli''"
definition NetworkNameSepolia :: network_name where "NetworkNameSepolia = ''sepolia''"
definition NetworkNameHolesky :: network_name where "NetworkNameHolesky = ''holesky''"
definition NetworkNameHoodi :: network_name where "NetworkNameHoodi = ''hoodi''"

lemmas network_name_defs = NetworkNameNone_def NetworkNameUnknown_def NetworkNameMainnet_def
  NetworkNameGoerli_def NetworkNameSepolia_def NetworkNameHolesky_def NetworkNameHoodi_def

definition network_genesis_roots :: "string \<rightharpoonup> u64" where
  "network_genesis_roots = map_of
    [(''0x4b363db94e286120d76eb905340fdd4e54bfe9f06bf33ff6cf5ad27f511bfe95'', 1),
     (''0x043db0d9a83813551ee2f33450d23797757d430911a9320530ad8a0eabc43efb'', 5),
     (''0xd8ea171f3c94aea21ebc42a1ed61052acf3f9209c00e4efbaaddac09ed9b8078'', 11155111),
     (''0x9143aa7c615a7f7115e2b6aac319c03529df8242ae705fba9df39b79c59fa8b1'', 17000),
     (''0x212f13fc4df078b6cb7db228f1c8307566dcecf900867401a92023d7ba99cb5f'', 560048)]"

definition network_ids :: "u64 \<rightharpoonup> network_name" where
  "network_ids = map_of
    [(1, NetworkNameMainnet),
     (5, NetworkNameGoerli),
     (11155111, NetworkNameSepolia),
     (17000, NetworkNameHolesky),
     (560048, NetworkNameHoodi)]"

definition ErrNetworkNotFound :: string where "ErrNetworkNotFound = ''network not found''"

definition known_networks :: "network list" where
  "known_networks =
    [\<lparr>net_name = NetworkNameMainnet, net_id = 1,
       net_deposit_address = ''0x00000000219ab540356cBB839Cbe05303d7705Fa'', net_deposit_chain_id = 1\<rparr>,
     \<lparr>net_name = NetworkNameGoerli, net_id = 5,
       net_deposit_address = ''0xff50ed3d0ec03aC01D4C79aAd74928BFF48a7b2b'', net_deposit_chain_id = 5\<rparr>,
     \<lparr>net_name = NetworkNameSepolia, net_id = 11155111,
       net_deposit_address = ''0x7f02c3e3c98b133055b8b348b2ac625669ed295d'', net_deposit_chain_id = 11155111\<rparr>,
     \<lparr>net_name = NetworkNameHolesky, net_id = 17000,
       net_deposit_address = ''0x4242424242424242424242424242424242424242'', net_deposit_chain_id = 17000\<rparr>,
     \<lparr>net_name = NetworkNameHoodi, net_id = 560048,
       net_deposit_address = ''0x00000000219ab540356cBB839Cbe05303d7705Fa'', net_deposit_chain_id = 560048\<rparr>]"

definition derive_from_id :: "u64 \<Rightarrow> network" where
  "derive_from_id i =
     \<lparr>net_name = (case network_ids i of Some n \<Rightarrow> n | None \<Rightarrow> NetworkNameUnknown), net_id = i,
      net_deposit_address = [], net_deposit_chain_id = 0\<rparr>"

definition derive_from_genesis_root :: "string \<Rightarrow> network" where
  "derive_from_genesis_root root =
     (case network_genesis_roots root of
        Some i \<Rightarrow>
          \<lparr>net_name = (case network_ids i of Some n \<Rightarrow> n | None \<Rightarrow> NetworkNameUnknown), net_id = i,
           net_deposit_address = [], net_deposit_chain_id = 0\<rparr>
      | None \<Rightarrow>
          \<lparr>net_name = NetworkNameUnknown, net_id = 0, net_deposit_address = [], net_deposit_chain_id = 0\<rparr>)"

definition find_by_name :: "network_name \<Rightarrow> string + network" where
  "find_by_name name =
     (case List.find (\<lambda>n. net_name n = name) known_networks of
        Some n \<Rightarrow> Inr n
      | None \<Rightarrow> Inl (err_wrap ErrNetworkNotFound name))"

record spec =
  spec_deposit_address :: string
  spec_deposit_chain_id :: u64
  spec_config_name :: string

definition derive_from_spec :: "spec \<Rightarrow> string + network" where
  "derive_from_spec spec =
     (case List.find (\<lambda>n. equal_fold (net_deposit_address n) (spec_deposit_address spec)
                       \<and> net_deposit_chain_id n = spec_deposit_chain_id spec) known_networks of
        Some n \<Rightarrow> Inr n
      | None \<Rightarrow>
          if spec_config_name spec \<noteq> [] then
            (case find_by_name (spec_config_name spec) of
               Inr _ \<Rightarrow> Inl (''incorrect network detected: '' @ spec_config_name spec)
             | Inl _ \<Rightarrow>
                 Inr \<lparr>net_name = spec_config_name spec, net_id = spec_deposit_chain_id spec,
                      net_deposit_address = spec_deposit_address spec,
                      net_deposit_chain_id = spec_deposit_chain_id spec\<rparr>)
          else Inl (err_wrap ErrNetworkNotFound (spec_config_name spec)))"

section \<open>Facts\<close>

definition known_name :: "network_name \<Rightarrow> bool" where
  "known_name name = (\<exists>n \<in> set known_networks. net_name n = name)"


lemma find_set: "List.find P xs = Some x \<Longrightarrow> x \<in> set xs \<and> P x"
  by (auto simp: find_Some_iff)

lemma find_unique:
  assumes "x \<in> set xs" "P x" "\<forall>y \<in> set xs. P y \<longrightarrow> y = x"
  shows "List.find P xs = Some x"
proof (cases "List.find P xs")
  case None
  with assms(1,2) show ?thesis by (simp add: find_None_iff)
next
  case (Some y)
  with assms(3) show ?thesis by (metis find_set)
qed

lemma find_by_name_ok_iff: "is_ok (find_by_name name) \<longleftrightarrow> known_name name"
proof (cases "List.find (\<lambda>n. net_name n = name) known_networks")
  case None
  then have "\<not> known_name name" by (auto simp: find_None_iff known_name_def)
  with None show ?thesis by (simp add: find_by_name_def)
next
  case (Some n)
  then have "known_name name" by (auto simp: known_name_def dest!: find_set)
  with Some show ?thesis by (simp add: find_by_name_def)
qed

text \<open>The chain identifiers of the known networks tell them apart.\<close>

lemma known_chain_ids: "distinct (map net_deposit_chain_id known_networks)"
  by (simp add: known_networks_def)

lemma known_by_chain_id:
  "m \<in> set known_networks \<Longrightarrow> n \<in> set known_networks \<Longrightarrow>
     net_deposit_chain_id m = net_deposit_chain_id n \<Longrightarrow> m = n"
  using known_chain_ids by (auto simp: distinct_map inj_on_def)

lemma equal_fold_refl [simp]: "equal_fold a a"
  by (simp add: equal_fold_def)

lemma derive_known:
  assumes "n \<in> set known_networks" "equal_fold (net_deposit_address n) (spec_deposit_address sp)"
    "net_deposit_chain_id n = spec_deposit_chain_id sp"
  shows "derive_from_spec sp = Inr n"
proof -
  have "List.find (\<lambda>k. equal_fold (net_deposit_address k) (spec_deposit_address sp)
           \<and> net_deposit_chain_id k = spec_deposit_chain_id sp) known_networks = Some n"
    using assms by (intro find_unique) (auto intro: known_by_chain_id)
  then show ?thesis by (simp add: derive_from_spec_def)
qed

lemma derive_from_spec_known_iff:
  "(derive_from_spec sp = Inr n \<and> known_name (net_name n)) \<longleftrightarrow>
     (n \<in> set known_networks \<and> equal_fold (net_deposit_address n) (spec_deposit_address sp)
       \<and> net_deposit_chain_id n = spec_deposit_chain_id sp)"
  (is "?L \<longleftrightarrow> n \<in> set known_networks \<and> ?P n")
proof
  assume l: ?L
  then have "List.find ?P known_networks = Some n"
    using find_by_name_ok_iff [of "spec_config_name sp"]
    by (auto simp: derive_from_spec_def split: option.splits if_splits sum.splits)
  then show "n \<in> set known_networks \<and> ?P n" by (rule find_set)
next
  assume "n \<in> set known_networks \<and> ?P n"
  then show ?L by (auto simp: known_name_def intro: derive_known)
qed

lemma derive_from_spec_other:
  assumes "derive_from_spec sp = Inr n" "\<not> known_name (net_name n)"
  shows "n = \<lparr>net_name = spec_config_name sp, net_id = spec_deposit_chain_id sp,
              net_deposit_address = spec_deposit_address sp,
              net_deposit_chain_id = spec_deposit_chain_id sp\<rparr>"
proof (cases "List.find (\<lambda>k. equal_fold (net_deposit_address k) (spec_deposit_address sp)
                 \<and> net_deposit_chain_id k = spec_deposit_chain_id sp) known_networks")
  case None
  with assms(1) show ?thesis by (simp add: derive_from_spec_def split: if_splits sum.splits)
next
  case (Some k)
  with assms(1) have "k = n" by (simp add: derive_from_spec_def)
  with find_set [OF Some] assms(2) show ?thesis by (auto simp: known_name_def)
qed

lemma derive_from_spec_safe_parts:
  "(derive_from_spec spec = Inr n \<and> known_name (net_name n)) \<longleftrightarrow>
     (n \<in> set known_networks \<and> equal_fold (net_deposit_address n) (spec_deposit_address spec)
       \<and> net_deposit_chain_id n = spec_deposit_chain_id spec)"
  "(\<forall>k \<in> set known_networks. \<not> (equal_fold (net_deposit_address k) (spec_deposit_address spec)
       \<and> net_deposit_chain_id k = spec_deposit_chain_id spec)) \<Longrightarrow>
     derive_from_spec spec =
       (if spec_config_name spec = [] then Inl ''network not found: ''
        else if known_name (spec_config_name spec)
        then Inl (''incorrect network detected: '' @ spec_config_name spec)
        else Inr \<lparr>net_name = spec_config_name spec, net_id = spec_deposit_chain_id spec,
                  net_deposit_address = spec_deposit_address spec,
                  net_deposit_chain_id = spec_deposit_chain_id spec\<rparr>)"
proof -
  let ?P = "\<lambda>k. equal_fold (net_deposit_address k) (spec_deposit_address spec)
               \<and> net_deposit_chain_id k = spec_deposit_chain_id spec"
  show "(derive_from_spec spec = Inr n \<and> known_name (net_name n)) \<longleftrightarrow> n \<in> set known_networks \<and> ?P n"
    by (rule derive_from_spec_known_iff)
  show "derive_from_spec spec =
       (if spec_config_name spec = [] then Inl ''network not found: ''
        else if known_name (spec_config_name spec)
        then Inl (''incorrect network detected: '' @ spec_config_name spec)
        else Inr \<lparr>net_name = spec_config_name spec, net_id = spec_deposit_chain_id spec,
                  net_deposit_address = spec_deposit_address spec,
                  net_deposit_chain_id = spec_deposit_chain_id spec\<rparr>)"
    if "\<forall>k \<in> set known_networks. \<not> ?P k"
  proof -
    from that have "List.find ?P known_networks = None" by (auto simp: find_None_iff)
    then show ?thesis
      using find_by_name_ok_iff [of "spec_config_name spec"]
      by (auto simp: derive_from_spec_def err_wrap_def ErrNetworkNotFound_def split: sum.splits)
  qed
qed

text \<open>
  C19: DeriveFromSpec gives the name of a known network exactly to the specifications with its
  deposit contract, in any letter case, and its chain id, whatever CONFIG_NAME says; a
  specification of another chain that claims a known name is refused, and any other named one
  keeps its own data.
\<close>

theorem derive_from_spec_safe:
  "((derive_from_spec spec = Inr n \<and> known_name (net_name n)) \<longleftrightarrow>
     (n \<in> set known_networks \<and> equal_fold (net_deposit_address n) (spec_deposit_address spec)
       \<and> net_deposit_chain_id n = spec_deposit_chain_id spec))
   \<and> ((\<forall>k \<in> set known_networks. \<not> (equal_fold (net_deposit_address k) (spec_deposit_address spec)
       \<and> net_deposit_chain_id k = spec_deposit_chain_id spec)) \<longrightarrow>
     derive_from_spec spec =
       (if spec_config_name spec = [] then Inl ''network not found: ''
        else if known_name (spec_config_name spec)
        then Inl (''incorrect network detected: '' @ spec_config_name spec)
        else Inr \<lparr>net_name = spec_config_name spec, net_id = spec_deposit_chain_id spec,
                  net_deposit_address = spec_deposit_address spec,
                  net_deposit_chain_id = spec_deposit_chain_id spec\<rparr>))"
  by (intro conjI impI derive_from_spec_safe_parts)


lemma derive_from_spec_safe_witness:
  "derive_from_spec \<lparr>spec_deposit_address = ''0x00'', spec_deposit_chain_id = 7, spec_config_name = ''mainnet''\<rparr>
     = Inl ''incorrect network detected: mainnet''
   \<and> is_ok (derive_from_spec \<lparr>spec_deposit_address = ''0x00000000219AB540356CBB839CBE05303D7705FA'',
       spec_deposit_chain_id = 1, spec_config_name = ''x''\<rparr>)"
proof
  have "known_name ''mainnet''" by (simp add: known_name_def known_networks_def network_name_defs)
  then show "derive_from_spec \<lparr>spec_deposit_address = ''0x00'', spec_deposit_chain_id = 7,
      spec_config_name = ''mainnet''\<rparr> = Inl ''incorrect network detected: mainnet''"
    by (subst derive_from_spec_safe [THEN conjunct2, THEN mp]) (simp_all add: known_networks_def)
  show "is_ok (derive_from_spec \<lparr>spec_deposit_address = ''0x00000000219AB540356CBB839CBE05303D7705FA'',
       spec_deposit_chain_id = 1, spec_config_name = ''x''\<rparr>)"
    by code_simp
qed

text \<open>
  The tables agree: a genesis root or a chain id that is recognised leads to the network
  that FindByName and DeriveFromSpec know under that name, with the same id.
\<close>

theorem network_tables_agree:
  "net_name (derive_from_id i) = NetworkNameUnknown
     \<or> (\<exists>k. find_by_name (net_name (derive_from_id i)) = Inr k \<and> net_id k = i
          \<and> derive_from_spec \<lparr>spec_deposit_address = net_deposit_address k,
               spec_deposit_chain_id = i, spec_config_name = c\<rparr> = Inr k)"
  "derive_from_genesis_root r =
     derive_from_id (case network_genesis_roots r of Some i \<Rightarrow> i | None \<Rightarrow> 0)"
  "net_name (derive_from_genesis_root r) = NetworkNameUnknown \<longleftrightarrow> network_genesis_roots r = None"
proof -
  have known: "\<forall>(j, name) \<in> set [(1, NetworkNameMainnet), (5, NetworkNameGoerli), (11155111, NetworkNameSepolia),
       (17000, NetworkNameHolesky), (560048 :: u64, NetworkNameHoodi)].
       \<exists>k \<in> set known_networks. find_by_name name = Inr k \<and> net_id k = j \<and> net_deposit_chain_id k = j
         \<and> name \<noteq> NetworkNameUnknown"
    by code_simp
  show "net_name (derive_from_id i) = NetworkNameUnknown
     \<or> (\<exists>k. find_by_name (net_name (derive_from_id i)) = Inr k \<and> net_id k = i
          \<and> derive_from_spec \<lparr>spec_deposit_address = net_deposit_address k,
               spec_deposit_chain_id = i, spec_config_name = c\<rparr> = Inr k)"
  proof (cases "network_ids i")
    case None
    then show ?thesis by (simp add: derive_from_id_def)
  next
    case (Some name)
    then have "(i, name) \<in> set [(1, NetworkNameMainnet), (5, NetworkNameGoerli), (11155111, NetworkNameSepolia),
       (17000, NetworkNameHolesky), (560048 :: u64, NetworkNameHoodi)]"
      unfolding network_ids_def by (rule map_of_SomeD)
    with known obtain k where k: "k \<in> set known_networks" "find_by_name name = Inr k" "net_id k = i"
      "net_deposit_chain_id k = i" by blast
    then have "derive_from_spec \<lparr>spec_deposit_address = net_deposit_address k,
               spec_deposit_chain_id = i, spec_config_name = c\<rparr> = Inr k"
      by (intro derive_known) simp_all
    with k Some show ?thesis by (auto simp: derive_from_id_def)
  qed
  have roots: "\<forall>i \<in> set [1, 5, 11155111, 17000, 560048 :: u64]. net_name (derive_from_id i) \<noteq> NetworkNameUnknown"
    by code_simp
  have ran: "i \<in> set [1, 5, 11155111, 17000, 560048]" if "network_genesis_roots r = Some i" for i
    using map_of_SomeD [OF that [unfolded network_genesis_roots_def]] by auto
  have "network_ids 0 = None" by code_simp
  then show eq: "derive_from_genesis_root r =
     derive_from_id (case network_genesis_roots r of Some i \<Rightarrow> i | None \<Rightarrow> 0)"
    by (simp add: derive_from_genesis_root_def derive_from_id_def split: option.split)
  show "net_name (derive_from_genesis_root r) = NetworkNameUnknown \<longleftrightarrow> network_genesis_roots r = None"
  proof (cases "network_genesis_roots r")
    case None
    then show ?thesis by (simp add: derive_from_genesis_root_def)
  next
    case (Some i)
    with eq ran [OF Some] roots show ?thesis by auto
  qed
qed

end
