(* ===== verification/Metadata.thy ===== *)
theory Metadata
  imports Networks Clients Hashes
begin

text \<open>
  The metadata service (\<open>pkg/ethereum/beacon/services/metadata.go\<close>) and the life cycle of the
  \<open>BeaconNode\<close> that owns it (\<open>pkg/ethereum/beacon.go\<close>, \<open>config.go\<close>). What the beacon library
  answers during one refresh is the record \<open>beacon_answers\<close>; the constructor of the wall clock and
  the retry helper are parameters. \<open>log.Fatal\<close> ends the process and is an outcome of its own, as
  is waiting until the context is cancelled.
\<close>

section \<open>The service\<close>

record full_spec = spec +
  spec_seconds_per_slot :: u64
  spec_slots_per_epoch :: u64

record genesis_info =
  genesis_time :: int
  genesis_validators_root :: bytes

text \<open>\<open>GetEnode\<close> of an identity gives the node id, in its printed form, or an error.\<close>

record node_identity =
  identity_peer :: string
  identity_enode :: "string + string"

record node_answers =
  na_version :: string
  na_healthy :: bool
  na_spec :: "string + full_spec"
  na_genesis :: "string + genesis_info"
  na_identity :: "string + node_identity"

datatype on_ready = UserCallback string | ServiceReadyCallback

record 'w metadata_service =
  ms_network :: "network option"
  ms_genesis :: "genesis_info option"
  ms_spec :: "full_spec option"
  ms_wallclock :: "'w option"
  ms_callbacks :: "on_ready list"
  ms_identity :: "node_identity option"
  ms_node_id :: string
  ms_node_id_hash :: string
  ms_override :: string

type_synonym 'w clock_maker = "int \<Rightarrow> u64 \<Rightarrow> u64 \<Rightarrow> 'w option"

definition new_metadata_service :: "string \<Rightarrow> 'w metadata_service" where
  "new_metadata_service override =
     \<lparr>ms_network = Some \<lparr>net_name = NetworkNameNone, net_id = 0, net_deposit_address = [],
                       net_deposit_chain_id = 0\<rparr>,
      ms_genesis = None, ms_spec = None, ms_wallclock = None, ms_callbacks = [],
      ms_identity = None, ms_node_id = [], ms_node_id_hash = [], ms_override = override\<rparr>"

definition get_node_version :: "node_answers \<Rightarrow> string" where
  "get_node_version node = na_version node"

definition get_node_identity :: "'w metadata_service \<Rightarrow> string + node_identity" where
  "get_node_identity m =
     (case ms_identity m of None \<Rightarrow> Inl ''node identity is not available'' | Some i \<Rightarrow> Inr i)"

definition get_node_id :: "'w metadata_service \<Rightarrow> string + string" where
  "get_node_id m =
     (if ms_node_id m = [] then Inl ''node ID is not available'' else Inr (ms_node_id m))"

definition get_node_id_hash :: "'w metadata_service \<Rightarrow> string + string" where
  "get_node_id_hash m =
     (if ms_node_id_hash m = [] then Inl ''node ID hash is not available'' else Inr (ms_node_id_hash m))"

definition get_network :: "'w metadata_service \<Rightarrow> network option" where
  "get_network m = ms_network m"

definition get_client :: "node_answers \<Rightarrow> string" where
  "get_client node = client_from_string (get_node_version node)"

definition metadata_name :: string where
  "metadata_name = ''metadata''"

definition metadata_on_ready :: "on_ready \<Rightarrow> 'w metadata_service \<Rightarrow> 'w metadata_service" where
  "metadata_on_ready cb m = m\<lparr>ms_callbacks := ms_callbacks m @ [cb]\<rparr>"

definition metadata_ready :: "node_answers \<Rightarrow> 'w metadata_service \<Rightarrow> string option" where
  "metadata_ready node m =
     (if ms_genesis m = None then Some ''genesis is not available''
      else if ms_spec m = None then Some ''spec is not available''
      else if get_node_version node = [] then Some ''node version is not available''
      else if ms_wallclock m = None then Some ''wallclock is not available''
      else if ms_identity m = None then Some ''node identity is not available''
      else None)"

section \<open>Refreshing\<close>

definition fetch_spec :: "node_answers \<Rightarrow> ('w metadata_service, string, unit) act" where
  "fetch_spec node m =
     (case na_spec node of Inl e \<Rightarrow> (Inl e, m) | Inr s \<Rightarrow> (Inr (), m\<lparr>ms_spec := Some s\<rparr>))"

definition fetch_genesis :: "node_answers \<Rightarrow> ('w metadata_service, string, unit) act" where
  "fetch_genesis node m =
     (case na_genesis node of Inl e \<Rightarrow> (Inl e, m) | Inr g \<Rightarrow> (Inr (), m\<lparr>ms_genesis := Some g\<rparr>))"

text \<open>\<open>fmt.Sprintf("%x", sha256.Sum256([]byte(nodeID)))[:10]\<close>\<close>

definition obfuscate_id :: "string \<Rightarrow> string" where
  "obfuscate_id node_id = take 10 (hex_of_bytes (sha256 (bytes_of_str node_id)))"

definition derive_node_identity ::
  "node_answers option \<Rightarrow> ('w metadata_service, string, node_identity) act" where
  "derive_node_identity beacon m =
     (case beacon of
        None \<Rightarrow> (Inl ''beacon is not available'', m)
      | Some node \<Rightarrow>
          if \<not> na_healthy node then (Inl ''beacon is not healthy'', m)
          else case na_identity node of
            Inl e \<Rightarrow> (Inl e, m)
          | Inr identity \<Rightarrow>
              let m1 = m\<lparr>ms_identity := Some identity\<rparr>
              in case identity_enode identity of
                   Inl e \<Rightarrow> (Inl e, m1)
                 | Inr node_id \<Rightarrow>
                     (Inr identity, m1\<lparr>ms_node_id := node_id, ms_node_id_hash := obfuscate_id node_id\<rparr>))"

definition set_wallclock :: "'w clock_maker \<Rightarrow> 'w metadata_service \<Rightarrow> 'w metadata_service" where
  "set_wallclock clock m =
     (case (ms_genesis m, ms_spec m, ms_wallclock m) of
        (Some g, Some s, None) \<Rightarrow>
          (case clock (genesis_time g) (spec_seconds_per_slot s) (spec_slots_per_epoch s) of
             Some w \<Rightarrow> m\<lparr>ms_wallclock := Some w\<rparr>
           | None \<Rightarrow> m)
      | _ \<Rightarrow> m)"

text \<open>The errors of the three fetches are logged only.\<close>

definition refresh_all :: "'w clock_maker \<Rightarrow> node_answers \<Rightarrow> ('w metadata_service, string, unit) act" where
  "refresh_all clock node m =
     (let m1 = snd (fetch_spec node m);
          m2 = snd (fetch_genesis node m1);
          m3 = snd (derive_node_identity (Some node) m2)
      in (Inr (), set_wallclock clock m3))"

definition derive_network :: "('w metadata_service, string, unit) act" where
  "derive_network m =
     (case ms_spec m of
        None \<Rightarrow> (Inl ''spec is not available'', m)
      | Some s \<Rightarrow>
          (case derive_from_spec (spec.truncate s) of
             Inl e \<Rightarrow> (Inl e, m)
           | Inr net \<Rightarrow>
               let net' = (if ms_override m \<noteq> [] \<and> net_name net = ''testnet''
                           then \<lparr>net_name = ms_override m, net_id = net_id net,
                                 net_deposit_address = net_deposit_address net,
                                 net_deposit_chain_id = net_deposit_chain_id net\<rparr>
                           else net)
               in (Inr (), m\<lparr>ms_network := Some net'\<rparr>)))"

section \<open>Starting\<close>

text \<open>
  The goroutine of \<open>Start\<close>: the retry helper around \<open>RefreshAll\<close>, then \<open>DeriveNetwork\<close>, whose
  failure is fatal, then the callbacks, in order and whatever \<open>Ready\<close> says.
\<close>

datatype run_end = RunFatal string | RunCallbacks "on_ready list"

definition metadata_run ::
  "(('w metadata_service, string, unit) act \<Rightarrow> ('w metadata_service, string, unit) act)
     \<Rightarrow> 'w clock_maker \<Rightarrow> node_answers \<Rightarrow> 'w metadata_service \<Rightarrow> run_end \<times> 'w metadata_service" where
  "metadata_run retry clock node m =
     (let m1 = snd (retry (refresh_all clock node) m)
      in case derive_network m1 of
           (Inl e, m2) \<Rightarrow> (RunFatal (err_wrap ''Failed to derive network'' e), m2)
         | (Inr _, m2) \<Rightarrow> (RunCallbacks (ms_callbacks m2), m2))"

text \<open>The callback of \<open>startServices\<close> closes the channel only if the node id hash is known.\<close>

definition service_ready_callback :: "'w metadata_service \<Rightarrow> string option" where
  "service_ready_callback m = (case get_node_id_hash m of Inl e \<Rightarrow> Some e | Inr _ \<Rightarrow> None)"

datatype services_end =
    ServicesReady
  | ServicesFailed string
  | ServicesWait
  | ProcessExit string

definition start_services ::
  "(('w metadata_service, string, unit) act \<Rightarrow> ('w metadata_service, string, unit) act)
     \<Rightarrow> 'w clock_maker \<Rightarrow> node_answers \<Rightarrow> string option \<Rightarrow> 'w metadata_service
     \<Rightarrow> services_end \<times> 'w metadata_service" where
  "start_services retry clock node scheduler m =
     (let m1 = metadata_on_ready ServiceReadyCallback m
      in case metadata_run retry clock node m1 of
           (RunFatal e, m2) \<Rightarrow> (ProcessExit e, m2)
         | (RunCallbacks cbs, m2) \<Rightarrow>
             (case scheduler of
                Some e \<Rightarrow> (ServicesFailed (err_wrap ''failed to start service'' e), m2)
              | None \<Rightarrow>
                  if ServiceReadyCallback \<in> set cbs \<and> service_ready_callback m2 = None
                  then (ServicesReady, m2) else (ServicesWait, m2)))"

section \<open>The beacon node\<close>

record beacon_config =
  bc_address :: string
  bc_headers :: "(string \<times> string) list"
  bc_network_override :: string

definition beacon_config_validate :: "beacon_config \<Rightarrow> string option" where
  "beacon_config_validate c = (if bc_address c = [] then Some ''beaconNodeAddress is required'' else None)"

text \<open>The callbacks of \<open>OnReady\<close> are names; \<open>result\<close> says what running one returns.\<close>

record 'w beacon_node =
  bn_config :: beacon_config
  bn_metadata :: "'w metadata_service"
  bn_healthy :: bool
  bn_callbacks :: "string list"

definition new_beacon_node :: "beacon_config \<Rightarrow> 'w beacon_node" where
  "new_beacon_node c =
     \<lparr>bn_config = c, bn_metadata = new_metadata_service (bc_network_override c), bn_healthy = False,
      bn_callbacks = []\<rparr>"

definition beacon_on_ready :: "string \<Rightarrow> 'w beacon_node \<Rightarrow> 'w beacon_node" where
  "beacon_on_ready cb b = b\<lparr>bn_callbacks := bn_callbacks b @ [cb]\<rparr>"

fun run_on_ready :: "(string \<Rightarrow> string option) \<Rightarrow> string list \<Rightarrow> string option \<times> string list" where
  "run_on_ready result [] = (None, [])"
| "run_on_ready result (cb # cbs) =
     (case result cb of
        Some e \<Rightarrow> (Some (err_wrap ''failed to run on ready callback'' e), [cb])
      | None \<Rightarrow> (case run_on_ready result cbs of (r, called) \<Rightarrow> (r, cb # called)))"

text \<open>
  How \<open>Start\<close> ends once the upstream node is healthy, with the callbacks it ran: it returns
  nil or an error, or it waits until its context is cancelled, or the process exits.
\<close>

datatype start_end = StartOk | StartError string | StartWaits | StartExit string

definition beacon_start ::
  "(('w metadata_service, string, unit) act \<Rightarrow> ('w metadata_service, string, unit) act)
     \<Rightarrow> 'w clock_maker \<Rightarrow> node_answers \<Rightarrow> string option \<Rightarrow> (string \<Rightarrow> string option)
     \<Rightarrow> 'w beacon_node \<Rightarrow> start_end \<times> string list \<times> 'w beacon_node" where
  "beacon_start retry clock node scheduler result b =
     (case start_services retry clock node scheduler (bn_metadata b) of
        (r, m) \<Rightarrow>
          (let b1 = b\<lparr>bn_healthy := True, bn_metadata := m\<rparr>
           in case r of
                ServicesReady \<Rightarrow>
                  (case run_on_ready result (bn_callbacks b) of
                     (None, called) \<Rightarrow> (StartOk, called, b1)
                   | (Some e, called) \<Rightarrow> (StartError e, called, b1))
              | ServicesFailed e \<Rightarrow> (StartError e, [], b1)
              | ServicesWait \<Rightarrow> (StartWaits, [], b1)
              | ProcessExit e \<Rightarrow> (StartExit e, [], b1)))"

text \<open>The metadata service has nothing to stop.\<close>

definition metadata_stop :: "('w metadata_service, string, unit) act" where
  "metadata_stop = act_return ()"

definition beacon_stop :: "string option \<Rightarrow> ('w beacon_node, string, unit) act" where
  "beacon_stop upstream b =
     (let m = snd (metadata_stop (bn_metadata b));
          b1 = b\<lparr>bn_healthy := False, bn_metadata := m\<rparr>
      in case upstream of
           Some e \<Rightarrow> (Inl (err_wrap ''failed to stop beacon node'' e), b1)
         | None \<Rightarrow> (Inr (), b1))"

definition beacon_synced :: "bool \<Rightarrow> node_answers \<Rightarrow> 'w beacon_node \<Rightarrow> string option" where
  "beacon_synced has_status node b =
     (if \<not> has_status then Some ''missing beacon status''
      else if ms_wallclock (bn_metadata b) = None then Some ''missing wallclock''
      else case metadata_ready node (bn_metadata b) of
             Some e \<Rightarrow> Some (err_wrap (''service '' @ metadata_name @ '' is not ready'') e)
           | None \<Rightarrow> None)"

section \<open>What a refresh keeps\<close>

text \<open>
  The invariant of the service: a wall clock exists only with the genesis and the spec it was
  made from, and the identifier hash belongs to the identifier.
\<close>

definition metadata_inv :: "'w metadata_service \<Rightarrow> bool" where
  "metadata_inv m \<longleftrightarrow>
     (ms_wallclock m \<noteq> None \<longrightarrow> ms_genesis m \<noteq> None \<and> ms_spec m \<noteq> None)
     \<and> (ms_node_id_hash m \<noteq> [] \<longrightarrow> ms_node_id_hash m = obfuscate_id (ms_node_id m) \<and> ms_identity m \<noteq> None)"

text \<open>Nothing known is forgotten, and the wall clock never changes once it is there.\<close>

definition keeps_known :: "'w metadata_service \<Rightarrow> 'w metadata_service \<Rightarrow> bool" where
  "keeps_known m m' \<longleftrightarrow>
     (ms_spec m \<noteq> None \<longrightarrow> ms_spec m' \<noteq> None) \<and> (ms_genesis m \<noteq> None \<longrightarrow> ms_genesis m' \<noteq> None)
     \<and> (ms_identity m \<noteq> None \<longrightarrow> ms_identity m' \<noteq> None)
     \<and> (ms_node_id_hash m \<noteq> [] \<longrightarrow> ms_node_id_hash m' \<noteq> [])
     \<and> (ms_wallclock m \<noteq> None \<longrightarrow> ms_wallclock m' = ms_wallclock m)
     \<and> ms_network m' = ms_network m \<and> ms_callbacks m' = ms_callbacks m \<and> ms_override m' = ms_override m"

lemma length_obfuscate_id [simp]: "length (obfuscate_id i) = 10"
  by (simp add: obfuscate_id_def)

lemma obfuscate_id_nonempty [simp]: "obfuscate_id i \<noteq> []"
  by (metis length_obfuscate_id length_0_conv zero_neq_numeral)

lemma keeps_known_refl [simp]: "keeps_known m m"
  by (simp add: keeps_known_def)

lemma keeps_known_trans: "keeps_known a b \<Longrightarrow> keeps_known b c \<Longrightarrow> keeps_known a c"
  by (auto simp: keeps_known_def)

lemma fetch_spec_keeps:
  "keeps_known m (snd (fetch_spec node m))" "metadata_inv m \<Longrightarrow> metadata_inv (snd (fetch_spec node m))"
  by (auto simp: fetch_spec_def keeps_known_def metadata_inv_def split: sum.splits)

lemma fetch_genesis_keeps:
  "keeps_known m (snd (fetch_genesis node m))" "metadata_inv m \<Longrightarrow> metadata_inv (snd (fetch_genesis node m))"
  by (auto simp: fetch_genesis_def keeps_known_def metadata_inv_def split: sum.splits)

lemma derive_node_identity_keeps:
  "keeps_known m (snd (derive_node_identity n m))"
  "metadata_inv m \<Longrightarrow> metadata_inv (snd (derive_node_identity n m))"
  by (auto simp: derive_node_identity_def keeps_known_def metadata_inv_def Let_def
      split: sum.splits option.splits)

lemma set_wallclock_keeps:
  "keeps_known m (set_wallclock clock m)" "metadata_inv m \<Longrightarrow> metadata_inv (set_wallclock clock m)"
  by (auto simp: set_wallclock_def keeps_known_def metadata_inv_def split: option.splits)

lemma refresh_all_keeps:
  "keeps_known m (snd (refresh_all clock node m))"
  "metadata_inv m \<Longrightarrow> metadata_inv (snd (refresh_all clock node m))"
proof -
  note steps = fetch_spec_keeps fetch_genesis_keeps derive_node_identity_keeps set_wallclock_keeps
  have "keeps_known m (set_wallclock clock (snd (derive_node_identity (Some node)
          (snd (fetch_genesis node (snd (fetch_spec node m)))))))"
    by (rule keeps_known_trans [OF keeps_known_trans [OF keeps_known_trans [OF steps(1) steps(3)] steps(5)] steps(7)])
  then show "keeps_known m (snd (refresh_all clock node m))" by (simp add: refresh_all_def Let_def)
  assume "metadata_inv m"
  then show "metadata_inv (snd (refresh_all clock node m))"
    unfolding refresh_all_def Let_def snd_conv by (intro steps(2,4,6,8))
qed

lemma derive_network_inv: "metadata_inv m \<Longrightarrow> metadata_inv (snd (derive_network m))"
  by (auto simp: derive_network_def metadata_inv_def Let_def split: option.splits sum.splits)

lemma refresh_never_fails_parts:
  "fst (refresh_all clock node m) = Inr ()"
  "keeps_known m (snd (refresh_all clock node m))"
  "metadata_inv (new_metadata_service ov)"
  "metadata_inv m \<Longrightarrow> metadata_inv (snd (refresh_all clock node m))"
  "metadata_inv m \<Longrightarrow> metadata_inv (snd (derive_network m))"
proof -
  show "fst (refresh_all clock node m) = Inr ()" by (simp add: refresh_all_def)
  show "metadata_inv (new_metadata_service ov)" by (simp add: metadata_inv_def new_metadata_service_def)
qed (fact refresh_all_keeps derive_network_inv)+

text \<open>
  RefreshAll never reports an error and never forgets: a failed fetch leaves the value of
  an earlier one, the wall clock is set once, and the service keeps its invariant, the identifier
  hash included.
\<close>

theorem refresh_never_fails:
  "fst (refresh_all clock node m) = Inr () \<and> keeps_known m (snd (refresh_all clock node m))
   \<and> metadata_inv (new_metadata_service ov)
   \<and> (metadata_inv m \<longrightarrow> metadata_inv (snd (refresh_all clock node m)) \<and> metadata_inv (snd (derive_network m)))"
  by (intro conjI impI refresh_never_fails_parts)


text \<open>
  After DeriveNetwork a known network name stands for the deposit contract and the chain id of
  that network, unless the operator overrode the name of a chain whose CONFIG_NAME is testnet: the
  override is not checked, so it can give a testnet a known name.
\<close>

theorem derived_network_safe:
  assumes "derive_network m = (Inr (), m')" "ms_spec m = Some s" "ms_network m' = Some net"
    and "known_name (net_name net)"
  shows "(net \<in> set known_networks \<and> equal_fold (net_deposit_address net) (spec_deposit_address s)
            \<and> net_deposit_chain_id net = spec_deposit_chain_id s)
         \<or> (net_name net = ms_override m \<and> spec_config_name s = ''testnet''
              \<and> net_deposit_chain_id net = spec_deposit_chain_id s)"
proof -
  let ?sp = "spec.truncate s"
  from assms obtain n where n: "derive_from_spec ?sp = Inr n"
    and net: "net = n \<or> (ms_override m \<noteq> [] \<and> net_name n = ''testnet'' \<and> net_name net = ms_override m
                \<and> net_deposit_chain_id net = net_deposit_chain_id n)"
    by (auto simp: derive_network_def Let_def split: sum.splits if_splits)
  from net show ?thesis
  proof (elim disjE conjE)
    assume "net = n"
    with n assms(4) derive_from_spec_known_iff [of ?sp net] show ?thesis by (simp add: spec.truncate_def)
  next
    assume o: "net_name n = ''testnet''" "net_name net = ms_override m"
      "net_deposit_chain_id net = net_deposit_chain_id n"
    have "\<not> known_name ''testnet''" by (simp add: known_name_def known_networks_def network_name_defs)
    with o(1) have "\<not> known_name (net_name n)" by simp
    with n have "net_name n = spec_config_name ?sp \<and> net_deposit_chain_id n = spec_deposit_chain_id ?sp"
      by (auto dest: derive_from_spec_other)
    with o show ?thesis by (simp add: spec.truncate_def)
  qed
qed

definition demo_clock :: "nat clock_maker" where
  "demo_clock t s e = Some (unat s)"

definition demo_answers_ok :: node_answers where
  "demo_answers_ok = \<lparr>na_version = ''teku/v1.0'', na_healthy = True,
     na_spec = Inr \<lparr>spec_deposit_address = ''0x01'', spec_deposit_chain_id = 99, spec_config_name = ''testnet'',
                    spec_seconds_per_slot = 12, spec_slots_per_epoch = 32\<rparr>,
     na_genesis = Inr \<lparr>genesis_time = 5, genesis_validators_root = []\<rparr>,
     na_identity = Inr \<lparr>identity_peer = ''p'', identity_enode = Inr ''ab''\<rparr>\<rparr>"

lemma refresh_never_fails_witness:
  "metadata_inv (snd (derive_network (snd (refresh_all demo_clock demo_answers_ok
     (new_metadata_service ''hoodi'')))))"
  using refresh_never_fails [of demo_clock demo_answers_ok "new_metadata_service ''hoodi''" "''hoodi''"]
    refresh_never_fails [of demo_clock demo_answers_ok
      "snd (refresh_all demo_clock demo_answers_ok (new_metadata_service ''hoodi''))" "''hoodi''"]
  by blast

definition demo_service :: "nat metadata_service" where
  "demo_service = (new_metadata_service ''hoodi'')\<lparr>ms_spec :=
     Some \<lparr>spec_deposit_address = ''0x01'', spec_deposit_chain_id = 99, spec_config_name = ''testnet'',
           spec_seconds_per_slot = 12, spec_slots_per_epoch = 32\<rparr>\<rparr>"

lemma derived_network_safe_witness:
  "\<exists>m' net. derive_network demo_service = (Inr (), m') \<and> ms_network m' = Some net
     \<and> net_name net = ''hoodi'' \<and> net \<notin> set known_networks \<and> ms_override demo_service = ''hoodi''"
proof -
  let ?s = "\<lparr>spec_deposit_address = ''0x01'', spec_deposit_chain_id = 99, spec_config_name = ''testnet'',
             spec_seconds_per_slot = 12, spec_slots_per_epoch = 32\<rparr> :: full_spec"
  obtain m' net where d: "derive_network demo_service = (Inr (), m')" "ms_network m' = Some net"
    "net_name net = ''hoodi''" "net_deposit_chain_id net = 99"
  proof -
    have "let (r, m') = derive_network demo_service in r = Inr () \<and> (case ms_network m' of
        Some net \<Rightarrow> net_name net = ''hoodi'' \<and> net_deposit_chain_id net = 99 | None \<Rightarrow> False)"
      by code_simp
    then show thesis by (auto simp: Let_def split: prod.splits option.splits intro: that)
  qed
  have "ms_spec demo_service = Some ?s" by (simp add: demo_service_def)
  moreover have "known_name ''hoodi''" by (simp add: known_name_def known_networks_def network_name_defs)
  ultimately have "(net \<in> set known_networks \<and> equal_fold (net_deposit_address net) (spec_deposit_address ?s)
            \<and> net_deposit_chain_id net = spec_deposit_chain_id ?s)
         \<or> (net_name net = ms_override demo_service \<and> spec_config_name ?s = ''testnet''
              \<and> net_deposit_chain_id net = spec_deposit_chain_id ?s)"
    using d by (intro derived_network_safe [of demo_service m' ?s net]) simp_all
  moreover have "\<forall>k \<in> set known_networks. net_deposit_chain_id k \<noteq> 99" by code_simp
  then have "net \<notin> set known_networks" using d(4) by blast
  ultimately have "ms_override demo_service = ''hoodi''" using d(3) by metis
  with d \<open>net \<notin> set known_networks\<close> show ?thesis by blast
qed

section \<open>How starting ends\<close>

definition identity_known :: "node_answers \<Rightarrow> bool" where
  "identity_known node =
     (na_healthy node \<and> (case na_identity node of Inl _ \<Rightarrow> False | Inr i \<Rightarrow> is_ok (identity_enode i)))"

definition first_success :: "(('s, string, unit) act \<Rightarrow> ('s, string, unit) act) \<Rightarrow> bool" where
  "first_success retry = (\<forall>op s t. op s = (Inr (), t) \<longrightarrow> retry op s = (Inr (), t))"

lemma refresh_once:
  assumes "first_success retry"
  shows "retry (refresh_all clock node) m = refresh_all clock node m"
proof -
  have "refresh_all clock node m = (Inr (), snd (refresh_all clock node m))" by (simp add: refresh_all_def Let_def)
  with assms show ?thesis unfolding first_success_def by metis
qed

lemma refreshed_spec:
  "ms_spec (snd (refresh_all clock node m)) = (case na_spec node of Inl _ \<Rightarrow> ms_spec m | Inr s \<Rightarrow> Some s)"
  by (simp add: refresh_all_def Let_def fetch_spec_def fetch_genesis_def derive_node_identity_def set_wallclock_def
      split: sum.split option.split)

lemma refreshed_hash:
  "ms_node_id_hash m = [] \<Longrightarrow>
     (ms_node_id_hash (snd (refresh_all clock node m)) \<noteq> []) = identity_known node"
  by (simp add: refresh_all_def Let_def fetch_spec_def fetch_genesis_def derive_node_identity_def set_wallclock_def
      identity_known_def split: sum.split option.split)

lemma derive_network_parts:
  "ms_node_id_hash (snd (derive_network m)) = ms_node_id_hash m"
  "ms_callbacks (snd (derive_network m)) = ms_callbacks m"
  by (simp_all add: derive_network_def Let_def split: option.split sum.split)

definition fresh_start :: "node_answers \<Rightarrow> services_end" where
  "fresh_start node =
     (case na_spec node of
        Inl _ \<Rightarrow> ProcessExit ''Failed to derive network: spec is not available''
      | Inr s \<Rightarrow>
          (case derive_from_spec (spec.truncate s) of
             Inl e \<Rightarrow> ProcessExit (err_wrap ''Failed to derive network'' e)
           | Inr _ \<Rightarrow> if identity_known node then ServicesReady else ServicesWait))"

lemma start_services_fresh:
  assumes "first_success retry" "ms_spec m = None" "ms_node_id_hash m = []"
  shows "fst (start_services retry clock node None m) = fresh_start node"
proof -
  let ?m1 = "metadata_on_ready ServiceReadyCallback m"
  let ?m2 = "snd (refresh_all clock node ?m1)"
  have spec: "ms_spec ?m2 = (case na_spec node of Inl _ \<Rightarrow> None | Inr s \<Rightarrow> Some s)"
    using assms(2) by (simp add: refreshed_spec metadata_on_ready_def split: sum.split)
  have hash: "(ms_node_id_hash ?m2 \<noteq> []) = identity_known node"
    using assms(3) by (intro refreshed_hash) (simp add: metadata_on_ready_def)
  have cbs: "ServiceReadyCallback \<in> set (ms_callbacks ?m2)"
    using refresh_all_keeps(1) [of ?m1 clock node] by (simp add: keeps_known_def metadata_on_ready_def)
  have run: "metadata_run retry clock node ?m1 =
      (case derive_network ?m2 of
         (Inl e, m2) \<Rightarrow> (RunFatal (err_wrap ''Failed to derive network'' e), m2)
       | (Inr _, m2) \<Rightarrow> (RunCallbacks (ms_callbacks m2), m2))"
    using refresh_once [OF assms(1)] by (simp add: metadata_run_def Let_def)
  have ready: "service_ready_callback (snd (derive_network ?m2)) = None \<longleftrightarrow> identity_known node"
    using hash by (auto simp: service_ready_callback_def get_node_id_hash_def derive_network_parts(1))
  show ?thesis
  proof (cases "na_spec node")
    case (Inl e)
    then have "derive_network ?m2 = (Inl ''spec is not available'', ?m2)"
      using spec by (simp add: derive_network_def)
    with Inl run show ?thesis by (simp add: start_services_def Let_def fresh_start_def err_wrap_def)
  next
    case s: (Inr s)
    show ?thesis
    proof (cases "derive_from_spec (spec.truncate s)")
      case (Inl e)
      then have "derive_network ?m2 = (Inl e, ?m2)" using spec s by (simp add: derive_network_def)
      with s Inl run show ?thesis by (simp add: start_services_def Let_def fresh_start_def)
    next
      case (Inr net)
      obtain m3 where m3: "derive_network ?m2 = (Inr (), m3)"
        using spec s Inr by (simp add: derive_network_def Let_def)
      then have "ms_callbacks m3 = ms_callbacks ?m2" "snd (derive_network ?m2) = m3"
        using derive_network_parts(2) [of ?m2] by simp_all
      with s Inr run m3 cbs ready show ?thesis by (simp add: start_services_def Let_def fresh_start_def)
    qed
  qed
qed

lemma beacon_start_first_refresh_parts:
  assumes "first_success retry" "ms_spec (bn_metadata b) = None" "ms_node_id_hash (bn_metadata b) = []"
  shows "fst (beacon_start retry clock node None result b) =
    (case fresh_start node of
       ServicesReady \<Rightarrow>
         (case fst (run_on_ready result (bn_callbacks b)) of None \<Rightarrow> StartOk | Some e \<Rightarrow> StartError e)
     | ServicesFailed e \<Rightarrow> StartError e
     | ServicesWait \<Rightarrow> StartWaits
     | ProcessExit e \<Rightarrow> StartExit e)"
    and "na_spec node = Inl err \<Longrightarrow>
      fst (beacon_start retry clock node None result b)
        = StartExit ''Failed to derive network: spec is not available''"
    and "na_spec node = Inr s \<Longrightarrow> derive_from_spec (spec.truncate s) = Inr net \<Longrightarrow> \<not> identity_known node \<Longrightarrow>
      fst (beacon_start retry clock node None result b) = StartWaits"
proof -
  obtain r m where rm: "start_services retry clock node None (bn_metadata b) = (r, m)" by fastforce
  with start_services_fresh [OF assms, of clock node] have r: "r = fresh_start node" by simp
  show start: "fst (beacon_start retry clock node None result b) =
    (case fresh_start node of
       ServicesReady \<Rightarrow>
         (case fst (run_on_ready result (bn_callbacks b)) of None \<Rightarrow> StartOk | Some e \<Rightarrow> StartError e)
     | ServicesFailed e \<Rightarrow> StartError e
     | ServicesWait \<Rightarrow> StartWaits
     | ProcessExit e \<Rightarrow> StartExit e)"
    using rm r by (simp add: beacon_start_def Let_def split: services_end.split prod.split option.split)
  show "na_spec node = Inl err \<Longrightarrow>
      fst (beacon_start retry clock node None result b)
        = StartExit ''Failed to derive network: spec is not available''"
    using start by (simp add: fresh_start_def)
  show "na_spec node = Inr s \<Longrightarrow> derive_from_spec (spec.truncate s) = Inr net \<Longrightarrow> \<not> identity_known node \<Longrightarrow>
      fst (beacon_start retry clock node None result b) = StartWaits"
    using start by (simp add: fresh_start_def)
qed

text \<open>
  C18: How starting a beacon node ends turns on the first refresh: it succeeds exactly if the first refresh
  got a spec with a derivable network and the identity of the node. Without a spec the process
  exits, and without the identity, whose failure is only logged, Start waits until its context is
  cancelled, because the readiness callback runs once and later refreshes do not run it again.
\<close>

theorem beacon_start_first_refresh:
  assumes "first_success retry" "ms_spec (bn_metadata b) = None" "ms_node_id_hash (bn_metadata b) = []"
  shows "fst (beacon_start retry clock node None result b) =
    (case fresh_start node of
       ServicesReady \<Rightarrow>
         (case fst (run_on_ready result (bn_callbacks b)) of None \<Rightarrow> StartOk | Some e \<Rightarrow> StartError e)
     | ServicesFailed e \<Rightarrow> StartError e
     | ServicesWait \<Rightarrow> StartWaits
     | ProcessExit e \<Rightarrow> StartExit e)
    \<and> (na_spec node = Inl err \<longrightarrow>
      fst (beacon_start retry clock node None result b)
        = StartExit ''Failed to derive network: spec is not available'')
    \<and> (na_spec node = Inr s \<and> derive_from_spec (spec.truncate s) = Inr net \<and> \<not> identity_known node \<longrightarrow>
      fst (beacon_start retry clock node None result b) = StartWaits)"
  using beacon_start_first_refresh_parts [OF assms] by blast


lemma beacon_start_first_refresh_witness:
  "fst (beacon_start (\<lambda>op. op) demo_clock (demo_answers_ok\<lparr>na_identity := Inl ''503''\<rparr>) None (\<lambda>_. None)
     (new_beacon_node \<lparr>bc_address = ''http://node'', bc_headers = [], bc_network_override = []\<rparr>)) = StartWaits"
proof -
  let ?s = "\<lparr>spec_deposit_address = ''0x01'', spec_deposit_chain_id = 99, spec_config_name = ''testnet'',
             spec_seconds_per_slot = 12, spec_slots_per_epoch = 32\<rparr> :: full_spec"
  have "na_spec (demo_answers_ok\<lparr>na_identity := Inl ''503''\<rparr>) = Inr ?s" by (simp add: demo_answers_ok_def)
  moreover have "derive_from_spec (spec.truncate ?s)
     = Inr \<lparr>net_name = ''testnet'', net_id = 99, net_deposit_address = ''0x01'', net_deposit_chain_id = 99\<rparr>"
    unfolding spec.truncate_def by code_simp
  moreover have "\<not> identity_known (demo_answers_ok\<lparr>na_identity := Inl ''503''\<rparr>)"
    by (simp add: identity_known_def)
  ultimately show ?thesis
    by (intro beacon_start_first_refresh [THEN conjunct2, THEN conjunct2, THEN mp] conjI)
       (simp_all add: first_success_def new_beacon_node_def new_metadata_service_def)
qed

end
