(* ===== verification/ForkDigests.thy ===== *)
theory ForkDigests
  imports EthMessages Hashes
begin

text \<open>
  Fork digests: \<open>ComputeForkDigest\<close> (\<open>pkg/ethereum/fork.go\<close>) and the two methods of
  \<open>BeaconNode\<close> that feed it, \<open>GetCurrentBlobSchedule\<close> and \<open>ForkDigest\<close>
  (\<open>pkg/ethereum/beacon.go\<close>). SHA-256 is the function of \<open>Hashes\<close>; the tree hash of
  \<open>phase0.ForkData\<close>, which another module defines, is the parameter \<open>data_root\<close> of a fork
  version and a genesis validators root, assumed to return 32 bytes. What the beacon library answers
  (spec, wall clock, current fork, blobs per block) is a record of results.
\<close>

section \<open>ComputeForkDigest\<close>

record blob_schedule_entry =
  bs_epoch :: u64
  bs_max_blobs :: u64

type_synonym data_root = "bytes \<Rightarrow> bytes \<Rightarrow> bytes"

text \<open>\<open>for i := range 8 { b[i] = byte((x >> (8 * i)) & 0xff) }\<close>\<close>

definition shift_bytes :: "u64 \<Rightarrow> bytes" where
  "shift_bytes x = map (\<lambda>i. ucast (drop_bit (8 * i) x AND 0xff)) [0..<8]"

definition blob_param_hash :: "blob_schedule_entry \<Rightarrow> bytes" where
  "blob_param_hash b = sha256 (shift_bytes (bs_epoch b) @ shift_bytes (bs_max_blobs b))"

definition compute_fork_digest ::
  "data_root \<Rightarrow> bytes \<Rightarrow> bytes \<Rightarrow> blob_schedule_entry option \<Rightarrow> bytes" where
  "compute_fork_digest data_root genesis_root version blob_params =
     (let root = data_root version genesis_root
      in case blob_params of
           Some b \<Rightarrow> map (\<lambda>i. root ! i XOR blob_param_hash b ! i) [0..<4]
         | None \<Rightarrow> take 4 root)"

text \<open>The byte loops write the little-endian encoding that SSZ uses for a \<open>uint64\<close>.\<close>

lemma le_digits_drop: "le_digits n (drop_bit (8 * k) x) = map (\<lambda>i. ucast (drop_bit (8 * i) x)) [k..<k + n]"
proof (induction n arbitrary: k)
  case 0
  then show ?case by simp
next
  case (Suc n)
  have "drop_bit 8 (drop_bit (8 * k) x) = drop_bit (8 * Suc k) x" by simp
  with Suc [of "Suc k"] show ?case by (simp add: upt_rec [of k])
qed

lemma ucast_mask8: "(ucast (x AND 0xff :: u64) :: u8) = ucast x"
proof -
  have "(ucast (x AND 0xff :: u64) :: u8) = ucast (take_bit 8 x)"
    by (simp add: take_bit_eq_mask mask_numeral)
  also have "\<dots> = ucast x"
    by (rule bit_word_eqI) (simp add: bit_simps)
  finally show ?thesis .
qed

lemma shift_bytes_le: "shift_bytes x = le_bytes x"
  using le_digits_drop [of 8 0 x] by (simp add: shift_bytes_def le_bytes_def ucast_mask8)

lemma blob_input_inj:
  "shift_bytes e @ shift_bytes m = shift_bytes e' @ shift_bytes m' \<longleftrightarrow> e = e' \<and> m = m'"
proof
  assume "shift_bytes e @ shift_bytes m = shift_bytes e' @ shift_bytes m'"
  then have "le_bytes e = le_bytes e'" "le_bytes m = le_bytes m'" by (simp_all add: shift_bytes_le)
  then show "e = e' \<and> m = m'" by (metis of_le_bytes_le_bytes)
qed simp

lemma take_nth: "n \<le> length xs \<Longrightarrow> take n xs = map (\<lambda>i. xs ! i) [0..<n]"
  by (rule nth_equalityI) simp_all

lemma xor_pad_eq_iff:
  "map (\<lambda>i. xs ! i XOR (h ! i :: u8)) [0..<n] = map (\<lambda>i. ys ! i XOR h ! i) [0..<n]
     \<longleftrightarrow> map (\<lambda>i. xs ! i) [0..<n] = map (\<lambda>i. ys ! i) [0..<n]"
proof -
  have "a XOR c = b XOR c \<longleftrightarrow> a = b" for a b c :: u8
    by (metis xor.assoc xor_self_eq xor.right_neutral)
  then show ?thesis by simp
qed

lemma fork_digest_mask_parts:
  assumes "\<And>v g. length (data_root v g) = 32"
  shows "length (compute_fork_digest data_root g v b) = 4"
    and "compute_fork_digest data_root g v (Some p) = compute_fork_digest data_root g' v' (Some p)
           \<longleftrightarrow> compute_fork_digest data_root g v None = compute_fork_digest data_root g' v' None"
    and "map2 (XOR) (compute_fork_digest data_root g v (Some p))
           (take 4 (sha256 (le_bytes (bs_epoch p) @ le_bytes (bs_max_blobs p))))
         = compute_fork_digest data_root g v None"
    and "le_bytes (bs_epoch p) @ le_bytes (bs_max_blobs p) = le_bytes (bs_epoch q) @ le_bytes (bs_max_blobs q)
           \<longleftrightarrow> bs_epoch p = bs_epoch q \<and> bs_max_blobs p = bs_max_blobs q"
proof -
  have four: "take 4 (data_root v g) = map (\<lambda>i. data_root v g ! i) [0..<4]" for v g
    by (rule take_nth) (simp add: assms)
  show "length (compute_fork_digest data_root g v b) = 4"
    by (cases b) (simp_all add: compute_fork_digest_def Let_def assms)
  show "compute_fork_digest data_root g v (Some p) = compute_fork_digest data_root g' v' (Some p)
           \<longleftrightarrow> compute_fork_digest data_root g v None = compute_fork_digest data_root g' v' None"
    by (simp only: compute_fork_digest_def Let_def option.case xor_pad_eq_iff four)
  show "map2 (XOR) (compute_fork_digest data_root g v (Some p))
           (take 4 (sha256 (le_bytes (bs_epoch p) @ le_bytes (bs_max_blobs p))))
         = compute_fork_digest data_root g v None"
    by (rule nth_equalityI)
       (simp_all add: compute_fork_digest_def Let_def blob_param_hash_def shift_bytes_le assms xor.assoc)
  show "le_bytes (bs_epoch p) @ le_bytes (bs_max_blobs p) = le_bytes (bs_epoch q) @ le_bytes (bs_max_blobs q)
           \<longleftrightarrow> bs_epoch p = bs_epoch q \<and> bs_max_blobs p = bs_max_blobs q"
    using blob_input_inj by (simp add: shift_bytes_le)
qed

text \<open>
  C28: A fork digest has four bytes. Blob parameters mask the digest of the fork itself with
  the first four bytes of the SHA-256 of their little-endian encoding, which is injective: under
  the same parameters two forks have the same digest exactly if they had it without, and
  applying the mask again gives the digest of the fork back.
\<close>

theorem fork_digest_mask:
  assumes "\<And>v g. length (data_root v g) = 32"
  shows "length (compute_fork_digest data_root g v b) = 4
    \<and> (compute_fork_digest data_root g v (Some p) = compute_fork_digest data_root g' v' (Some p)
         \<longleftrightarrow> compute_fork_digest data_root g v None = compute_fork_digest data_root g' v' None)
    \<and> map2 (XOR) (compute_fork_digest data_root g v (Some p))
         (take 4 (sha256 (le_bytes (bs_epoch p) @ le_bytes (bs_max_blobs p))))
       = compute_fork_digest data_root g v None
    \<and> (le_bytes (bs_epoch p) @ le_bytes (bs_max_blobs p) = le_bytes (bs_epoch q) @ le_bytes (bs_max_blobs q)
         \<longleftrightarrow> bs_epoch p = bs_epoch q \<and> bs_max_blobs p = bs_max_blobs q)"
  using fork_digest_mask_parts [of data_root, OF assms] by blast


text \<open>A tree hash with the right lengths, for the witnesses: the first 32 bytes of the padded data.\<close>

definition demo_root :: data_root where
  "demo_root v g = take 32 (v @ g @ replicate 32 0)"

lemma length_demo_root: "length (demo_root v g) = 32"
  by (simp add: demo_root_def)

lemma fork_digest_mask_witness:
  "compute_fork_digest demo_root [] [1, 2, 3, 4] (Some \<lparr>bs_epoch = 5, bs_max_blobs = 6\<rparr>)
     \<noteq> compute_fork_digest demo_root [] [1, 2, 3, 5] (Some \<lparr>bs_epoch = 5, bs_max_blobs = 6\<rparr>)"
  by (subst fork_digest_mask [of demo_root, OF length_demo_root, THEN conjunct2, THEN conjunct1])
     (simp add: compute_fork_digest_def demo_root_def)

section \<open>The digest of the current fork\<close>

record fork_info =
  fork_name :: nat
  fork_version :: string

text \<open>
  What the beacon library answers: the spec (or its error), the number of the current epoch, the
  fork at an epoch, the blob limit at an epoch, and the blob schedule of the spec.
\<close>

record beacon_view =
  bv_genesis_root :: "bytes option"
  bv_spec_error :: "string option"
  bv_now :: "string + u64"
  bv_current_fork :: "u64 \<Rightarrow> string + fork_info"
  bv_max_blobs :: "u64 \<Rightarrow> u64"
  bv_blob_schedule :: "u64 list"

definition schedule_epoch :: "u64 \<Rightarrow> u64 list \<Rightarrow> u64" where
  "schedule_epoch current entries =
     foldl (\<lambda>acc e. if e \<le> current then if e > acc then e else acc else acc) 0 entries"

definition get_current_blob_schedule :: "beacon_view \<Rightarrow> string + blob_schedule_entry" where
  "get_current_blob_schedule v =
     (case bv_spec_error v of
        Some e \<Rightarrow> Inl (err_wrap ''failed to get spec'' e)
      | None \<Rightarrow>
          (case bv_now v of
             Inl e \<Rightarrow> Inl (err_wrap ''failed to get wallclock'' e)
           | Inr current \<Rightarrow>
               Inr \<lparr>bs_epoch = schedule_epoch current (bv_blob_schedule v),
                    bs_max_blobs = bv_max_blobs v current\<rparr>))"

text \<open>\<open>copy(dst[:], src)\<close> into a zeroed array of \<open>n\<close> bytes\<close>

definition copy_array :: "nat \<Rightarrow> bytes \<Rightarrow> bytes" where
  "copy_array n src = take n src @ replicate (n - length src) 0"

definition fork_version_bytes :: "string \<Rightarrow> string + bytes" where
  "fork_version_bytes version =
     (if length version \<ge> 2 \<and> take 2 version = ''0x'' then
        (case hex_decode (drop 2 version) of
           Inl e \<Rightarrow> Inl (err_wrap ''failed to decode fork version'' e)
         | Inr decoded \<Rightarrow> Inr (copy_array 4 decoded))
      else Inr (copy_array 4 (bytes_of_str version)))"

definition current_fork_digest :: "data_root \<Rightarrow> nat \<Rightarrow> beacon_view \<Rightarrow> string + bytes" where
  "current_fork_digest data_root fulu v =
     (case bv_genesis_root v of
        None \<Rightarrow> Inl ''missing genesis''
      | Some genesis_root \<Rightarrow>
          (case bv_spec_error v of
             Some e \<Rightarrow> Inl (err_wrap ''failed to get spec'' e)
           | None \<Rightarrow>
               (case bv_now v of
                  Inl e \<Rightarrow> Inl (err_wrap ''failed to get wallclock'' e)
                | Inr epoch \<Rightarrow>
                    (case bv_current_fork v epoch of
                       Inl e \<Rightarrow> Inl (err_wrap ''failed to get current fork'' e)
                     | Inr current \<Rightarrow>
                         (case fork_version_bytes (fork_version current) of
                            Inl e \<Rightarrow> Inl e
                          | Inr version \<Rightarrow>
                              if fork_name current \<ge> fulu then
                                (case get_current_blob_schedule v of
                                   Inl e \<Rightarrow> Inl (err_wrap ''failed to get blob schedule entry'' e)
                                 | Inr b \<Rightarrow> Inr (compute_fork_digest data_root genesis_root version (Some b)))
                              else Inr (compute_fork_digest data_root genesis_root version None))))))"

lemma length_copy_array [simp]: "length (copy_array n src) = n"
  by (simp add: copy_array_def)

lemma Max_insert_max: "finite S \<Longrightarrow> Max (insert (max a e) S) = Max (insert a (insert e S))"
  by (cases "S = {}") (simp_all add: max.assoc)

lemma foldl_max_below:
  "foldl (\<lambda>acc e. if e \<le> current then if e > acc then e else acc else acc) a es
     = Max (insert a {e \<in> set es. e \<le> (current :: u64)})"
proof (induction es arbitrary: a)
  case Nil
  then show ?case by simp
next
  case (Cons e es)
  let ?S = "{e \<in> set es. e \<le> current}"
  have mx: "Max (insert (max a e) ?S) = Max (insert a (insert e ?S))"
    by (rule Max_insert_max) simp
  show ?case
  proof (cases "e \<le> current")
    case True
    have ins: "{x \<in> set (e # es). x \<le> current} = insert e ?S" using True by auto
    have "(if e > a then e else a) = max a e" unfolding max_def by (auto dest: less_imp_le)
    then have "foldl (\<lambda>acc e. if e \<le> current then if e > acc then e else acc else acc) a (e # es)
        = Max (insert (max a e) ?S)"
      using True Cons [of "max a e"] by simp
    with mx ins show ?thesis by simp
  next
    case False
    then have "{x \<in> set (e # es). x \<le> current} = ?S" by auto
    with False Cons [of a] show ?thesis by simp
  qed
qed

text \<open>
  GetCurrentBlobSchedule picks the latest epoch of the schedule that is not after the
  current one, or 0 if there is none, whatever the order of the entries.
\<close>

theorem blob_schedule_latest:
  assumes "bv_spec_error v = None" "bv_now v = Inr current"
  shows "get_current_blob_schedule v
     = Inr \<lparr>bs_epoch = Max (insert 0 {e \<in> set (bv_blob_schedule v). e \<le> current}),
            bs_max_blobs = bv_max_blobs v current\<rparr>"
  using assms by (simp add: get_current_blob_schedule_def schedule_epoch_def foldl_max_below)

definition demo_view :: beacon_view where
  "demo_view = \<lparr>bv_genesis_root = Some (replicate 32 0), bv_spec_error = None, bv_now = Inr 7,
     bv_current_fork = (\<lambda>_. Inr \<lparr>fork_name = 6, fork_version = ''0x60000038''\<rparr>),
     bv_max_blobs = (\<lambda>_. 9), bv_blob_schedule = [9, 6, 2]\<rparr>"

lemma blob_schedule_latest_witness:
  "get_current_blob_schedule demo_view = Inr \<lparr>bs_epoch = 6, bs_max_blobs = 9\<rparr>"
proof -
  have "{e \<in> set (bv_blob_schedule demo_view). e \<le> 7} = {6, 2}" by (auto simp: demo_view_def)
  then show ?thesis
    using blob_schedule_latest [of demo_view 7] by (simp add: demo_view_def)
qed

lemma current_fork_digest_value_parts:
  assumes "bv_genesis_root v = Some g" "bv_spec_error v = None" "bv_now v = Inr epoch"
    and "bv_current_fork v epoch = Inr fork" "length ver = 4"
  shows "fork_version fork = ''0x'' @ hex_of_bytes ver \<Longrightarrow>
     current_fork_digest data_root fulu v
       = Inr (compute_fork_digest data_root g ver
           (if fulu \<le> fork_name fork
            then Some \<lparr>bs_epoch = schedule_epoch epoch (bv_blob_schedule v), bs_max_blobs = bv_max_blobs v epoch\<rparr>
            else None))"
    and "fork_version fork = hex_of_bytes ver \<Longrightarrow> fork_name fork < fulu \<Longrightarrow>
     current_fork_digest data_root fulu v
       = Inr (compute_fork_digest data_root g (bytes_of_str (hex_of_bytes (take 2 ver))) None)"
proof -
  have hex: "hex_decode (drop 2 (''0x'' @ hex_of_bytes ver)) = Inr ver" by simp
  have copy: "copy_array 4 ver = ver" using assms(5) by (simp add: copy_array_def)
  show "fork_version fork = ''0x'' @ hex_of_bytes ver \<Longrightarrow>
     current_fork_digest data_root fulu v
       = Inr (compute_fork_digest data_root g ver
           (if fulu \<le> fork_name fork
            then Some \<lparr>bs_epoch = schedule_epoch epoch (bv_blob_schedule v), bs_max_blobs = bv_max_blobs v epoch\<rparr>
            else None))"
    using assms(1-4) copy
    by (simp add: current_fork_digest_def fork_version_bytes_def get_current_blob_schedule_def)
  assume raw: "fork_version fork = hex_of_bytes ver" and old: "fork_name fork < fulu"
  have "CHR ''x'' \<notin> set (hex_of_bytes ver)" by (rule hex_of_bytes_no_char) (simp add: hex_val_def)
  then have "take 2 (hex_of_bytes ver) \<noteq> ''0x''"
    by (metis in_set_takeD list.set_intros(1) list.set_intros(2))
  then have "fork_version_bytes (hex_of_bytes ver) = Inr (copy_array 4 (bytes_of_str (hex_of_bytes ver)))"
    by (simp add: fork_version_bytes_def)
  also have "copy_array 4 (bytes_of_str (hex_of_bytes ver)) = bytes_of_str (take 4 (hex_of_bytes ver))"
    using assms(5) by (simp add: copy_array_def bytes_of_str_def take_map)
  also have "take 4 (hex_of_bytes ver) = hex_of_bytes (take 2 ver)"
    using assms(5) by (cases ver; cases "tl ver") (auto simp: hex_of_bytes_def hex_of_byte_def)
  finally show "current_fork_digest data_root fulu v
       = Inr (compute_fork_digest data_root g (bytes_of_str (hex_of_bytes (take 2 ver))) None)"
    using assms(1-4) raw old by (simp add: current_fork_digest_def)
qed

text \<open>
  ForkDigest of a node that knows its genesis, spec, clock and fork returns four bytes:
  the digest of the fork version written as 0x and eight hexadecimal digits, masked from Fulu on.
  A version without the 0x is taken as text: its first four characters are hashed, not the bytes
  they spell.
\<close>

theorem current_fork_digest_value:
  assumes "bv_genesis_root v = Some g" "bv_spec_error v = None" "bv_now v = Inr epoch"
    and "bv_current_fork v epoch = Inr fork" "length ver = 4"
  shows "(fork_version fork = ''0x'' @ hex_of_bytes ver \<longrightarrow>
     current_fork_digest data_root fulu v
       = Inr (compute_fork_digest data_root g ver
           (if fulu \<le> fork_name fork
            then Some \<lparr>bs_epoch = schedule_epoch epoch (bv_blob_schedule v), bs_max_blobs = bv_max_blobs v epoch\<rparr>
            else None)))
    \<and> (fork_version fork = hex_of_bytes ver \<and> fork_name fork < fulu \<longrightarrow>
     current_fork_digest data_root fulu v
       = Inr (compute_fork_digest data_root g (bytes_of_str (hex_of_bytes (take 2 ver))) None))"
  using current_fork_digest_value_parts [OF assms] by blast


lemma current_fork_digest_value_witness:
  "current_fork_digest demo_root 7 demo_view
     = Inr (compute_fork_digest demo_root (replicate 32 0) [0x60, 0, 0, 0x38] None)"
proof -
  have "''0x60000038'' = ''0x'' @ hex_of_bytes [0x60, 0, 0, 0x38]" by code_simp
  then show ?thesis
    using current_fork_digest_value [of demo_view "replicate 32 0" 7
      "\<lparr>fork_name = 6, fork_version = ''0x60000038''\<rparr>" "[0x60, 0, 0, 0x38]" demo_root 7]
    by (simp add: demo_view_def)
qed

end
