(* ===== verification/Serialize.thy ===== *)
theory Serialize
  imports GoStrings
begin

text \<open>
  Printing and parsing of roots, slots and byte strings
  (\<open>pkg/ethereum/serialize/serialization.go\<close>). \<open>fmt\<close> prints \<open>%#x\<close> of bytes as 0x and two digits
  per byte, and an empty slice as nothing at all. \<open>StringToRoot\<close> is modelled by its value when it
  returns no error (with an error Go also hands back what was decoded until then).
\<close>

definition prefixed_hex :: "bytes \<Rightarrow> string" where
  "prefixed_hex bs = (if bs = [] then [] else ''0x'' @ hex_of_bytes bs)"

definition root_as_string :: "bytes \<Rightarrow> string" where
  "root_as_string root = prefixed_hex root"

definition slot_as_string :: "u64 \<Rightarrow> string" where
  "slot_as_string slot = dec_of_nat (unat slot)"

definition epoch_as_string :: "u64 \<Rightarrow> string" where
  "epoch_as_string epoch = dec_of_nat (unat epoch)"

definition kzg_commitment_to_string :: "bytes \<Rightarrow> string" where
  "kzg_commitment_to_string c = prefixed_hex c"

definition versioned_hash_to_string :: "bytes \<Rightarrow> string" where
  "versioned_hash_to_string h = prefixed_hex h"

definition bytes_to_string :: "bytes \<Rightarrow> string" where
  "bytes_to_string b = prefixed_hex b"

definition string_to_root :: "string \<Rightarrow> string + bytes" where
  "string_to_root s =
     (if length s \<noteq> 66 then Inl ''invalid root length''
      else if take 2 s \<noteq> ''0x'' then Inl ''invalid root prefix''
      else case hex_decode (drop 2 s) of
        Inl e \<Rightarrow> Inl (err_wrap ''invalid root'' e)
      | Inr root \<Rightarrow> Inr root)"

definition trimmed_string :: "string \<Rightarrow> string" where
  "trimmed_string s =
     (if length s \<le> 12 then s else take 5 s @ ''...'' @ drop (length s - 5) s)"

lemma to_lower_hex_char: "n < 16 \<Longrightarrow> lower_char (hex_char n) = hex_char n"
  by (auto simp: lower_char_def hex_char_def Let_def of_char_of)

lemma hex_val_lower: "hex_val c = Some n \<Longrightarrow> n < 16 \<and> lower_char c = hex_char n"
  by (auto simp: hex_val_def lower_char_def hex_char_def Let_def char_of_eq_iff
      take_bit_nat_eq_self split: if_splits)

lemma hex_decode_lower: "hex_decode s = Inr bs \<Longrightarrow> to_lower s = hex_of_bytes bs"
proof (induction s arbitrary: bs rule: hex_decode.induct)
  case 1
  then show ?case by (simp add: hex_of_bytes_def to_lower_def)
next
  case (2 c)
  then show ?case by (simp split: option.splits)
next
  case (3 c d cs)
  from "3.prems" obtain hi lo bs' where v: "hex_val c = Some hi" "hex_val d = Some lo"
    "hex_decode cs = Inr bs'" "bs = word_of_nat (hi * 16 + lo) # bs'"
    by (auto split: option.splits sum.splits)
  then have cd: "lower_char c = hex_char hi" "lower_char d = hex_char lo" "hi < 16" "lo < 16"
    by (auto dest: hex_val_lower)
  have "n < 256 \<Longrightarrow> unat (word_of_nat n :: u8) = n" for n
    by (simp add: unsigned_of_nat take_bit_nat_eq_self)
  from this [of "hi * 16 + lo"] have "unat (word_of_nat (hi * 16 + lo) :: u8) = hi * 16 + lo"
    using cd(3,4) by simp
  then have "hex_of_byte (word_of_nat (hi * 16 + lo)) = [lower_char c, lower_char d]"
    using cd by (simp add: hex_of_byte_def)
  moreover have "to_lower cs = hex_of_bytes bs'" using "3.IH" [OF v(1,2,3)] v by simp
  ultimately show ?case using v by (simp add: hex_of_bytes_def to_lower_def)
qed

lemma string_to_root_iff_parts:
  "string_to_root s = Inr root \<longleftrightarrow>
     length root = 32 \<and> take 2 s = ''0x'' \<and> to_lower s = root_as_string root
     \<and> is_ok (hex_decode (drop 2 s))"
  "length root = 32 \<Longrightarrow> string_to_root (root_as_string root) = Inr root"
proof -
  have lower: "to_lower s = ''0x'' @ to_lower (drop 2 s)" if "take 2 s = ''0x''"
  proof -
    have "s = ''0x'' @ drop 2 s" by (metis append_take_drop_id that)
    then have "to_lower s = to_lower ''0x'' @ to_lower (drop 2 s)" by (metis to_lower_append)
    then show ?thesis by (simp add: to_lower_def lower_char_def)
  qed
  have len: "length s = length (to_lower s)" for s by (simp add: to_lower_def)
  show "string_to_root s = Inr root \<longleftrightarrow>
     length root = 32 \<and> take 2 s = ''0x'' \<and> to_lower s = root_as_string root
     \<and> is_ok (hex_decode (drop 2 s))" (is "?L \<longleftrightarrow> ?R")
  proof
    assume ?L
    then have s: "length s = 66" "take 2 s = ''0x''" "hex_decode (drop 2 s) = Inr root"
      by (auto simp: string_to_root_def split: if_splits sum.splits)
    then have "length root = 32" using hex_decode_length [OF s(3)] by simp
    with s lower [OF s(2)] hex_decode_lower [OF s(3)] show ?R
      by (auto simp: root_as_string_def prefixed_hex_def)
  next
    assume r: ?R
    then obtain bs where bs: "hex_decode (drop 2 s) = Inr bs" by (auto simp: is_ok_iff)
    from r have "root \<noteq> []" by auto
    with r lower hex_decode_lower [OF bs] have "hex_of_bytes bs = hex_of_bytes root"
      by (auto simp: root_as_string_def prefixed_hex_def)
    then have "bs = root" by (metis hex_decode_encode sum.inject(2))
    moreover have "length s = 66"
      using r \<open>root \<noteq> []\<close> len [of s] by (simp add: root_as_string_def prefixed_hex_def)
    ultimately show ?L using r bs by (simp add: string_to_root_def)
  qed
  assume "length root = 32"
  then show "string_to_root (root_as_string root) = Inr root"
    by (auto simp: string_to_root_def root_as_string_def prefixed_hex_def)
qed

text \<open>
  StringToRoot accepts exactly the printed roots of 32 bytes, with the digits in either
  letter case, and returns the root that prints like that.
\<close>

theorem string_to_root_iff:
  "(string_to_root s = Inr root \<longleftrightarrow>
     length root = 32 \<and> take 2 s = ''0x'' \<and> to_lower s = root_as_string root
     \<and> is_ok (hex_decode (drop 2 s)))
   \<and> (length root = 32 \<longrightarrow> string_to_root (root_as_string root) = Inr root)"
  by (intro conjI impI string_to_root_iff_parts)


lemma string_to_root_iff_witness:
  "string_to_root (root_as_string (replicate 32 0xab)) = Inr (replicate 32 0xab)"
  by (rule string_to_root_iff [THEN conjunct2, THEN mp]) simp

lemma length_trimmed_string:
  "length (trimmed_string s) = (if length s \<le> 12 then length s else 13)"
  by (simp add: trimmed_string_def)

end
