(* ===== verification/Enr.thy ===== *)
theory Enr
  imports Peers
begin

text \<open>
  Ethereum node records (\<open>pkg/ethereum/node/enr/enr.go\<close> and \<open>parser.go\<close>, and \<open>ENRToEnode\<close> of
  \<open>pkg/discovery/node.go\<close>). A parsed node is a value of \<open>'n\<close>; the accessors of go-ethereum and
  the key conversions of libp2p are the parameter \<open>record_lib\<close>. \<open>Load\<close> of an entry is a lookup
  by the key that \<open>ENRKey\<close> of its type returns; pointer fields of the Go struct are options.
\<close>

section \<open>The record\<close>

record enr =
  enr_text :: string
  enr_signature :: "bytes option"
  enr_seq :: "u64 option"
  enr_id :: "string option"
  enr_node_id :: "string option"
  enr_peer_id :: "string option"
  enr_secp256k1 :: "bytes option"
  enr_ip4 :: "string option"
  enr_ip6 :: "string option"
  enr_tcp4 :: "u32 option"
  enr_tcp6 :: "u32 option"
  enr_udp4 :: "u32 option"
  enr_udp6 :: "u32 option"
  enr_quic4 :: "u32 option"
  enr_quic6 :: "u32 option"
  enr_eth2 :: "bytes option"
  enr_attnets :: "bytes option"
  enr_syncnets :: "bytes option"
  enr_cgc :: "bytes option"
  enr_nfd :: "bytes option"

record ('n, 'k) record_lib =
  rl_parse :: "string \<Rightarrow> string + 'n"
  rl_signature :: "'n \<Rightarrow> bytes"
  rl_seq :: "'n \<Rightarrow> u64"
  rl_scheme :: "'n \<Rightarrow> string"
  rl_load_bytes :: "'n \<Rightarrow> string \<Rightarrow> string + bytes"
  rl_load_port :: "'n \<Rightarrow> string \<Rightarrow> string + 16 word"
  rl_load_ip6 :: "'n \<Rightarrow> string + bytes"
  rl_ip :: "'n \<Rightarrow> bytes"
  rl_tcp :: "'n \<Rightarrow> nat"
  rl_udp :: "'n \<Rightarrow> nat"
  rl_node_id :: "'n \<Rightarrow> string"
  rl_pubkey :: "'n \<Rightarrow> bytes"
  rl_unmarshal_key :: "bytes \<Rightarrow> string + 'k"
  rl_peer_id :: "'k \<Rightarrow> string + string"
  rl_show_ip :: "bytes \<Rightarrow> string"

text \<open>\<open>ENRKey\<close> of the types of the entries\<close>

definition secp256k1_key :: string where "secp256k1_key = ''secp256k1''"
definition eth2_key :: string where "eth2_key = ''eth2''"
definition attnets_key :: string where "attnets_key = ''attnets''"
definition syncnets_key :: string where "syncnets_key = ''syncnets''"
definition cgc_key :: string where "cgc_key = ''cgc''"
definition nfd_key :: string where "nfd_key = ''nfd''"
definition quic_key :: string where "quic_key = ''quic''"
definition quic6_key :: string where "quic6_key = ''quic6''"

section \<open>Addresses\<close>

text \<open>\<open>net.IP.IsUnspecified\<close>: 0.0.0.0, in four or in sixteen bytes, or ::\<close>

definition is_unspecified :: "bytes \<Rightarrow> bool" where
  "is_unspecified ip = (ip_to4 ip = Some (replicate 4 0) \<or> ip = replicate 16 0)"

text \<open>\<open>ip.IsUnspecified() || ip.String() == "<nil>"\<close>, which is how a nil address prints\<close>

definition show_specified :: "('n, 'k) record_lib \<Rightarrow> bytes \<Rightarrow> string option" where
  "show_specified L ip = (if is_unspecified ip \<or> ip = [] then None else Some (rl_show_ip L ip))"

definition parse_ip4 :: "('n, 'k) record_lib \<Rightarrow> 'n \<Rightarrow> string option" where
  "parse_ip4 L n = show_specified L (rl_ip L n)"

definition parse_ip6 :: "('n, 'k) record_lib \<Rightarrow> 'n \<Rightarrow> string option" where
  "parse_ip6 L n = (case rl_load_ip6 L n of Inl _ \<Rightarrow> None | Inr ip \<Rightarrow> show_specified L ip)"

section \<open>Ports and byte entries\<close>

definition some_port :: "nat \<Rightarrow> u32 option" where
  "some_port p = (if p = 0 then None else Some (word_of_nat p))"

definition parse_tcp4 :: "('n, 'k) record_lib \<Rightarrow> 'n \<Rightarrow> u32 option" where
  "parse_tcp4 L n = some_port (rl_tcp L n)"

definition parse_udp4 :: "('n, 'k) record_lib \<Rightarrow> 'n \<Rightarrow> u32 option" where
  "parse_udp4 L n = some_port (rl_udp L n)"

definition load_port :: "('n, 'k) record_lib \<Rightarrow> 'n \<Rightarrow> string \<Rightarrow> u32 option" where
  "load_port L n key =
     (case rl_load_port L n key of
        Inl _ \<Rightarrow> None
      | Inr p \<Rightarrow> (let f = (ucast p :: u32) in if f = 0 then None else Some f))"

definition parse_tcp6 :: "('n, 'k) record_lib \<Rightarrow> 'n \<Rightarrow> u32 option" where
  "parse_tcp6 L n = load_port L n ''tcp6''"

definition parse_udp6 :: "('n, 'k) record_lib \<Rightarrow> 'n \<Rightarrow> u32 option" where
  "parse_udp6 L n = load_port L n ''udp6''"

definition parse_quic4 :: "('n, 'k) record_lib \<Rightarrow> 'n \<Rightarrow> u32 option" where
  "parse_quic4 L n = load_port L n quic_key"

definition parse_quic6 :: "('n, 'k) record_lib \<Rightarrow> 'n \<Rightarrow> u32 option" where
  "parse_quic6 L n = load_port L n quic6_key"

definition load_bytes :: "('n, 'k) record_lib \<Rightarrow> 'n \<Rightarrow> string \<Rightarrow> bytes option" where
  "load_bytes L n key = (case rl_load_bytes L n key of Inl _ \<Rightarrow> None | Inr b \<Rightarrow> Some b)"

definition parse_secp256k1 :: "('n, 'k) record_lib \<Rightarrow> 'n \<Rightarrow> bytes option" where
  "parse_secp256k1 L n = load_bytes L n secp256k1_key"

definition parse_eth2 :: "('n, 'k) record_lib \<Rightarrow> 'n \<Rightarrow> bytes option" where
  "parse_eth2 L n = load_bytes L n eth2_key"

definition parse_attnets :: "('n, 'k) record_lib \<Rightarrow> 'n \<Rightarrow> bytes option" where
  "parse_attnets L n = load_bytes L n attnets_key"

definition parse_syncnets :: "('n, 'k) record_lib \<Rightarrow> 'n \<Rightarrow> bytes option" where
  "parse_syncnets L n = load_bytes L n syncnets_key"

definition parse_cgc :: "('n, 'k) record_lib \<Rightarrow> 'n \<Rightarrow> bytes option" where
  "parse_cgc L n = load_bytes L n cgc_key"

definition parse_nfd :: "('n, 'k) record_lib \<Rightarrow> 'n \<Rightarrow> bytes option" where
  "parse_nfd L n = load_bytes L n nfd_key"

section \<open>Identity\<close>

definition parse_signature :: "('n, 'k) record_lib \<Rightarrow> 'n \<Rightarrow> bytes option" where
  "parse_signature L n = Some (rl_signature L n)"

definition parse_seq :: "('n, 'k) record_lib \<Rightarrow> 'n \<Rightarrow> u64 option" where
  "parse_seq L n = Some (rl_seq L n)"

definition parse_id :: "('n, 'k) record_lib \<Rightarrow> 'n \<Rightarrow> string option" where
  "parse_id L n = Some (rl_scheme L n)"

definition parse_node_id :: "('n, 'k) record_lib \<Rightarrow> 'n \<Rightarrow> string option" where
  "parse_node_id L n = Some (rl_node_id L n)"

definition parse_peer_id :: "('n, 'k) record_lib \<Rightarrow> 'n \<Rightarrow> string option" where
  "parse_peer_id L n =
     (case rl_unmarshal_key L (rl_pubkey L n) of
        Inl _ \<Rightarrow> None
      | Inr k \<Rightarrow> (case rl_peer_id L k of Inl _ \<Rightarrow> None | Inr i \<Rightarrow> Some i))"

section \<open>Parsing\<close>

definition parse_enr :: "('n, 'k) record_lib \<Rightarrow> string \<Rightarrow> string + enr" where
  "parse_enr L record_text =
     (case rl_parse L record_text of
        Inl e \<Rightarrow> Inl (err_wrap ''failed to parse enr'' e)
      | Inr n \<Rightarrow>
          Inr \<lparr>enr_text = record_text,
           enr_signature = parse_signature L n,
           enr_seq = parse_seq L n,
           enr_id = parse_id L n,
           enr_node_id = parse_node_id L n,
           enr_peer_id = parse_peer_id L n,
           enr_secp256k1 = parse_secp256k1 L n,
           enr_ip4 = parse_ip4 L n,
           enr_ip6 = parse_ip6 L n,
           enr_tcp4 = parse_tcp4 L n,
           enr_tcp6 = parse_tcp6 L n,
           enr_udp4 = parse_udp4 L n,
           enr_udp6 = parse_udp6 L n,
           enr_quic4 = parse_quic4 L n,
           enr_quic6 = parse_quic6 L n,
           enr_eth2 = parse_eth2 L n,
           enr_attnets = parse_attnets L n,
           enr_syncnets = parse_syncnets L n,
           enr_cgc = parse_cgc L n,
           enr_nfd = parse_nfd L n\<rparr>)"

definition enr_to_enode :: "('n, 'k) record_lib \<Rightarrow> string \<Rightarrow> string + 'n" where
  "enr_to_enode L s =
     (case rl_parse L s of Inl e \<Rightarrow> Inl (err_wrap ''failed to parse ENR'' e) | Inr n \<Rightarrow> Inr n)"

section \<open>Accessors\<close>

text \<open>Every getter of the Go type works on a nil receiver.\<close>

definition get_enr :: "enr option \<Rightarrow> string" where
  "get_enr e = (case e of None \<Rightarrow> [] | Some r \<Rightarrow> enr_text r)"

definition get_signature :: "enr option \<Rightarrow> bytes option" where
  "get_signature e = Option.bind e enr_signature"

definition get_seq :: "enr option \<Rightarrow> u64 option" where
  "get_seq e = Option.bind e enr_seq"

definition get_id :: "enr option \<Rightarrow> string option" where
  "get_id e = Option.bind e enr_id"

definition get_enr_node_id :: "enr option \<Rightarrow> string option" where
  "get_enr_node_id e = Option.bind e enr_node_id"

definition get_peer_id :: "enr option \<Rightarrow> string option" where
  "get_peer_id e = Option.bind e enr_peer_id"

definition get_secp256k1 :: "enr option \<Rightarrow> bytes option" where
  "get_secp256k1 e = Option.bind e enr_secp256k1"

definition get_ip4 :: "enr option \<Rightarrow> string option" where
  "get_ip4 e = Option.bind e enr_ip4"

definition get_ip6 :: "enr option \<Rightarrow> string option" where
  "get_ip6 e = Option.bind e enr_ip6"

definition get_tcp4 :: "enr option \<Rightarrow> u32 option" where
  "get_tcp4 e = Option.bind e enr_tcp4"

definition get_tcp6 :: "enr option \<Rightarrow> u32 option" where
  "get_tcp6 e = Option.bind e enr_tcp6"

definition get_udp4 :: "enr option \<Rightarrow> u32 option" where
  "get_udp4 e = Option.bind e enr_udp4"

definition get_udp6 :: "enr option \<Rightarrow> u32 option" where
  "get_udp6 e = Option.bind e enr_udp6"

definition get_quic4 :: "enr option \<Rightarrow> u32 option" where
  "get_quic4 e = Option.bind e enr_quic4"

definition get_quic6 :: "enr option \<Rightarrow> u32 option" where
  "get_quic6 e = Option.bind e enr_quic6"

definition get_eth2 :: "enr option \<Rightarrow> bytes option" where
  "get_eth2 e = Option.bind e enr_eth2"

definition get_attnets :: "enr option \<Rightarrow> bytes option" where
  "get_attnets e = Option.bind e enr_attnets"

definition get_syncnets :: "enr option \<Rightarrow> bytes option" where
  "get_syncnets e = Option.bind e enr_syncnets"

definition get_cgc :: "enr option \<Rightarrow> bytes option" where
  "get_cgc e = Option.bind e enr_cgc"

definition get_nfd :: "enr option \<Rightarrow> bytes option" where
  "get_nfd e = Option.bind e enr_nfd"

section \<open>Properties\<close>

definition port_ok :: "u32 option \<Rightarrow> bool" where
  "port_ok p = (case p of None \<Rightarrow> True | Some v \<Rightarrow> 0 < v \<and> v < 2 ^ 16)"

lemma port_ok_some_port [simp]:
  assumes "p < 2 ^ 16"
  shows "port_ok (some_port p)"
proof -
  have "unat (word_of_nat p :: u32) = p" using assms by (simp add: unsigned_of_nat take_bit_nat_eq_self)
  with assms show ?thesis by (auto simp: port_ok_def some_port_def word_less_nat_alt)
qed

lemma port_ok_load_port [simp]: "port_ok (load_port L n key)"
proof -
  have "unat (ucast p :: u32) < 2 ^ 16" for p :: "16 word"
    using unsigned_less [of p, where 'a = nat] by (simp add: unsigned_ucast_eq take_bit_nat_eq_self)
  then have "(ucast p :: u32) < 2 ^ 16" for p :: "16 word" by (simp add: word_less_nat_alt)
  then show ?thesis by (simp add: port_ok_def load_port_def Let_def word_gt_0 split: sum.split)
qed

lemma load_bytes_found: "load_bytes L n k \<noteq> None \<longleftrightarrow> is_ok (rl_load_bytes L n k)"
  by (simp add: load_bytes_def split: sum.split)

lemma show_specified_None: "show_specified L ip = None \<longleftrightarrow> ip = [] \<or> is_unspecified ip"
  by (auto simp: show_specified_def)

lemmas parse_port_defs = parse_tcp4_def parse_tcp6_def parse_udp4_def parse_udp6_def parse_quic4_def
  parse_quic6_def

lemmas parse_entry_defs = parse_eth2_def parse_attnets_def parse_syncnets_def parse_cgc_def parse_nfd_def
  eth2_key_def attnets_key_def syncnets_key_def cgc_key_def nfd_key_def

lemmas getter_defs = get_enr_def get_tcp4_def get_tcp6_def get_udp4_def get_udp6_def get_quic4_def
  get_quic6_def get_eth2_def get_attnets_def get_syncnets_def get_cgc_def get_nfd_def get_ip4_def
  get_enr_node_id_def get_seq_def

text \<open>
  Parse succeeds exactly on the records go-ethereum parses, keeps the text, and reports an
  entry only if the record has it: ports are between 1 and 65535, the identity of the node is
  always there, and addresses that are missing or unspecified are left out.
\<close>

theorem parse_enr_fields:
  assumes "rl_parse L s = Inr n" "rl_tcp L n < 2 ^ 16" "rl_udp L n < 2 ^ 16"
  shows "\<exists>e. parse_enr L s = Inr e \<and> get_enr (Some e) = s
    \<and> list_all port_ok [get_tcp4 (Some e), get_tcp6 (Some e), get_udp4 (Some e), get_udp6 (Some e),
                        get_quic4 (Some e), get_quic6 (Some e)]
    \<and> (get_eth2 (Some e) \<noteq> None \<longleftrightarrow> is_ok (rl_load_bytes L n ''eth2''))
    \<and> (get_attnets (Some e) \<noteq> None \<longleftrightarrow> is_ok (rl_load_bytes L n ''attnets''))
    \<and> (get_syncnets (Some e) \<noteq> None \<longleftrightarrow> is_ok (rl_load_bytes L n ''syncnets''))
    \<and> (get_cgc (Some e) \<noteq> None \<longleftrightarrow> is_ok (rl_load_bytes L n ''cgc''))
    \<and> (get_nfd (Some e) \<noteq> None \<longleftrightarrow> is_ok (rl_load_bytes L n ''nfd''))
    \<and> (get_ip4 (Some e) = None \<longleftrightarrow> rl_ip L n = [] \<or> is_unspecified (rl_ip L n))
    \<and> get_enr_node_id (Some e) = Some (rl_node_id L n) \<and> get_seq (Some e) = Some (rl_seq L n)"
proof -
  define e where "e = (case parse_enr L s of Inr e \<Rightarrow> e)"
  have e: "parse_enr L s = Inr e" using assms(1) by (simp add: parse_enr_def e_def)
  have fields: "enr_text e = s" "enr_tcp4 e = parse_tcp4 L n" "enr_tcp6 e = parse_tcp6 L n"
    "enr_udp4 e = parse_udp4 L n" "enr_udp6 e = parse_udp6 L n" "enr_quic4 e = parse_quic4 L n"
    "enr_quic6 e = parse_quic6 L n" "enr_eth2 e = parse_eth2 L n" "enr_attnets e = parse_attnets L n"
    "enr_syncnets e = parse_syncnets L n" "enr_cgc e = parse_cgc L n" "enr_nfd e = parse_nfd L n"
    "enr_ip4 e = parse_ip4 L n" "enr_node_id e = parse_node_id L n" "enr_seq e = parse_seq L n"
    using assms(1) by (simp_all add: parse_enr_def e_def)
  have "list_all port_ok [enr_tcp4 e, enr_tcp6 e, enr_udp4 e, enr_udp6 e, enr_quic4 e, enr_quic6 e]"
    using assms(2,3) by (simp add: fields parse_port_defs)
  moreover have "(enr_ip4 e = None) = (rl_ip L n = [] \<or> is_unspecified (rl_ip L n))"
    by (simp add: fields parse_ip4_def show_specified_None)
  moreover have "(enr_eth2 e \<noteq> None) = is_ok (rl_load_bytes L n ''eth2'')"
    "(enr_attnets e \<noteq> None) = is_ok (rl_load_bytes L n ''attnets'')"
    "(enr_syncnets e \<noteq> None) = is_ok (rl_load_bytes L n ''syncnets'')"
    "(enr_cgc e \<noteq> None) = is_ok (rl_load_bytes L n ''cgc'')"
    "(enr_nfd e \<noteq> None) = is_ok (rl_load_bytes L n ''nfd'')"
    by (simp_all only: fields parse_entry_defs load_bytes_found)
  moreover have "enr_node_id e = Some (rl_node_id L n)" "enr_seq e = Some (rl_seq L n)"
    by (simp_all add: fields parse_node_id_def parse_seq_def)
  ultimately show ?thesis
    using fields(1) by (intro exI [of _ e] conjI e) (simp_all only: getter_defs Option.bind.simps option.case)
qed

text \<open>
  The node accessor \<open>IP\<close> of go-ethereum returns the preferred address of the record, which is
  the IPv6 address of a node that has no better IPv4 one: the field IP4 then holds it.
\<close>

lemma ip4_holds_preferred:
  assumes "rl_parse L s = Inr n" "length (rl_ip L n) = 16" "ip_to4 (rl_ip L n) = None"
    "rl_ip L n \<noteq> replicate 16 0"
  shows "\<exists>e. parse_enr L s = Inr e \<and> get_ip4 (Some e) = Some (rl_show_ip L (rl_ip L n))"
  using assms
  by (auto simp: parse_enr_def get_ip4_def parse_ip4_def show_specified_def is_unspecified_def)

text \<open>A record of a node with one port and an attestation bitfield, for the witness.\<close>

definition demo_record_lib :: "(nat, nat) record_lib" where
  "demo_record_lib =
     \<lparr>rl_parse = (\<lambda>s. Inr (length s)), rl_signature = (\<lambda>_. []), rl_seq = (\<lambda>_. 1), rl_scheme = (\<lambda>_. ''v4''),
      rl_load_bytes = (\<lambda>_ k. if k = ''attnets'' then Inr [1] else Inl ''missing''),
      rl_load_port = (\<lambda>_ _. Inl ''missing''), rl_load_ip6 = (\<lambda>_. Inl ''missing''), rl_ip = (\<lambda>_. [10, 0, 0, 1]),
      rl_tcp = (\<lambda>_. 9000), rl_udp = (\<lambda>_. 0), rl_node_id = (\<lambda>n. dec_of_nat n), rl_pubkey = (\<lambda>_. []),
      rl_unmarshal_key = (\<lambda>_. Inl ''no key''), rl_peer_id = (\<lambda>_. Inl ''no id''), rl_show_ip = (\<lambda>_. ''10.0.0.1'')\<rparr>"

lemma parse_enr_fields_witness:
  "\<exists>e. parse_enr demo_record_lib ''enr:-x'' = Inr e \<and> get_attnets (Some e) \<noteq> None \<and> get_eth2 (Some e) = None
     \<and> get_ip4 (Some e) \<noteq> None"
proof -
  have "\<not> is_unspecified [10, 0, 0, 1]" by code_simp
  then show ?thesis
    using parse_enr_fields [of demo_record_lib "''enr:-x''" 6] by (auto simp: demo_record_lib_def)
qed

end
