(* ===== verification/Host.thy ===== *)
theory Host
  imports GoStrings Prelude "HOL-Library.Multiset"
begin

text \<open>
  The libp2p host of the consensus side (\<open>pkg/consensus/mimicry/host/host.go\<close>, \<open>event.go\<close>,
  \<open>metrics.go\<close>): validation, listen addresses, the private key, connecting and disconnecting with
  their events, and the peer gauge. libp2p is a parameter: \<open>net_view\<close> is what its network
  reports (peers, the directions of their connections, their connectedness), and the calls
  that can fail are given by their results. Keys are byte strings.
\<close>

section \<open>Configuration and key\<close>

record host_config =
  hc_ip :: "bytes option"
  hc_udp_port :: int
  hc_tcp_port :: int
  hc_priv_key :: string

record host_node =
  hn_config :: host_config
  hn_key :: "bytes option"
  hn_started :: bool
  hn_listen_ip :: bytes
  hn_gauge :: "string \<times> string \<rightharpoonup> nat"
  hn_connects :: nat
  hn_disconnects :: nat

definition host_validate :: "host_config \<Rightarrow> string option" where
  "host_validate c = (if hc_ip c = None then Some ''ipAddr is required'' else None)"

definition new_host :: "host_config \<Rightarrow> host_node" where
  "new_host c = \<lparr>hn_config = c, hn_key = None, hn_started = False, hn_listen_ip = [], hn_gauge = (\<lambda>_. None),
     hn_connects = 0, hn_disconnects = 0\<rparr>"

definition PrivKeyBytesLen :: nat where "PrivKeyBytesLen = 32"

text \<open>
  \<open>derivePrivateKey\<close>: the key kept from the first call, else the configured one, else a generated
  one (\<open>generated\<close> is what key generation returns), which is written back into the configuration.
\<close>

definition derive_private_key :: "string + bytes \<Rightarrow> (host_node, string, bytes) act" where
  "derive_private_key generated n =
     (case hn_key n of
        Some k \<Rightarrow> (Inr k, n)
      | None \<Rightarrow>
          if hc_priv_key (hn_config n) = [] then
            (case generated of
               Inl e \<Rightarrow> (Inl (err_wrap ''failed to generate key'' e), n)
             | Inr k \<Rightarrow>
                 if length k \<noteq> PrivKeyBytesLen
                 then (Inl (''expected secp256k1 data size to be '' @ dec_of_nat PrivKeyBytesLen), n)
                 else (Inr k, n\<lparr>hn_key := Some k,
                          hn_config := (hn_config n)\<lparr>hc_priv_key := hex_of_bytes k\<rparr>\<rparr>))
          else
            (case hex_decode (hc_priv_key (hn_config n)) of
               Inl e \<Rightarrow> (Inl (err_wrap ''failed to decode private key'' e), n)
             | Inr k \<Rightarrow> (Inr k, n\<lparr>hn_key := Some k\<rparr>)))"

section \<open>Starting\<close>

definition listen_addrs :: "(bytes \<Rightarrow> string) \<Rightarrow> bytes \<Rightarrow> host_config \<Rightarrow> string list" where
  "listen_addrs show_ip ip c =
     (''/ip4/'' @ show_ip ip @ ''/tcp/'' @ dec_of_int (hc_tcp_port c)) #
     (if hc_udp_port c > 0
      then [''/ip4/'' @ show_ip ip @ ''/udp/'' @ dec_of_int (hc_udp_port c) @ ''/quic-v1''] else [])"

text \<open>
  \<open>discoverIP\<close>: \<open>dial\<close> is the outcome of dialling a UDP socket, whose local address need not be a UDP address.
\<close>

definition discover_ip :: "string + bytes option \<Rightarrow> string + bytes" where
  "discover_ip dial =
     (case dial of
        Inl e \<Rightarrow> Inl e
      | Inr None \<Rightarrow> Inl ''failed to get local address''
      | Inr (Some ip) \<Rightarrow> Inr ip)"

text \<open>
  \<open>manager\<close> is the error of building the resource manager, \<open>libp2p_new\<close> what libp2p returns for the
  addresses and the key.
\<close>

definition host_start ::
  "(bytes \<Rightarrow> string) \<Rightarrow> string + bytes option \<Rightarrow> string + bytes \<Rightarrow> string option
     \<Rightarrow> (string list \<Rightarrow> bytes \<Rightarrow> string option) \<Rightarrow> (host_node, string, string list) act" where
  "host_start show_ip dial generated manager libp2p_new n =
     (let configured = (case hc_ip (hn_config n) of None \<Rightarrow> [] | Some ip \<Rightarrow> ip);
          listen = (if show_ip configured = ''0.0.0.0''
                    then (case discover_ip dial of Inl e \<Rightarrow> Inl (err_wrap ''failed to discover IP address'' e) | Inr ip \<Rightarrow> Inr ip)
                    else Inr configured)
      in case listen of
           Inl e \<Rightarrow> (Inl e, n)
         | Inr ip \<Rightarrow>
             (let addrs = listen_addrs show_ip ip (hn_config n)
              in case derive_private_key generated (n\<lparr>hn_listen_ip := ip\<rparr>) of
                   (Inl e, n1) \<Rightarrow> (Inl (err_wrap ''failed to derive private key'' e), n1)
                 | (Inr k, n1) \<Rightarrow>
                     (case manager of
                        Some e \<Rightarrow> (Inl e, n1)
                      | None \<Rightarrow>
                          (case libp2p_new addrs k of
                             Some e \<Rightarrow> (Inl (err_wrap ''failed to create libp2p host'' e), n1)
                           | None \<Rightarrow> (Inr addrs, n1\<lparr>hn_started := True\<rparr>)))))"

text \<open>\<open>Stop\<close> closes the host, if there is one; \<open>close_result\<close> is the error of that.\<close>

definition host_stop :: "string option \<Rightarrow> host_node \<Rightarrow> string option" where
  "host_stop close_result n = (if hn_started n then close_result else None)"

section \<open>Connecting\<close>

datatype host_event =
    BeforePeerConnect string
  | AfterPeerConnect string
  | BeforePeerDisconnect string
  | AfterPeerDisconnect string

text \<open>The event of a call precedes it, whatever the call returns.\<close>

definition connect_to_host :: "string \<Rightarrow> string option \<Rightarrow> host_event list \<times> string option" where
  "connect_to_host peer result = ([BeforePeerConnect peer], result)"

definition disconnect_from_host :: "string \<Rightarrow> string option \<Rightarrow> host_event list \<times> string option" where
  "disconnect_from_host peer result =
     ([BeforePeerDisconnect peer],
      map_option (err_wrap (''failed to disconnect from peer '' @ peer)) result)"

section \<open>The peer gauge\<close>

text \<open>
  Each connection of a peer counts under its direction and the connectedness of the peer. The
  nested map of the code is one map from pairs; only the pairs that occur are written.
\<close>

type_synonym net_view = "(string \<times> string list \<times> string) list"

definition state_label :: "string \<Rightarrow> string" where
  "state_label s = to_lower (if s = ''NotConnected'' then ''disconnected'' else s)"

definition conn_labels :: "net_view \<Rightarrow> (string \<times> string) list" where
  "conn_labels net = concat (map (\<lambda>(_, dirs, state). map (\<lambda>d. (d, state)) dirs) net)"

fun bump :: "('a \<rightharpoonup> nat) \<Rightarrow> 'a list \<Rightarrow> ('a \<rightharpoonup> nat)" where
  "bump m [] = m"
| "bump m (x # xs) = bump (m(x \<mapsto> (case m x of None \<Rightarrow> 1 | Some k \<Rightarrow> Suc k))) xs"

definition peer_counts :: "net_view \<Rightarrow> (string \<times> string \<rightharpoonup> nat)" where
  "peer_counts net = bump (\<lambda>_. None) (conn_labels net)"

text \<open>The counts are written one after another, in some order of the pairs that occur.\<close>

fun set_gauges :: "(string \<times> string \<rightharpoonup> nat) \<Rightarrow> (string \<times> string) list
    \<Rightarrow> (string \<times> string \<rightharpoonup> nat) \<Rightarrow> (string \<times> string \<rightharpoonup> nat)" where
  "set_gauges counts [] g = g"
| "set_gauges counts ((d, s) # ps) g =
     set_gauges counts ps (case counts (d, s) of None \<Rightarrow> g | Some k \<Rightarrow> g((d, state_label s) \<mapsto> k))"

definition update_peer_metrics :: "net_view \<Rightarrow> host_node \<Rightarrow> host_node" where
  "update_peer_metrics net n =
     n\<lparr>hn_gauge := set_gauges (peer_counts net) (remdups (conn_labels net)) (hn_gauge n)\<rparr>"

definition host_connected :: "net_view \<Rightarrow> string \<Rightarrow> host_node \<Rightarrow> host_event list \<times> host_node" where
  "host_connected net peer n =
     ([AfterPeerConnect peer], update_peer_metrics net (n\<lparr>hn_connects := Suc (hn_connects n)\<rparr>))"

definition host_disconnected :: "net_view \<Rightarrow> string \<Rightarrow> host_node \<Rightarrow> host_event list \<times> host_node" where
  "host_disconnected net peer n =
     ([AfterPeerDisconnect peer], update_peer_metrics net (n\<lparr>hn_disconnects := Suc (hn_disconnects n)\<rparr>))"

section \<open>Properties\<close>

text \<open>
  The private key is derived once: a call that succeeds fixes the key for every later call,
  whatever key generation would return, and the configuration then holds it in hexadecimal, from
  which a new host derives the same key.
\<close>

theorem private_key_stable:
  assumes "derive_private_key generated n = (Inr k, n')" "hn_key n = None"
    "hc_priv_key (hn_config n) = [] \<or> hc_priv_key (hn_config n) = hex_of_bytes k'"
  shows "derive_private_key g n' = (Inr k, n')"
    and "hc_priv_key (hn_config n') = hex_of_bytes k"
    and "fst (derive_private_key g (new_host (hn_config n'))) = Inr k"
proof -
  have k: "hn_key n' = Some k \<and> hc_priv_key (hn_config n') = hex_of_bytes k \<and> hex_of_bytes k \<noteq> []"
  proof (cases "hc_priv_key (hn_config n) = []")
    case True
    with assms have k: "generated = Inr k" "length k = PrivKeyBytesLen"
      and n': "n' = n\<lparr>hn_key := Some k, hn_config := (hn_config n)\<lparr>hc_priv_key := hex_of_bytes k\<rparr>\<rparr>"
      by (auto simp: derive_private_key_def split: sum.splits if_splits)
    from k(2) have "length (hex_of_bytes k) = 64" by (simp add: PrivKeyBytesLen_def)
    then have "hex_of_bytes k \<noteq> []" by (intro notI) simp
    with n' show ?thesis by simp
  next
    case False
    with assms have "hc_priv_key (hn_config n) = hex_of_bytes k'" by simp
    with False assms(1,2) have "k = k'" "n' = n\<lparr>hn_key := Some k\<rparr>"
      by (auto simp: derive_private_key_def)
    with False assms(3) show ?thesis by auto
  qed
  then show "derive_private_key g n' = (Inr k, n')" "hc_priv_key (hn_config n') = hex_of_bytes k"
    by (simp_all add: derive_private_key_def)
  from k show "fst (derive_private_key g (new_host (hn_config n'))) = Inr k"
    by (simp add: derive_private_key_def new_host_def)
qed

definition demo_host :: host_node where
  "demo_host = new_host \<lparr>hc_ip = Some [127, 0, 0, 1], hc_udp_port = 0, hc_tcp_port = 9000, hc_priv_key = []\<rparr>"

lemma private_key_stable_witness:
  "\<exists>n'. derive_private_key (Inr (replicate 32 7)) demo_host = (Inr (replicate 32 7), n')
     \<and> derive_private_key (Inl ''no entropy'') n' = (Inr (replicate 32 7), n')"
proof -
  obtain n' where n': "derive_private_key (Inr (replicate 32 7)) demo_host = (Inr (replicate 32 7), n')"
    by (simp add: derive_private_key_def demo_host_def new_host_def PrivKeyBytesLen_def)
  moreover have "derive_private_key (Inl ''no entropy'') n' = (Inr (replicate 32 7), n')"
    by (rule private_key_stable(1) [OF n']) (simp_all add: demo_host_def new_host_def)
  ultimately show ?thesis by blast
qed

lemma bump_count:
  "bump m xs x = (if x \<in> set xs then Some ((case m x of None \<Rightarrow> 0 | Some k \<Rightarrow> k) + count_list xs x) else m x)"
  by (induction xs arbitrary: m) (auto split: option.splits)

lemma peer_counts_eq:
  "peer_counts net p = (if p \<in> set (conn_labels net) then Some (count_list (conn_labels net) p) else None)"
  by (simp add: peer_counts_def bump_count)

lemma set_gauges_other: "(d, l) \<notin> (\<lambda>(d, s). (d, state_label s)) ` set ps \<Longrightarrow> set_gauges c ps g (d, l) = g (d, l)"
proof (induction ps arbitrary: g)
  case (Cons p ps)
  then show ?case by (cases p) (auto split: option.split)
qed simp

lemma set_gauges_written:
  assumes "distinct ps" "inj_on state_label S" "\<forall>(d, s) \<in> set ps. s \<in> S" "(d, s) \<in> set ps" "c (d, s) = Some k"
  shows "set_gauges c ps g (d, state_label s) = Some k"
  using assms(1,3,4)
proof (induction ps arbitrary: g)
  case (Cons p ps)
  obtain d' s' where p: "p = (d', s')" by (cases p)
  show ?case
  proof (cases "(d, s) \<in> set ps")
    case True
    with Cons p show ?thesis by simp
  next
    case False
    with Cons.prems p have eq: "p = (d, s)" by auto
    have "(d, state_label s) \<notin> (\<lambda>(d, s). (d, state_label s)) ` set ps"
    proof
      assume "(d, state_label s) \<in> (\<lambda>(d, s). (d, state_label s)) ` set ps"
      then obtain s2 where s2: "(d, s2) \<in> set ps" "state_label s2 = state_label s" by auto
      with Cons.prems eq p have "s2 \<in> S" "s \<in> S" by auto
      with s2(2) assms(2) have "s2 = s" by (auto simp: inj_on_def)
      with s2 False show False by simp
    qed
    with eq assms(5) show ?thesis by (simp add: set_gauges_other)
  qed
qed simp

text \<open>The connectedness values libp2p prints.\<close>

definition connectedness_names :: "string set" where
  "connectedness_names = {''NotConnected'', ''Connected'', ''CanConnect'', ''CannotConnect'', ''Limited''}"

lemma state_label_inj: "inj_on state_label connectedness_names"
proof -
  have "map state_label [''NotConnected'', ''Connected'', ''CanConnect'', ''CannotConnect'', ''Limited'']
     = [''disconnected'', ''connected'', ''canconnect'', ''cannotconnect'', ''limited'']"
    by code_simp
  then show ?thesis by (auto simp: connectedness_names_def inj_on_def)
qed

lemma peer_gauge_stale_parts:
  assumes "\<forall>(_, _, s) \<in> set net. s \<in> connectedness_names"
  shows "(d, s) \<in> set (conn_labels net) \<Longrightarrow>
      hn_gauge (snd (host_disconnected net p n)) (d, state_label s) = Some (count_list (conn_labels net) (d, s))"
    and "(\<forall>s. l = state_label s \<longrightarrow> (d, s) \<notin> set (conn_labels net)) \<Longrightarrow>
      hn_gauge (snd (host_disconnected net p n)) (d, l) = hn_gauge n (d, l)"
proof -
  have names: "\<forall>(d, s) \<in> set (remdups (conn_labels net)). s \<in> connectedness_names"
    using assms by (fastforce simp: conn_labels_def)
  show "hn_gauge (snd (host_disconnected net p n)) (d, state_label s) = Some (count_list (conn_labels net) (d, s))"
    if "(d, s) \<in> set (conn_labels net)"
    using that
    by (simp add: host_disconnected_def update_peer_metrics_def peer_counts_eq
        set_gauges_written [OF distinct_remdups state_label_inj names])
  show "hn_gauge (snd (host_disconnected net p n)) (d, l) = hn_gauge n (d, l)"
    if "\<forall>s. l = state_label s \<longrightarrow> (d, s) \<notin> set (conn_labels net)"
  proof -
    have "(d, l) \<notin> (\<lambda>(d, s). (d, state_label s)) ` set (remdups (conn_labels net))" using that by auto
    then show ?thesis by (simp add: host_disconnected_def update_peer_metrics_def set_gauges_other)
  qed
qed

text \<open>
  After a peer event the gauge of every direction and state that has a connection is the number
  of its connections. A pair without any is not written: the gauge keeps the last count, so when
  the last peer of a direction leaves, the metric goes on reporting it.
\<close>

theorem peer_gauge_stale:
  assumes "\<forall>(_, _, s) \<in> set net. s \<in> connectedness_names"
  shows "((d, s) \<in> set (conn_labels net) \<longrightarrow>
      hn_gauge (snd (host_disconnected net p n)) (d, state_label s) = Some (count_list (conn_labels net) (d, s)))
    \<and> ((\<forall>s. l = state_label s \<longrightarrow> (d, s) \<notin> set (conn_labels net)) \<longrightarrow>
      hn_gauge (snd (host_disconnected net p n)) (d, l) = hn_gauge n (d, l))"
  using peer_gauge_stale_parts [OF assms] by blast


lemma peer_gauge_stale_witness:
  "hn_gauge (snd (host_disconnected [] ''p'' (snd (host_connected [(''p'', [''Inbound''], ''Connected'')] ''p'' demo_host))))
     (''Inbound'', ''connected'') = Some 1"
proof -
  let ?n = "snd (host_connected [(''p'', [''Inbound''], ''Connected'')] ''p'' demo_host)"
  have "hn_gauge (snd (host_disconnected [] ''p'' ?n)) (''Inbound'', ''connected'') = hn_gauge ?n (''Inbound'', ''connected'')"
    by (rule peer_gauge_stale [THEN conjunct2, THEN mp]) (simp_all add: conn_labels_def)
  also have "\<dots> = Some 1" by code_simp
  finally show ?thesis .
qed

end
