(* ===== verification/ExecLife.thy ===== *)
theory ExecLife
  imports GoStrings
begin

text \<open>
  The life of an execution client around its session (\<open>pkg/execution/mimicry/client.go\<close>:
  \<open>parseNodeRecord\<close>, \<open>New\<close>, \<open>Start\<close>, \<open>Stop\<close>; \<open>publish.go\<close>: topics and subscriptions). The calls of
  \<open>Start\<close> that can fail are given by their results, in the record \<open>start_results\<close>; a connection
  is a number, and the state lists the connections that are open. \<open>net.SplitHostPort\<close>, with
  which the dialler reads its address, is Go's for addresses without brackets.
\<close>

section \<open>Records and addresses\<close>

text \<open>Which parser reads a record: the one for enode URLs or the one for ENRs.\<close>

definition parse_node_record :: "(string \<Rightarrow> string + 'n) \<Rightarrow> (string \<Rightarrow> string + 'n) \<Rightarrow> string \<Rightarrow> string + 'n" where
  "parse_node_record parse_v4 parse_enr record_text =
     (if has_prefix record_text ''enode://'' then parse_v4 record_text else parse_enr record_text)"

definition dial_address :: "string \<Rightarrow> nat \<Rightarrow> string" where
  "dial_address ip port = ip @ '':'' @ dec_of_nat port"

text \<open>The host is what stands before the last colon and must not contain another one.\<close>

definition split_host_port :: "string \<Rightarrow> string + string \<times> string" where
  "split_host_port a =
     (let port = rev (takeWhile (\<lambda>c. c \<noteq> CHR '':'') (rev a));
          host = take (length a - length port - 1) a
      in if CHR '':'' \<notin> set a then Inl ''missing port in address''
         else if CHR '':'' \<in> set host then Inl ''too many colons in address''
         else Inr (host, port))"

section \<open>Starting and stopping\<close>

record life =
  lf_peer :: bool
  lf_eth_peer :: bool
  lf_pipe :: bool
  lf_conn :: "nat option"
  lf_rlpx :: "nat option"
  lf_key :: "bytes option"
  lf_sessions :: nat
  lf_open :: "nat list"

definition new_life :: life where
  "new_life = \<lparr>lf_peer = False, lf_eth_peer = False, lf_pipe = False, lf_conn = None, lf_rlpx = None,
     lf_key = None, lf_sessions = 0, lf_open = []\<rparr>"

record start_results =
  st_dial :: "string + nat"
  st_deadline :: "string option"
  st_default_key :: "string + bytes"
  st_handshake :: "string option"
  st_clear_deadline :: "string option"

definition start_client :: "start_results \<Rightarrow> (life, string, unit) act" where
  "start_client r c =
     (let c1 = c\<lparr>lf_peer := True, lf_pipe := True, lf_eth_peer := True\<rparr>
      in case st_dial r of
           Inl e \<Rightarrow> (Inl e, c1\<lparr>lf_conn := None\<rparr>)
         | Inr n \<Rightarrow>
             (let c2 = c1\<lparr>lf_conn := Some n, lf_open := n # lf_open c1, lf_rlpx := Some n\<rparr>
              in case st_deadline r of
                   Some e \<Rightarrow> (Inl e, c2)
                 | None \<Rightarrow>
                     (let (key, c3) = (case lf_key c2 of
                          Some k \<Rightarrow> (None, c2)
                        | None \<Rightarrow> (case st_default_key r of
                              Inl e \<Rightarrow> (Some e, c2\<lparr>lf_key := None\<rparr>)
                            | Inr k \<Rightarrow> (None, c2\<lparr>lf_key := Some k\<rparr>)))
                      in case key of
                           Some e \<Rightarrow> (Inl e, c3)
                         | None \<Rightarrow>
                             (case st_handshake r of
                                Some e \<Rightarrow> (Inl e, c3)
                              | None \<Rightarrow>
                                  (case st_clear_deadline r of
                                     Some e \<Rightarrow> (Inl e, c3)
                                   | None \<Rightarrow> (Inr (), c3\<lparr>lf_sessions := Suc (lf_sessions c3)\<rparr>))))))"

text \<open>
  \<open>defaultNodePrivateKey\<close>: the state of the \<open>sync.Once\<close> is the result of the first call, an error included;
  \<open>st_default_key\<close> of a start is its first component.
\<close>

definition default_node_private_key ::
  "string + bytes \<Rightarrow> (string + bytes) option \<Rightarrow> (string + bytes) \<times> (string + bytes) option" where
  "default_node_private_key generated once =
     (case once of Some r \<Rightarrow> (r, once) | None \<Rightarrow> (generated, Some generated))"

definition with_private_key :: "bytes option \<Rightarrow> life \<Rightarrow> life" where
  "with_private_key key c = c\<lparr>lf_key := key\<rparr>"

text \<open>The clients of a process started one after another, each with its own results.\<close>

fun start_clients_once ::
  "start_results list \<Rightarrow> (string + bytes) option \<Rightarrow> life list \<Rightarrow> (string option \<times> life) list" where
  "start_clients_once (r # rs) once (c # cs) =
     (let (key, once') = (if lf_key c = None \<and> is_ok (st_dial r) \<and> st_deadline r = None
                          then default_node_private_key (st_default_key r) once else (st_default_key r, once))
      in case start_client (r\<lparr>st_default_key := key\<rparr>) c of
           (Inl e, c') \<Rightarrow> (Some e, c') # start_clients_once rs once' cs
         | (Inr _, c') \<Rightarrow> (None, c') # start_clients_once rs once' cs)"
| "start_clients_once _ once _ = []"

text \<open>Closing the RLPx connection closes the connection below it.\<close>

definition stop_client :: "life \<Rightarrow> life" where
  "stop_client c = c\<lparr>lf_open := (case lf_rlpx c of None \<Rightarrow> lf_open c | Some n \<Rightarrow> remove1 n (lf_open c))\<rparr>"

section \<open>Events\<close>

definition topicDisconnect :: string where "topicDisconnect = ''disconnect''"
definition topicHello :: string where "topicHello = ''hello''"
definition topicStatus :: string where "topicStatus = ''status''"
definition topicTransactions :: string where "topicTransactions = ''transactions''"
definition topicNewPooledTransactionHashes :: string where
  "topicNewPooledTransactionHashes = ''new_pooled_transaction_hashes''"

text \<open>The handlers of the broker, by topic, in the order of subscription; a handler is a name.\<close>

type_synonym exec_broker = "string \<Rightarrow> string list"

definition on_topic :: "string \<Rightarrow> string \<Rightarrow> exec_broker \<Rightarrow> exec_broker" where
  "on_topic topic handler b = b(topic := b topic @ [handler])"

definition on_disconnect :: "string \<Rightarrow> exec_broker \<Rightarrow> exec_broker" where
  "on_disconnect h = on_topic topicDisconnect h"

definition on_hello :: "string \<Rightarrow> exec_broker \<Rightarrow> exec_broker" where
  "on_hello h = on_topic topicHello h"

definition on_status :: "string \<Rightarrow> exec_broker \<Rightarrow> exec_broker" where
  "on_status h = on_topic topicStatus h"

definition on_transactions :: "string \<Rightarrow> exec_broker \<Rightarrow> exec_broker" where
  "on_transactions h = on_topic topicTransactions h"

definition on_new_pooled_transaction_hashes :: "string \<Rightarrow> exec_broker \<Rightarrow> exec_broker" where
  "on_new_pooled_transaction_hashes h = on_topic topicNewPooledTransactionHashes h"

text \<open>
  \<open>Emit\<close> runs every handler of the topic; an error is logged by \<open>handleSubscriberError\<close> and
  reaches neither the caller nor the other handlers. The result is the handlers run and the errors
  logged.
\<close>

definition emit_topic :: "(string \<Rightarrow> string option) \<Rightarrow> string \<Rightarrow> exec_broker \<Rightarrow> string list \<times> string list" where
  "emit_topic result topic b = (b topic, List.map_filter result (b topic))"

section \<open>Properties\<close>

lemma rev_takeWhile_port:
  "CHR '':'' \<notin> set p \<Longrightarrow> rev (takeWhile (\<lambda>c. c \<noteq> CHR '':'') (rev (h @ CHR '':'' # p))) = p"
proof -
  assume "CHR '':'' \<notin> set p"
  then have "takeWhile (\<lambda>c. c \<noteq> CHR '':'') (rev p @ CHR '':'' # rev h) = rev p"
    by (subst takeWhile_append2) auto
  then show ?thesis by simp
qed

text \<open>
  The dialler reads the address Start builds back as the host and port of the record exactly
  if the printed address has no colon: the address of an IPv6 node is refused before anything is
  dialled.
\<close>

theorem dial_address_readable:
  "split_host_port (dial_address ip port) =
     (if CHR '':'' \<in> set ip then Inl ''too many colons in address'' else Inr (ip, dec_of_nat port))"
proof -
  have p: "CHR '':'' \<notin> set (dec_of_nat port)"
    by (rule dec_of_nat_no_char) (simp add: digit_val_def)
  have "rev (takeWhile (\<lambda>c. c \<noteq> CHR '':'') (rev (dial_address ip port))) = dec_of_nat port"
    using rev_takeWhile_port [OF p, of ip] by (simp add: dial_address_def)
  then show ?thesis by (simp add: split_host_port_def dial_address_def)
qed

text \<open>
  However Start ends, a Stop behind it leaves no connection open, provided Start is called on
  a client without one; a session is started exactly if Start returns no error. A second Start
  without a Stop in between drops the first connection: Stop then closes only the second.
\<close>

theorem start_stop_releases:
  assumes "lf_open c = []" "start_client r c = (res, c')"
  shows "lf_open (stop_client c') = []"
    and "is_ok res \<longleftrightarrow> lf_sessions c' = Suc (lf_sessions c)"
    and "st_dial r = Inr n \<Longrightarrow> st_dial r2 = Inr n2 \<Longrightarrow> n \<noteq> n2 \<Longrightarrow>
      lf_open (stop_client (snd (start_client r2 c'))) = [n]"
proof -
  have opened: "lf_open c' = (case st_dial r of Inl _ \<Rightarrow> [] | Inr n \<Rightarrow> [n])"
    and rlpx: "st_dial r = Inr n \<Longrightarrow> lf_rlpx c' = Some n"
    and sess: "is_ok res \<longleftrightarrow> lf_sessions c' = Suc (lf_sessions c)" for n
    using assms by (auto simp: start_client_def Let_def split: sum.splits option.splits)
  then show "lf_open (stop_client c') = []" by (cases "st_dial r") (simp_all add: stop_client_def split: option.split)
  show "is_ok res \<longleftrightarrow> lf_sessions c' = Suc (lf_sessions c)" by (rule sess)
  assume two: "st_dial r = Inr n" "st_dial r2 = Inr n2" "n \<noteq> n2"
  obtain c'' where c'': "c'' = snd (start_client r2 c')" by simp
  have "lf_open c'' = n2 # lf_open c'" "lf_rlpx c'' = Some n2"
    unfolding c'' using two(2) by (auto simp: start_client_def Let_def split: sum.splits option.splits)
  with two opened show "lf_open (stop_client (snd (start_client r2 c'))) = [n]"
    unfolding c'' [symmetric] by (simp add: stop_client_def)
qed

definition demo_results :: "nat \<Rightarrow> start_results" where
  "demo_results n = \<lparr>st_dial = Inr n, st_deadline = None, st_default_key = Inr [1], st_handshake = Some ''EOF'',
     st_clear_deadline = None\<rparr>"

lemma start_stop_releases_witness:
  "lf_open (stop_client (snd (start_client (demo_results 8) (snd (start_client (demo_results 7) new_life))))) = [7]"
proof -
  obtain res c' where c': "start_client (demo_results 7) new_life = (res, c')" by fastforce
  have "lf_open (stop_client (snd (start_client (demo_results 8) c'))) = [7]"
    using start_stop_releases(3) [OF _ c', of 7 "demo_results 8" 8] by (simp add: new_life_def demo_results_def)
  with c' show ?thesis by simp
qed

text \<open>One start that asks for the default key, and one that fails before it would.\<close>

lemma start_client_key:
  assumes "start_client r c = (res, c')" "lf_key c = None"
  shows "(case st_default_key r of Inl e \<Rightarrow> \<not> is_ok res | Inr k \<Rightarrow> is_ok res \<longrightarrow> lf_key c' = Some k)"
  using assms by (auto simp: start_client_def Let_def split: sum.splits option.splits)

lemma start_client_early:
  "\<not> (is_ok (st_dial r) \<and> st_deadline r = None) \<Longrightarrow> \<not> is_ok (fst (start_client r c))"
  by (auto simp: start_client_def Let_def split: sum.splits option.splits)

definition default_key_ok :: "string + bytes \<Rightarrow> string option \<times> life \<Rightarrow> bool" where
  "default_key_ok first x =
     (case first of Inl e \<Rightarrow> fst x \<noteq> None | Inr k \<Rightarrow> fst x = None \<longrightarrow> lf_key (snd x) = Some k)"

lemma start_clients_once_keys:
  "\<forall>c \<in> set cs. lf_key c = None \<Longrightarrow> \<forall>x \<in> set (start_clients_once rs (Some first) cs). default_key_ok first x"
proof (induction rs arbitrary: cs)
  case (Cons r rs)
  show ?case
  proof (cases cs)
    case cs: (Cons c cs')
    have none: "lf_key c = None" and rest: "\<forall>x \<in> set (start_clients_once rs (Some first) cs'). default_key_ok first x"
      using Cons.prems Cons.IH [of cs'] cs by auto
    define key where "key = (if is_ok (st_dial r) \<and> st_deadline r = None then first else st_default_key r)"
    obtain res c' where s: "start_client (r\<lparr>st_default_key := key\<rparr>) c = (res, c')" by fastforce
    have run: "start_clients_once (r # rs) (Some first) cs
        = ((case res of Inl e \<Rightarrow> Some e | Inr _ \<Rightarrow> None), c') # start_clients_once rs (Some first) cs'"
      using s none by (auto simp: cs key_def default_node_private_key_def split: sum.split)
    have "default_key_ok first ((case res of Inl e \<Rightarrow> Some e | Inr _ \<Rightarrow> None), c')"
    proof (cases "is_ok (st_dial r) \<and> st_deadline r = None")
      case True
      then show ?thesis
        using start_client_key [OF s none] by (auto simp: key_def default_key_ok_def split: sum.splits)
    next
      case False
      then have "\<not> is_ok res" using start_client_early [of "r\<lparr>st_default_key := key\<rparr>" c] s by simp
      then show ?thesis by (auto simp: default_key_ok_def split: sum.splits)
    qed
    with run rest show ?thesis by simp
  qed simp
qed simp

text \<open>
  the clients of a process without a key of their own share the first key that was generated, and if
  generating it failed, none of them ever starts, whatever a later generation would return.
\<close>

theorem default_key_sticks:
  assumes "\<forall>c \<in> set cs. lf_key c = None" "(err, c') \<in> set (start_clients_once rs (Some first) cs)"
  shows "(case first of Inl e \<Rightarrow> err \<noteq> None | Inr k \<Rightarrow> err = None \<longrightarrow> lf_key c' = Some k)"
proof -
  have "default_key_ok first (err, c')" using start_clients_once_keys [OF assms(1), of rs first] assms(2) by blast
  then show ?thesis by (cases first) (simp_all add: default_key_ok_def)
qed

lemma default_key_sticks_witness:
  "\<exists>err c'. start_clients_once [\<lparr>st_dial = Inr 1, st_deadline = None, st_default_key = Inr [7], st_handshake = None,
       st_clear_deadline = None\<rparr>] (Some (Inl ''no entropy'')) [new_life] = [(Some err, c')]"
proof -
  let ?r = "\<lparr>st_dial = Inr 1, st_deadline = None, st_default_key = Inr [7], st_handshake = None, st_clear_deadline = None\<rparr>"
  obtain err c' where run: "start_clients_once [?r] (Some (Inl ''no entropy'')) [new_life] = [(err, c')]"
    by (cases "start_clients_once [?r] (Some (Inl ''no entropy'')) [new_life]")
      (auto split: prod.splits sum.splits)
  have "err \<noteq> None"
    using default_key_sticks [of "[new_life]" err c' "[?r]" "Inl ''no entropy''"] unfolding run by (simp add: new_life_def)
  with run show ?thesis by auto
qed

end
