(* ===== verification/CrawlerStart.thy ===== *)
theory CrawlerStart
  imports CrawlerServe Metadata
begin

text \<open>
  \<open>Start\<close> of the crawler (\<open>pkg/consensus/mimicry/crawler/crawler.go\<close>): the duplicate cache, the
  beacon node of \<open>Metadata\<close>, and the callback that runs once its services are ready. Library calls are
  given by their results; \<open>log.Fatal\<close> ends the process. The attempts to fetch the first status are
  those the retry helper makes within its time limit. The two workers are goroutines whose
  start cannot fail.
\<close>

section \<open>The readiness callback\<close>

fun fetch_initial :: "beacon_answers list \<Rightarrow> 'n crawler \<Rightarrow> 'n crawler" where
  "fetch_initial [] c = c"
| "fetch_initial (b # bs) c =
     (case fetch_and_set_status b c of
        (Inr _, c') \<Rightarrow> c'
      | (Inl _, c') \<Rightarrow> fetch_initial bs c')"

text \<open>
  After the wiring, head events and the job of the scheduler fetch the status; both do nothing once the
  crawler shuts down. A fetch given here by its answers is one of either; the loop that waits for a head
  slot reads the clock, gives up once more than thirty seconds have passed and sleeps at least a second.
  \<open>looks\<close> has, per sleep, what it took beyond that second, in nanoseconds, and the fetches during it.
\<close>

definition cron_job :: "beacon_answers \<Rightarrow> 'n crawler \<Rightarrow> 'n crawler" where
  "cron_job b c = (if cr_shutdown c then c else snd (fetch_and_set_status b c))"

datatype status_update = HeadUpdate beacon_answers | CronUpdate beacon_answers

primrec update_answers :: "status_update \<Rightarrow> beacon_answers" where
  "update_answers (HeadUpdate b) = b"
| "update_answers (CronUpdate b) = b"

primrec run_update :: "status_update \<Rightarrow> 'n crawler \<Rightarrow> 'n crawler" where
  "run_update (HeadUpdate b) c = snd (on_head b c)"
| "run_update (CronUpdate b) c = cron_job b c"

type_synonym look = "nat \<times> status_update list"

definition wait_second :: nat where "wait_second = 1000000000"

function wait_status :: "nat \<Rightarrow> look list \<Rightarrow> 'n crawler \<Rightarrow> nat \<times> bool \<times> 'n crawler" where
  "wait_status t looks c =
     (if sv_head_slot (cr_status c) \<noteq> 0 then (0, False, c)
      else if 30 * wait_second < t then (0, True, c)
      else case looks of
             [] \<Rightarrow> apfst Suc (wait_status (t + wait_second) [] c)
           | (extra, us) # looks' \<Rightarrow> apfst Suc (wait_status (t + wait_second + extra) looks' (fold run_update us c)))"
  by pat_completeness auto
termination
  by (relation "measure (\<lambda>(t, looks, c). 31 * wait_second - t)") (auto simp: wait_second_def)

declare wait_status.simps [simp del]

definition start_crons :: "string option \<Rightarrow> string option \<Rightarrow> string option" where
  "start_crons new_scheduler new_job = (case new_scheduler of Some e \<Rightarrow> Some e | None \<Rightarrow> new_job)"

text \<open>
  \<open>handleBeaconNodeReady\<close>, which nothing calls: it would put a second head handler next to that of the wiring,
  one that does not look for the shutdown mark, and start the cron job again.
\<close>

definition ready_on_head :: "beacon_answers \<Rightarrow> ('n crawler, string, unit) act" where
  "ready_on_head b = (\<lambda>c. (Inr (), snd (fetch_and_set_status b c)))"

definition handle_beacon_node_ready ::
  "string option \<Rightarrow> string option \<Rightarrow> ((beacon_answers \<Rightarrow> ('n crawler, string, unit) act) list, string, unit) act" where
  "handle_beacon_node_ready new_scheduler new_job handlers =
     (case start_crons new_scheduler new_job of None \<Rightarrow> Inr () | Some e \<Rightarrow> Inl e, handlers @ [ready_on_head])"

text \<open>What the peer store has for the agent of a peer: an error, a string or something else.\<close>

datatype stored_agent = AgentError string | AgentString string | AgentOther

definition get_peer_agent_version :: "stored_agent \<Rightarrow> string" where
  "get_peer_agent_version stored = (case stored of AgentString s \<Rightarrow> s | _ \<Rightarrow> ''unknown'')"

definition get_status :: "'n crawler \<Rightarrow> status_v1" where
  "get_status c = cr_status c"

text \<open>The handler of the wiring and this one differ on a crawler that shuts down, and there only.\<close>

lemma ready_on_head_agrees:
  "\<not> cr_shutdown c \<Longrightarrow> snd (ready_on_head b c) = snd (on_head b c)"
  "cr_shutdown c \<Longrightarrow> fetch_status b = Inr s \<Longrightarrow>
     get_status (snd (ready_on_head b c)) = s \<and> get_status (snd (on_head b c)) = get_status c"
  by (simp_all add: ready_on_head_def on_head_def fetch_and_set_status_def set_status_def get_status_def)

record ready_results =
  rr_attempts :: "beacon_answers list"
  rr_host :: "string option"
  rr_discovery :: "string option"
  rr_scheduler :: "string option"
  rr_job :: "string option"
  rr_early :: "status_update list"
  rr_looks :: "look list"

datatype ready_end = ReadyFatal string | ReadyAfter nat bool

definition crawler_ready ::
  "string \<Rightarrow> ready_results \<Rightarrow> 'n crawler \<Rightarrow> ready_end \<times> 'n crawler \<times> serve_name req_resp" where
  "crawler_ready sfx r c =
     (let c1 = fetch_initial (rr_attempts r) c
      in case rr_host r of
           Some e \<Rightarrow> (ReadyFatal (err_wrap ''Failed to start libp2p node'' e), c1, new_req_resp)
         | None \<Rightarrow>
             (case wire_up_components sfx new_req_resp of
                (Inl e, layer) \<Rightarrow> (ReadyFatal (err_wrap ''Failed to wire up components'' e), c1, layer)
              | (Inr _, layer) \<Rightarrow>
                  (let c2 = fold run_update (rr_early r) c1
                   in case rr_discovery r of
                        Some e \<Rightarrow> (ReadyFatal (err_wrap ''Failed to start discovery'' e), c2, layer)
                      | None \<Rightarrow>
                          (case start_crons (rr_scheduler r) (rr_job r) of
                             Some e \<Rightarrow> (ReadyFatal (err_wrap ''Failed to start crons'' e), c2, layer)
                           | None \<Rightarrow>
                               (case wait_status 0 (rr_looks r) c2 of
                                  (k, late, c3) \<Rightarrow> (ReadyAfter k late, c3, layer))))))"

section \<open>Start\<close>

datatype crawl_start_end = CrawlReady nat bool | CrawlStartError string | CrawlStartWaits | CrawlExit string

definition crawler_start ::
  "(('w metadata_service, string, unit) act \<Rightarrow> ('w metadata_service, string, unit) act)
     \<Rightarrow> 'w clock_maker \<Rightarrow> node_answers \<Rightarrow> string option \<Rightarrow> string option \<Rightarrow> string \<Rightarrow> ready_results
     \<Rightarrow> 'w metadata_service \<Rightarrow> 'n crawler \<Rightarrow> crawl_start_end \<times> 'n crawler \<times> serve_name req_resp" where
  "crawler_start retry clock node scheduler cache sfx r m c =
     (case cache of
        Some e \<Rightarrow> (CrawlStartError (err_wrap ''failed to start duplicate cache'' e), c, new_req_resp)
      | None \<Rightarrow>
          (case fst (start_services retry clock node scheduler m) of
             ServicesReady \<Rightarrow>
               (case crawler_ready sfx r c of
                  (ReadyFatal e, c', layer) \<Rightarrow> (CrawlExit e, c', layer)
                | (ReadyAfter k late, c', layer) \<Rightarrow> (CrawlReady k late, c', layer))
           | ServicesFailed e \<Rightarrow> (CrawlStartError (err_wrap ''failed to start beacon node'' e), c, new_req_resp)
           | ServicesWait \<Rightarrow> (CrawlStartWaits, c, new_req_resp)
           | ProcessExit e \<Rightarrow> (CrawlExit e, c, new_req_resp)))"

section \<open>Properties\<close>

text \<open>At most thirty-one sleeps, and the loop is left by its time limit or by a status with a head slot.\<close>

lemma wait_status_bound: "wait_second * fst (wait_status t looks c) \<le> 31 * wait_second - t"
proof (induction t looks c rule: wait_status.induct)
  case (1 t looks c)
  show ?case
  proof (cases "sv_head_slot (cr_status c) \<noteq> 0 \<or> 30 * wait_second < t")
    case True
    then show ?thesis by (subst wait_status.simps) auto
  next
    case False
    then have run: "\<not> sv_head_slot (cr_status c) \<noteq> 0" "\<not> 30 * wait_second < t" by auto
    show ?thesis
    proof (cases looks)
      case Nil
      with "1.IH"(1) [OF run] run show ?thesis by (subst wait_status.simps) (simp add: algebra_simps)
    next
      case (Cons l looks')
      obtain extra us where l: "l = (extra, us)" by fastforce
      with "1.IH"(2) [OF run Cons l [symmetric]] Cons run show ?thesis by (subst wait_status.simps) (simp add: algebra_simps)
    qed
  qed
qed

lemma wait_status_exit:
  "fst (snd (wait_status t looks c)) \<or> sv_head_slot (cr_status (snd (snd (wait_status t looks c)))) \<noteq> 0"
proof (induction t looks c rule: wait_status.induct)
  case (1 t looks c)
  then show ?case
    by (subst (1 2) wait_status.simps) (auto split: list.split prod.split)
qed

lemma fetch_initial_none:
  "\<forall>b \<in> set bs. \<not> is_ok (fetch_status b) \<Longrightarrow> fetch_initial bs c = c"
  by (induction bs) (auto simp: fetch_and_set_status_def not_is_ok_iff split: sum.splits)

lemma run_updates_none:
  "\<forall>u \<in> set us. \<not> is_ok (fetch_status (update_answers u)) \<Longrightarrow> fold run_update us c = c"
proof (induction us)
  case (Cons u us)
  then show ?case by (cases u) (auto simp: on_head_def cron_job_def fetch_and_set_status_def not_is_ok_iff)
qed simp

definition look_updates :: "look list \<Rightarrow> status_update list" where
  "look_updates looks = concat (map snd looks)"

lemma wait_status_none:
  "\<forall>u \<in> set (look_updates looks). \<not> is_ok (fetch_status (update_answers u))
     \<Longrightarrow> snd (snd (wait_status t looks c)) = c"
proof (induction t looks c rule: wait_status.induct)
  case (1 t looks c)
  show ?case
  proof (cases "sv_head_slot (cr_status c) \<noteq> 0 \<or> 30 * wait_second < t")
    case True
    then show ?thesis by (subst wait_status.simps) auto
  next
    case False
    then have run: "\<not> sv_head_slot (cr_status c) \<noteq> 0" "\<not> 30 * wait_second < t" by auto
    show ?thesis
    proof (cases looks)
      case Nil
      with "1.IH"(1) [OF run] run show ?thesis by (subst wait_status.simps) (simp add: look_updates_def)
    next
      case (Cons l looks')
      obtain extra us where l: "l = (extra, us)" by fastforce
      have "\<forall>u \<in> set us. \<not> is_ok (fetch_status (update_answers u))"
        and "\<forall>u \<in> set (look_updates looks'). \<not> is_ok (fetch_status (update_answers u))"
        using "1.prems" Cons l by (auto simp: look_updates_def)
      with "1.IH"(2) [OF run Cons l [symmetric]] Cons run l show ?thesis
        by (subst wait_status.simps) (simp add: run_updates_none)
    qed
  qed
qed

text \<open>All the answers a start of the crawler gets when it fetches a status.\<close>

definition start_fetches :: "ready_results \<Rightarrow> beacon_answers list" where
  "start_fetches r = rr_attempts r @ map update_answers (rr_early r @ look_updates (rr_looks r))"

text \<open>
  C34: Starting the crawler ends as starting its beacon node does, and once that is ready, and
  the host, discovery and crons start, the crawler becomes ready after at most thirty-one looks with
  every protocol of the wiring served. It becomes ready without a status as well: if no fetch
  succeeded, the wait times out and it runs on the status it was created with.
\<close>

theorem crawler_start_outcome:
  assumes "first_success retry" "ms_spec m = None" "ms_node_id_hash m = []"
    and "rr_host r = None" "rr_discovery r = None" "rr_scheduler r = None" "rr_job r = None"
    and "crawler_start retry clock node None None sfx r m c = (res, c', layer)"
  shows "(case fresh_start node of
       ServicesReady \<Rightarrow>
         (\<exists>k late. res = CrawlReady k late \<and> k \<le> 31 \<and> (late \<or> sv_head_slot (cr_status c') \<noteq> 0))
         \<and> (\<forall>(proto, h, _) \<in> set (wiring sfx). protocol_handler layer proto = Some (Some h))
         \<and> ((\<forall>b \<in> set (start_fetches r). \<not> is_ok (fetch_status b)) \<longrightarrow> c' = c)
     | ServicesFailed e \<Rightarrow> False
     | ServicesWait \<Rightarrow> res = CrawlStartWaits \<and> c' = c
     | ProcessExit e \<Rightarrow> res = CrawlExit e \<and> c' = c)"
proof -
  have start: "fst (start_services retry clock node None m) = fresh_start node"
    by (rule start_services_fresh [OF assms(1-3)])
  obtain layer0 where wired: "wire_up_components sfx new_req_resp = (Inr (), layer0)"
    and served: "\<forall>(proto, h, msg) \<in> set (wiring sfx). protocol_handler layer0 proto = Some (Some h)"
    using wiring_registers by blast
  show ?thesis
  proof (cases "fresh_start node")
    case ServicesReady
    let ?c1 = "fetch_initial (rr_attempts r) c" let ?c2 = "fold run_update (rr_early r) ?c1"
    obtain k late c3 where w: "wait_status 0 (rr_looks r) ?c2 = (k, late, c3)" by (metis prod.exhaust)
    have res: "res = CrawlReady k late" "c' = c3" "layer = layer0"
      using assms(4-8) start ServicesReady wired w
      by (auto simp: crawler_start_def crawler_ready_def start_crons_def Let_def)
    have "k \<le> 31" using wait_status_bound [of 0 "rr_looks r" ?c2] w by (simp add: wait_second_def)
    moreover have "late \<or> sv_head_slot (cr_status c3) \<noteq> 0"
      using wait_status_exit [of 0 "rr_looks r" ?c2] w by simp
    moreover have "(\<forall>b \<in> set (start_fetches r). \<not> is_ok (fetch_status b)) \<longrightarrow> c3 = c"
      using fetch_initial_none [of "rr_attempts r" c] run_updates_none [of "rr_early r" c]
        wait_status_none [of "rr_looks r" 0 c] w
      by (auto simp: start_fetches_def)
    ultimately show ?thesis using ServicesReady res served by auto
  next
    case (ServicesFailed e)
    then show ?thesis by (simp add: fresh_start_def split: sum.splits if_splits)
  next
    case ServicesWait
    with start assms(8) show ?thesis by (simp add: crawler_start_def)
  next
    case (ProcessExit e)
    with start assms(8) show ?thesis by (simp add: crawler_start_def)
  qed
qed

text \<open>A start whose only fetches fail: the crawler is ready, late, on the zero status.\<close>

definition no_status :: beacon_answers where
  "no_status = \<lparr>ba_finality = Inl ''503'', ba_spec = Inr (), ba_wallclock = Inr 7,
     ba_current_fork = (\<lambda>_. Inr ''electra''), ba_headers = Inl ''503'', ba_fork_digest = Inl ''503''\<rparr>"

definition late_start :: ready_results where
  "late_start = \<lparr>rr_attempts = [no_status, no_status], rr_host = None, rr_discovery = None, rr_scheduler = None,
     rr_job = None, rr_early = [CronUpdate no_status], rr_looks = [(5, [HeadUpdate no_status])]\<rparr>"

lemma crawler_start_outcome_witness:
  "\<exists>k layer. crawler_start (\<lambda>op. op) demo_clock demo_answers_ok None None ''x'' late_start (new_metadata_service []) demo_crawler
     = (CrawlReady k True, demo_crawler, layer)"
proof -
  let ?run = "crawler_start (\<lambda>op. op) demo_clock demo_answers_ok None None ''x'' late_start (new_metadata_service []) demo_crawler"
  obtain res c' layer where run: "?run = (res, c', layer)" by (metis prod.exhaust)
  have ready: "fresh_start demo_answers_ok = ServicesReady"
    unfolding fresh_start_def demo_answers_ok_def identity_known_def spec.truncate_def by code_simp
  have "\<forall>b \<in> set (start_fetches late_start). \<not> is_ok (fetch_status b)"
    by (simp add: start_fetches_def late_start_def look_updates_def fetch_status_def no_status_def)
  moreover have "sv_head_slot (cr_status demo_crawler) = 0"
    by (simp add: demo_crawler_def set_enr_def new_crawler_def zero_status_def)
  ultimately show ?thesis
    using crawler_start_outcome [where retry = "\<lambda>op. op" and m = "new_metadata_service []" and r = late_start, OF _ _ _ _ _ _ _ run]
      ready run
    by (auto simp: first_success_def new_metadata_service_def late_start_def)
qed

end
