(* ===== verification/TestNet.thy ===== *)
theory TestNet
  imports GoStrings Interfaces "HOL-Library.Multiset" "HOL-Library.AList"
begin

text \<open>
  The networks the repository's tests run on (\<open>pkg/testutil/kurtosis\<close>): their configuration
  (\<open>config.go\<close>), the participants of a network, the manager that reuses networks by name and counts
  their users (\<open>network.go\<close>), and the checks of \<open>helpers.go\<close>. The engine that runs networks is an external
  module, given by its answers; a network is the identifier it gave. Durations are nanoseconds in an
  int, \<open>quote\<close> is the \<open>%q\<close> of \<open>fmt\<close>, \<open>parse_duration\<close> is \<open>time.ParseDuration\<close>.
\<close>

section \<open>Configuration\<close>

record network_config =
  nc_name :: string
  nc_timeout :: int
  nc_enclave :: string
  nc_keep_alive :: bool
  nc_test_net :: bool
  nc_el_chain :: string
  nc_participants :: int
  nc_port_offset :: int

definition second :: int where "second = 1000000000"

definition default_network_config :: network_config where
  "default_network_config = \<lparr>nc_name = ''ethcore-test'', nc_timeout = 5 * 60 * second, nc_enclave = ''kurtosis'',
     nc_keep_alive = False, nc_test_net = False, nc_el_chain = ''mainnet'', nc_participants = 4, nc_port_offset = 0\<rparr>"

definition zero_network_config :: network_config where
  "zero_network_config = \<lparr>nc_name = [], nc_timeout = 0, nc_enclave = [], nc_keep_alive = False, nc_test_net = False,
     nc_el_chain = [], nc_participants = 0, nc_port_offset = 0\<rparr>"

text \<open>\<open>strconv.ParseBool\<close>\<close>

definition parse_bool :: "(string \<Rightarrow> string) \<Rightarrow> string \<Rightarrow> string + bool" where
  "parse_bool quote s =
     (if s \<in> set [''1'', ''t'', ''T'', ''TRUE'', ''true'', ''True''] then Inr True
      else if s \<in> set [''0'', ''f'', ''F'', ''FALSE'', ''false'', ''False''] then Inr False
      else Inl (''strconv.ParseBool: parsing '' @ quote s @ '': invalid syntax''))"

text \<open>One variable of the environment: an empty one changes nothing.\<close>

definition read_env ::
  "(string \<Rightarrow> string) \<Rightarrow> (string \<Rightarrow> string) \<Rightarrow> string \<Rightarrow> (string \<Rightarrow> string + 'a) \<Rightarrow> ('a \<Rightarrow> network_config \<Rightarrow> network_config)
     \<Rightarrow> network_config \<Rightarrow> string + network_config" where
  "read_env quote env key parse store c =
     (if env key = [] then Inr c
      else case parse (env key) of
             Inl e \<Rightarrow> Inl (err_wrap (''invalid '' @ key @ '' value '' @ quote (env key)) e)
           | Inr v \<Rightarrow> Inr (store v c))"

definition config_from_environment ::
  "(string \<Rightarrow> string) \<Rightarrow> (string \<Rightarrow> string + int) \<Rightarrow> (string \<Rightarrow> string) \<Rightarrow> string + network_config" where
  "config_from_environment quote parse_duration env =
     (let c0 = (if env ''KURTOSIS_ENCLAVE'' \<noteq> [] then zero_network_config\<lparr>nc_enclave := env ''KURTOSIS_ENCLAVE''\<rparr>
                else zero_network_config)
      in case read_env quote env ''KEEP_ENCLAVE'' (parse_bool quote) (\<lambda>b. nc_keep_alive_update (\<lambda>_. b)) c0 of
           Inl e \<Rightarrow> Inl e
         | Inr c1 \<Rightarrow>
             (case read_env quote env ''TEST_TIMEOUT'' parse_duration (\<lambda>d. nc_timeout_update (\<lambda>_. d)) c1 of
                Inl e \<Rightarrow> Inl e
              | Inr c2 \<Rightarrow>
                  (case read_env quote env ''TEST_NET'' (parse_bool quote) (\<lambda>b. nc_test_net_update (\<lambda>_. b)) c2 of
                     Inl e \<Rightarrow> Inl e
                   | Inr c3 \<Rightarrow>
                       Inr (if env ''EL_CHAIN'' \<noteq> [] then c3\<lparr>nc_el_chain := env ''EL_CHAIN''\<rparr> else c3))))"

definition merge_configs :: "network_config option \<Rightarrow> network_config option \<Rightarrow> network_config option" where
  "merge_configs base over =
     (case (base, over) of
        (None, None) \<Rightarrow> None
      | (None, Some o') \<Rightarrow> Some o'
      | (Some b, None) \<Rightarrow> Some b
      | (Some b, Some o') \<Rightarrow>
          Some \<lparr>nc_name = (if nc_name o' \<noteq> [] then nc_name o' else nc_name b),
                nc_timeout = (if nc_timeout o' \<noteq> 0 then nc_timeout o' else nc_timeout b),
                nc_enclave = (if nc_enclave o' \<noteq> [] then nc_enclave o' else nc_enclave b),
                nc_keep_alive = nc_keep_alive o', nc_test_net = nc_test_net o',
                nc_el_chain = (if nc_el_chain o' \<noteq> [] then nc_el_chain o' else nc_el_chain b),
                nc_participants = (if nc_participants o' \<noteq> 0 then nc_participants o' else nc_participants b),
                nc_port_offset = (if nc_port_offset o' \<noteq> 0 then nc_port_offset o' else nc_port_offset b)\<rparr>)"

definition get_participants :: "network_config \<Rightarrow> int" where
  "get_participants c = nc_participants c"

definition set_participants :: "int \<Rightarrow> network_config \<Rightarrow> string option \<times> network_config" where
  "set_participants n c =
     (if n < 1 then (Some (''participant count must be at least 1, got '' @
                           (if n < 0 then CHR ''-'' # dec_of_nat (nat (- n)) else dec_of_nat (nat n))), c)
      else (None, c\<lparr>nc_participants := n\<rparr>))"

section \<open>Participants and options of a network\<close>

record participant =
  pt_el :: string
  pt_cl :: string
  pt_count :: int

definition geth_with :: "string \<Rightarrow> int \<Rightarrow> participant" where
  "geth_with cl n = \<lparr>pt_el = ''geth'', pt_cl = cl, pt_count = n\<rparr>"

definition default_participants :: "participant list" where
  "default_participants = map (\<lambda>cl. geth_with cl 1) [''lighthouse'', ''teku'', ''prysm'', ''lodestar'']"

text \<open>The loop that cuts the participants down to a total.\<close>

fun adjust_participants :: "int \<Rightarrow> int \<Rightarrow> participant list \<Rightarrow> participant list" where
  "adjust_participants wanted current [] = []"
| "adjust_participants wanted current (p # ps) =
     (if wanted \<le> current then []
      else let n = (if wanted < current + pt_count p then wanted - current else pt_count p)
           in p\<lparr>pt_count := n\<rparr> # adjust_participants wanted (current + n) ps)"

definition create_participant_config :: "network_config \<Rightarrow> participant list" where
  "create_participant_config c =
     (let wanted = get_participants c in
      if 4 < wanted then
        default_participants @ [geth_with ''lodestar'' 1]
        @ (if 5 < wanted then [geth_with ''grandine'' (wanted - 5)] else [])
      else if wanted < 4 then adjust_participants wanted 0 default_participants
      else default_participants)"

record run_options =
  ro_orphan :: bool
  ro_enclave :: "string option"
  ro_timeout :: int
  ro_nat_ip :: string
  ro_el_port :: int
  ro_cl_port :: int
  ro_debug :: bool
  ro_participants :: "participant list"

definition run_options_of :: "string \<Rightarrow> network_config \<Rightarrow> run_options" where
  "run_options_of nat_ip c = \<lparr>ro_orphan = nc_keep_alive c,
     ro_enclave = (if nc_name c \<noteq> [] then Some (nc_name c) else None), ro_timeout = nc_timeout c,
     ro_nat_ip = nat_ip, ro_el_port = 32000 + nc_port_offset c, ro_cl_port = 33000 + nc_port_offset c,
     ro_debug = nc_test_net c, ro_participants = create_participant_config c\<rparr>"

text \<open>\<open>GetNATExitIP\<close>: the addresses of \<open>docker0\<close>, a \<open>net.IPNet\<close> with an IPv4 form as its text.\<close>

fun first_ipv4 :: "string option list \<Rightarrow> string option" where
  "first_ipv4 [] = None"
| "first_ipv4 (Some ip # _) = Some ip"
| "first_ipv4 (None # as) = first_ipv4 as"

definition get_nat_exit_ip :: "string \<Rightarrow> string + string option list \<Rightarrow> string" where
  "get_nat_exit_ip goos docker0 =
     (if goos = ''darwin'' \<or> goos = ''windows'' then ''127.0.0.1''
      else case docker0 of
             Inl _ \<Rightarrow> ''172.17.0.1''
           | Inr addrs \<Rightarrow> (case first_ipv4 addrs of Some ip \<Rightarrow> ip | None \<Rightarrow> ''172.17.0.1''))"

section \<open>Waiting for a network\<close>

text \<open>
  What a wait returns: \<open>Done None\<close> is success. A list that ends before the wait does stands for a wait
  that is still running; the context of the caller has a deadline, so that it ends there.
\<close>

datatype wait_end = Done "string option" | Still

datatype health_event = HealthContext string | HealthTimeout | HealthTick bool

fun wait_healthy :: "bool \<Rightarrow> health_event list \<Rightarrow> wait_end" where
  "wait_healthy True es = Done None"
| "wait_healthy False [] = Still"
| "wait_healthy False (HealthContext e # es) = Done (Some e)"
| "wait_healthy False (HealthTimeout # es) = Done (Some ''timeout waiting for beacon node to be healthy'')"
| "wait_healthy False (HealthTick h # es) = wait_healthy h es"

text \<open>A look of the genesis loop: a cancelled context, or the slot of the wall clock and the time since the start.\<close>

datatype genesis_look = GenesisContext string | GenesisLook "nat option" int

fun wait_slot :: "genesis_look list \<Rightarrow> wait_end" where
  "wait_slot [] = Still"
| "wait_slot (GenesisContext e # ls) = Done (Some (err_wrap ''context cancelled while waiting for genesis'' e))"
| "wait_slot (GenesisLook slot elapsed # ls) =
     (if (case slot of Some n \<Rightarrow> 0 < n | None \<Rightarrow> False) then Done None
      else if 3 * 60 * second < elapsed then Done (Some ''timeout waiting for genesis'')
      else wait_slot ls)"

record client_info =
  ci_name :: string
  ci_type :: string
  ci_url :: string

definition wait_for_genesis :: "client_info list \<Rightarrow> bool \<Rightarrow> health_event list \<Rightarrow> genesis_look list \<Rightarrow> wait_end" where
  "wait_for_genesis clients healthy health looks =
     (if clients = [] then Done (Some ''no consensus clients available'')
      else case wait_healthy healthy health of
             Done None \<Rightarrow> wait_slot looks
           | r \<Rightarrow> r)"

text \<open>
  \<open>initializeBeaconClients\<close>: \<open>start\<close> is the result of starting the beacon node of a client. The nodes it
  started are returned as well, on the error branch too.
\<close>

fun start_clients :: "(client_info \<Rightarrow> wait_end) \<Rightarrow> client_info list \<Rightarrow> wait_end \<times> string list" where
  "start_clients start [] = (Done None, [])"
| "start_clients start (c # cs) =
     (case start c of
        Still \<Rightarrow> (Still, [])
      | Done (Some e) \<Rightarrow> (Done (Some (err_wrap (''failed to start beacon node '' @ ci_name c) e)), [])
      | Done None \<Rightarrow> (case start_clients start cs of (r, names) \<Rightarrow> (r, ci_name c # names)))"

datatype ticker = TickContext string | Tick int

fun wait_ticks :: "ticker list \<Rightarrow> wait_end" where
  "wait_ticks [] = Still"
| "wait_ticks (TickContext e # ts) = Done (Some (err_wrap ''context cancelled while waiting for beacon nodes'' e))"
| "wait_ticks (Tick elapsed # ts) = (if 5 * second < elapsed then Done None else wait_ticks ts)"

definition initialize_beacon_clients ::
  "(client_info \<Rightarrow> wait_end) \<Rightarrow> client_info list \<Rightarrow> ticker list \<Rightarrow> wait_end \<times> string list" where
  "initialize_beacon_clients start clients ticks =
     (if clients = [] then (Done (Some ''no consensus clients found''), [])
      else case start_clients start clients of
             (Done None, names) \<Rightarrow> (wait_ticks ticks, names)
           | stopped \<Rightarrow> stopped)"

section \<open>The manager\<close>

record 'n setup_answers =
  sa_run :: "string + 'n"
  sa_clients :: "client_info list"
  sa_healthy :: bool
  sa_health :: "health_event list"
  sa_looks :: "genesis_look list"
  sa_start :: "client_info \<Rightarrow> wait_end"
  sa_ticks :: "ticker list"
  sa_cleanup :: "string option"

record 'n test_foundation =
  tf_config :: network_config
  tf_network :: 'n
  tf_nat :: bool
  tf_clients :: "string list"

record 'n managed =
  mn_network :: 'n
  mn_foundation :: "'n test_foundation"
  mn_refs :: int

text \<open>
  The manager with the engine below it: the networks that run, and the beacon nodes that were
  started for them. \<open>createdAt\<close> is only logged.
\<close>

record 'n net_manager =
  nm_instances :: "(string \<times> 'n managed) list"
  nm_running :: "'n list"
  nm_nodes :: "string list"

definition new_net_manager :: "'n net_manager" where
  "new_net_manager = \<lparr>nm_instances = [], nm_running = [], nm_nodes = []\<rparr>"

datatype 'n setup_end = SetupOk "'n test_foundation" | SetupError string | SetupWaits

definition engine_cleanup :: "'n \<Rightarrow> string option \<Rightarrow> 'n net_manager \<Rightarrow> 'n net_manager" where
  "engine_cleanup n res m = (case res of None \<Rightarrow> m\<lparr>nm_running := remove1 n (nm_running m)\<rparr> | Some _ \<Rightarrow> m)"

definition setup_kurtosis_network ::
  "network_config \<Rightarrow> 'n setup_answers \<Rightarrow> 'n net_manager \<Rightarrow> 'n setup_end \<times> 'n net_manager" where
  "setup_kurtosis_network c a m =
     (case sa_run a of
        Inl e \<Rightarrow> (SetupError (err_wrap ''failed to create Ethereum network'' e), m)
      | Inr n \<Rightarrow>
          (let m1 = m\<lparr>nm_running := n # nm_running m\<rparr>
           in case wait_for_genesis (sa_clients a) (sa_healthy a) (sa_health a) (sa_looks a) of
                Still \<Rightarrow> (SetupWaits, m1)
              | Done (Some e) \<Rightarrow>
                  (SetupError (err_wrap ''failed to wait for genesis'' e), engine_cleanup n (sa_cleanup a) m1)
              | Done None \<Rightarrow>
                  (case initialize_beacon_clients (sa_start a) (sa_clients a) (sa_ticks a) of
                     (r, names) \<Rightarrow>
                       (let m2 = m1\<lparr>nm_nodes := names @ nm_nodes m1\<rparr>
                        in case r of
                             Still \<Rightarrow> (SetupWaits, m2)
                           | Done (Some e) \<Rightarrow>
                               (SetupError (err_wrap ''failed to initialize beacon clients'' e),
                                engine_cleanup n (sa_cleanup a) m2)
                           | Done None \<Rightarrow>
                               (SetupOk \<lparr>tf_config = c, tf_network = n, tf_nat = nc_test_net c,
                                         tf_clients = names\<rparr>, m2)))))"

definition get_test_network ::
  "network_config \<Rightarrow> 'n setup_answers \<Rightarrow> 'n net_manager \<Rightarrow> 'n setup_end \<times> 'n net_manager" where
  "get_test_network c a m =
     (case map_of (nm_instances m) (nc_name c) of
        Some mn \<Rightarrow>
          (SetupOk \<lparr>tf_config = c, tf_network = mn_network mn, tf_nat = tf_nat (mn_foundation mn),
                    tf_clients = tf_clients (mn_foundation mn)\<rparr>,
           m\<lparr>nm_instances := AList.update (nc_name c) (mn\<lparr>mn_refs := mn_refs mn + 1\<rparr>) (nm_instances m)\<rparr>)
      | None \<Rightarrow>
          (case setup_kurtosis_network c a m of
             (SetupOk tf, m') \<Rightarrow>
               (SetupOk tf,
                m'\<lparr>nm_instances := AList.update (nc_name c)
                      \<lparr>mn_network = tf_network tf, mn_foundation = tf, mn_refs = 1\<rparr> (nm_instances m')\<rparr>)
           | (SetupError e, m') \<Rightarrow> (SetupError (err_wrap ''failed to setup Kurtosis network'' e), m')
           | (SetupWaits, m') \<Rightarrow> (SetupWaits, m')))"

text \<open>What runs when a test is over: one user less, and the network stays.\<close>

definition cleanup_test_network :: "network_config \<Rightarrow> 'n net_manager \<Rightarrow> 'n net_manager" where
  "cleanup_test_network c m =
     (case map_of (nm_instances m) (nc_name c) of
        None \<Rightarrow> m
      | Some mn \<Rightarrow> m\<lparr>nm_instances := AList.update (nc_name c) (mn\<lparr>mn_refs := mn_refs mn - 1\<rparr>) (nm_instances m)\<rparr>)"

definition enclave_gone :: "string \<Rightarrow> bool" where
  "enclave_gone e \<longleftrightarrow> str_contains e (''Couldn'' @ [CHR 0x27] @ ''t find enclave'') \<or> str_contains e ''No enclave with identifier''
     \<or> str_contains e ''enclave not found''"

definition force_cleanup_network ::
  "string \<Rightarrow> string option \<Rightarrow> 'n net_manager \<Rightarrow> string option \<times> 'n net_manager" where
  "force_cleanup_network name res m =
     (case map_of (nm_instances m) name of
        None \<Rightarrow> (None, m)
      | Some mn \<Rightarrow>
          (let m1 = engine_cleanup (mn_network mn) res m
           in case res of
                Some e \<Rightarrow>
                  if enclave_gone e then (None, m1\<lparr>nm_instances := AList.delete name (nm_instances m1)\<rparr>)
                  else (Some (err_wrap (''failed to cleanup network '' @ name) e), m1)
              | None \<Rightarrow> (None, m1\<lparr>nm_instances := AList.delete name (nm_instances m1)\<rparr>)))"

section \<open>Helpers of the tests\<close>

datatype node_event = NodeContext string | NodeStart string | NodeTick bool

fun wait_for_beacon_node :: "string \<Rightarrow> node_event list \<Rightarrow> wait_end" where
  "wait_for_beacon_node name [] = Still"
| "wait_for_beacon_node name (NodeContext e # es) =
     Done (Some (err_wrap (''timeout waiting for beacon node '' @ name @ '' to be healthy'') e))"
| "wait_for_beacon_node name (NodeStart e # es) =
     Done (Some (err_wrap (''beacon node '' @ name @ '' failed to start'') e))"
| "wait_for_beacon_node name (NodeTick h # es) = (if h then Done None else wait_for_beacon_node name es)"

text \<open>\<open>pick\<close> is \<open>rand.Intn\<close>.\<close>

definition get_random_beacon_client :: "(nat \<Rightarrow> nat) \<Rightarrow> 'n test_foundation option \<Rightarrow> string + string" where
  "get_random_beacon_client pick tf =
     (case tf of
        None \<Rightarrow> Inl ''foundation is nil''
      | Some f \<Rightarrow>
          if tf_clients f = [] then Inl ''no beacon clients available''
          else Inr (tf_clients f ! pick (length (tf_clients f))))"

text \<open>
  \<open>AssertNetworkHealth\<close> once all checks are in: \<open>results\<close> in the order they arrived; the answer is the
  message of \<open>t.Fatalf\<close>, if it is called.
\<close>

fun join_lines :: "string list \<Rightarrow> string" where
  "join_lines [] = []"
| "join_lines [l] = l"
| "join_lines (l # ls) = l @ CHR 0x0A # join_lines ls"

definition assert_network_health :: "(string \<times> string option) list \<Rightarrow> string option" where
  "assert_network_health results =
     (let bad = concat (map (\<lambda>(name, err). case err of Some e \<Rightarrow> [err_wrap name e] | None \<Rightarrow> []) results)
      in if bad = [] then None
         else Some (''The following beacon nodes are not healthy:'' @ [CHR 0x0A]
                    @ join_lines bad))"

fun find_client :: "string list \<Rightarrow> string \<Rightarrow> client_info list \<Rightarrow> string option" where
  "find_client known wanted [] = None"
| "find_client known wanted (c # cs) =
     (if to_lower (ci_type c) = wanted \<and> ci_name c \<in> set known then Some (ci_name c)
      else find_client known wanted cs)"

definition get_beacon_client_by_type ::
  "(string \<Rightarrow> string) \<Rightarrow> 'n test_foundation option \<Rightarrow> client_info list option \<Rightarrow> string \<Rightarrow> string + string" where
  "get_beacon_client_by_type quote tf clients type =
     (case tf of
        None \<Rightarrow> Inl ''foundation is nil''
      | Some f \<Rightarrow>
          (case clients of
             None \<Rightarrow> Inl ''epgNetwork is nil''
           | Some cs \<Rightarrow>
               if type = [] then Inl ''clientType cannot be empty''
               else if cs = [] then Inl ''no consensus clients available in network''
               else case find_client (tf_clients f) (to_lower type) cs of
                      Some name \<Rightarrow> Inr name
                    | None \<Rightarrow> Inl (''no beacon client found with type '' @ quote type)))"

section \<open>Properties of the configuration\<close>

lemma merge_configs_nil: "merge_configs None c = c" "merge_configs c None = c"
  by (simp_all add: merge_configs_def split: option.split)

lemma merge_configs_some_assoc:
  "merge_configs (merge_configs (Some a) (Some b)) (Some c) = merge_configs (Some a) (merge_configs (Some b) (Some c))"
  by (simp add: merge_configs_def)

text \<open>
  layering configurations does not depend on how the layers are grouped, and a missing layer
  changes nothing; a layer that sets neither flag, like the one an empty environment gives, turns
  the flags of the layers below off and keeps the rest.
\<close>

theorem merge_configs_layers:
  "merge_configs (merge_configs a b) c = merge_configs a (merge_configs b c)
   \<and> merge_configs None c = c \<and> merge_configs c None = c
   \<and> merge_configs (Some d) (Some zero_network_config) = Some (d\<lparr>nc_keep_alive := False, nc_test_net := False\<rparr>)"
proof -
  have "merge_configs (merge_configs a b) c = merge_configs a (merge_configs b c)"
    by (cases a; cases b; cases c) (simp_all add: merge_configs_nil merge_configs_some_assoc)
  then show ?thesis by (simp add: merge_configs_nil) (simp add: merge_configs_def zero_network_config_def)
qed

text \<open>The environment: nothing set gives the zero configuration, which has neither name nor participants.\<close>

lemma config_from_empty_environment:
  "config_from_environment quote parse_duration (\<lambda>_. []) = Inr zero_network_config"
  by (simp add: config_from_environment_def read_env_def Let_def)

definition participant_total :: "participant list \<Rightarrow> int" where
  "participant_total ps = sum_list (map pt_count ps)"

lemma adjust_participants_total:
  assumes "current \<le> wanted" "\<forall>p \<in> set ps. 1 \<le> pt_count p"
  shows "participant_total (adjust_participants wanted current ps) = min (wanted - current) (participant_total ps)
    \<and> (\<forall>p \<in> set (adjust_participants wanted current ps). 1 \<le> pt_count p)"
  using assms
proof (induction ps arbitrary: current)
  case Nil
  then show ?case by (simp add: participant_total_def)
next
  case (Cons p ps)
  have tail: "0 \<le> participant_total ps" if "\<forall>p \<in> set ps. 1 \<le> pt_count p"
    using that unfolding participant_total_def by (induction ps) auto
  show ?case
  proof (cases "wanted = current")
    case True
    with Cons.prems tail show ?thesis by (auto simp: participant_total_def)
  next
    case False
    let ?n = "if wanted < current + pt_count p then wanted - current else pt_count p"
    have "participant_total (adjust_participants wanted (current + ?n) ps) = min (wanted - (current + ?n)) (participant_total ps)
      \<and> (\<forall>p \<in> set (adjust_participants wanted (current + ?n) ps). 1 \<le> pt_count p)"
      using Cons.prems False by (intro Cons.IH) auto
    moreover have "adjust_participants wanted current (p # ps)
        = p\<lparr>pt_count := ?n\<rparr> # adjust_participants wanted (current + ?n) ps"
      using False Cons.prems by (simp add: Let_def)
    moreover have "1 \<le> ?n" using Cons.prems False by auto
    ultimately show ?thesis using Cons.prems tail by (auto simp: participant_total_def)
  qed
qed

text \<open>
  the participants of a network add up to the configured number, each entry has at least one,
  and with a number that is not positive, as in a configuration taken from the environment alone,
  the network has none.
\<close>

theorem participants_add_up:
  "participant_total (create_participant_config c) = max 0 (nc_participants c)
   \<and> list_all (\<lambda>p. 1 \<le> pt_count p) (create_participant_config c)
   \<and> (create_participant_config c = [] \<longleftrightarrow> nc_participants c \<le> 0)"
proof -
  have default: "participant_total default_participants = 4" "\<forall>p \<in> set default_participants. 1 \<le> pt_count p"
    by (simp_all add: participant_total_def default_participants_def geth_with_def)
  show ?thesis
  proof (cases "nc_participants c < 4")
    case few: True
    show ?thesis
    proof (cases "nc_participants c \<le> 0")
      case True
      then show ?thesis
        by (simp add: create_participant_config_def get_participants_def default_participants_def participant_total_def)
    next
      case False
      with few have "create_participant_config c = adjust_participants (nc_participants c) 0 default_participants"
        by (simp add: create_participant_config_def get_participants_def)
      moreover have "adjust_participants (nc_participants c) 0 default_participants \<noteq> []"
        using False by (simp add: default_participants_def Let_def)
      ultimately show ?thesis
        using adjust_participants_total [of 0 "nc_participants c" default_participants] default False few
        by (auto simp: list_all_iff)
    qed
  next
    case False
    then show ?thesis
      using default
      by (auto simp: create_participant_config_def get_participants_def participant_total_def geth_with_def list_all_iff
          default_participants_def Let_def)
  qed
qed

section \<open>Properties of the manager\<close>

text \<open>An operation with the answers of the engine; a cleanup may fail, but the one after a failed set-up may not.\<close>

datatype 'n net_op =
    GetOp network_config "'n setup_answers" | TestEnds network_config | ForceOp string "string option"

fun net_do :: "'n net_op \<Rightarrow> 'n net_manager \<Rightarrow> 'n net_manager" where
  "net_do (GetOp c a) m = snd (get_test_network c a m)"
| "net_do (TestEnds c) m = cleanup_test_network c m"
| "net_do (ForceOp name res) m = snd (force_cleanup_network name res m)"

text \<open>The answer "no such enclave" is true of no network that the manager runs.\<close>

fun honest :: "'n net_op \<Rightarrow> 'n net_manager \<Rightarrow> bool" where
  "honest (GetOp c a) m \<longleftrightarrow> sa_cleanup a = None \<and> fst (get_test_network c a m) \<noteq> SetupWaits"
| "honest (TestEnds c) m \<longleftrightarrow> True"
| "honest (ForceOp name res) m \<longleftrightarrow> (case res of Some e \<Rightarrow> \<not> enclave_gone e | None \<Rightarrow> True)"

inductive net_step :: "'n net_manager \<Rightarrow> 'n net_op \<Rightarrow> 'n net_manager \<Rightarrow> bool" where
  "honest op m \<Longrightarrow> net_step m op (net_do op m)"

inductive_cases net_step_elim: "net_step m op m'"

definition held_networks :: "'n net_manager \<Rightarrow> 'n multiset" where
  "held_networks m = mset (map (\<lambda>(_, mn). mn_network mn) (nm_instances m))"

definition net_inv :: "'n net_manager \<Rightarrow> bool" where
  "net_inv m \<longleftrightarrow> distinct (map fst (nm_instances m)) \<and> mset (nm_running m) = held_networks m"

text \<open>How the books move with the association list of the instances.\<close>

definition networks_of :: "(string \<times> 'n managed) list \<Rightarrow> 'n multiset" where
  "networks_of al = mset (map (\<lambda>(_, mn). mn_network mn) al)"

lemma networks_of_new: "map_of al k = None \<Longrightarrow> networks_of (AList.update k v al) = networks_of al + {#mn_network v#}"
  by (induction al) (auto simp: networks_of_def)

lemma networks_of_same:
  "map_of al k = Some v \<Longrightarrow> mn_network v' = mn_network v \<Longrightarrow> networks_of (AList.update k v' al) = networks_of al"
  by (induction al) (auto simp: networks_of_def split: if_splits)

lemma networks_of_delete:
  "distinct (map fst al) \<Longrightarrow> map_of al k = Some v \<Longrightarrow> networks_of al = networks_of (AList.delete k al) + {#mn_network v#}"
proof (induction al)
  case (Cons x al)
  show ?case
  proof (cases "fst x = k")
    case True
    with Cons.prems have "AList.delete k al = al" by (intro delete_id) auto
    with True Cons.prems show ?thesis by (cases x) (auto simp: networks_of_def)
  next
    case False
    with Cons show ?thesis by (auto simp: networks_of_def)
  qed
qed simp

lemma held_networks_eq: "held_networks m = networks_of (nm_instances m)"
  by (simp add: held_networks_def networks_of_def)

text \<open>A set-up runs one more network exactly if it succeeds, and does not touch the instances.\<close>

lemma setup_books:
  assumes "setup_kurtosis_network c a m = (r, m')" "sa_cleanup a = None" "r \<noteq> SetupWaits"
  shows "nm_instances m' = nm_instances m \<and>
    (case r of SetupOk tf \<Rightarrow> mset (nm_running m') = mset (nm_running m) + {#tf_network tf#}
     | _ \<Rightarrow> nm_running m' = nm_running m)"
  using assms
  by (auto simp: setup_kurtosis_network_def engine_cleanup_def Let_def
      split: sum.splits wait_end.splits option.splits prod.splits)

lemma net_inv_step:
  assumes "net_inv m" "honest op m"
  shows "net_inv (net_do op m)"
proof (cases op)
  case (GetOp c a)
  show ?thesis
  proof (cases "map_of (nm_instances m) (nc_name c)")
    case None
    obtain r m' where s: "setup_kurtosis_network c a m = (r, m')" by fastforce
    have "r \<noteq> SetupWaits" using assms(2) GetOp None s by (auto simp: get_test_network_def)
    with setup_books [OF s] GetOp assms None s show ?thesis
      by (auto simp: get_test_network_def net_inv_def held_networks_eq networks_of_new distinct_update split: setup_end.splits)
  next
    case (Some mn)
    with GetOp assms show ?thesis
      by (simp add: get_test_network_def net_inv_def held_networks_eq networks_of_same distinct_update)
  qed
next
  case (TestEnds c)
  with assms show ?thesis
    by (auto simp: cleanup_test_network_def net_inv_def held_networks_eq networks_of_same distinct_update split: option.split)
next
  case (ForceOp name res)
  show ?thesis
  proof (cases "map_of (nm_instances m) name")
    case None
    with ForceOp assms show ?thesis by (simp add: force_cleanup_network_def)
  next
    case (Some mn)
    then show ?thesis
      using ForceOp assms networks_of_delete [OF _ Some]
      by (auto simp: force_cleanup_network_def net_inv_def held_networks_eq engine_cleanup_def distinct_delete Let_def
          split: option.splits)
  qed
qed

interpretation test_nets: step_machine "\<lambda>m. m = new_net_manager" net_step net_inv
proof
  show "net_inv m" if "m = new_net_manager" for m :: "'a net_manager"
    using that by (simp add: net_inv_def held_networks_def new_net_manager_def)
  show "net_inv m'" if "net_inv m" "net_step m op m'" for m m' :: "'a net_manager" and op
    using that net_inv_step by (auto elim: net_step_elim)
qed

lemma nothing_held: "held_networks m = {#} \<longleftrightarrow> nm_instances m = []"
  by (simp add: held_networks_def)

text \<open>
  whatever tests ask for networks, end, and clean up, in any order: the networks that run are
  exactly those the manager knows, so that none runs once the manager knows none. The end of a
  test stops nothing, however many users are left.
\<close>

theorem test_networks_balanced:
  assumes "reachable (\<lambda>m. m = new_net_manager) net_step m"
  shows "mset (nm_running m) = held_networks m \<and> (nm_instances m = [] \<longrightarrow> nm_running m = [])
    \<and> nm_running (cleanup_test_network c m) = nm_running m"
proof -
  have "net_inv m" by (rule test_nets.inv_reachable [OF assms])
  then show ?thesis
    using nothing_held [of m] by (auto simp: net_inv_def cleanup_test_network_def split: option.split)
qed

definition ready_answers :: "nat setup_answers" where
  "ready_answers = \<lparr>sa_run = Inr 9, sa_clients = [\<lparr>ci_name = ''cl-1'', ci_type = ''teku'', ci_url = ''http://cl-1''\<rparr>],
     sa_healthy = False, sa_health = [HealthTick True], sa_looks = [GenesisLook None 0, GenesisLook (Some 3) 5],
     sa_start = (\<lambda>_. Done None), sa_ticks = [Tick 1, Tick 6000000000], sa_cleanup = None\<rparr>"

lemma get_ready:
  "\<exists>tf m'. get_test_network c ready_answers new_net_manager = (SetupOk tf, m')
     \<and> tf_network tf = 9 \<and> tf_clients tf = [''cl-1''] \<and> nm_running m' = [9]
     \<and> map_of (nm_instances m') (nc_name c) = Some \<lparr>mn_network = 9, mn_foundation = tf, mn_refs = 1\<rparr>"
  by (simp add: get_test_network_def new_net_manager_def setup_kurtosis_network_def ready_answers_def wait_for_genesis_def
      initialize_beacon_clients_def second_def Let_def)

lemma test_networks_balanced_witness:
  "\<exists>m. nm_running m = [9::nat] \<and> mset (nm_running m) = held_networks m"
proof -
  let ?c = default_network_config
  obtain tf m' where g: "get_test_network ?c ready_answers new_net_manager = (SetupOk tf, m')" and run: "nm_running m' = [9]"
    using get_ready by blast
  have "honest (GetOp ?c ready_answers) new_net_manager" using g by (simp add: ready_answers_def)
  from net_step.intros [OF this] g have step: "net_step new_net_manager (GetOp ?c ready_answers) m'" by simp
  have "reachable (\<lambda>m. m = new_net_manager) net_step (new_net_manager :: nat net_manager)" by (rule reach_init) simp
  then have "reachable (\<lambda>m. m = new_net_manager) net_step m'" using step by (rule reach_step [where step = net_step])
  from test_networks_balanced [OF this] run show ?thesis by blast
qed

text \<open>
  a second request for a network gives the network and the clients of the first and starts
  nothing, whatever else its configuration asks for, and whatever the engine would answer.
\<close>

theorem test_network_reused:
  assumes "get_test_network c a m = (SetupOk tf, m1)" "nc_name c' = nc_name c"
  shows "\<exists>m2 tf'. get_test_network c' a' m1 = (SetupOk tf', m2) \<and> tf_network tf' = tf_network tf
    \<and> tf_clients tf' = tf_clients tf \<and> tf_nat tf' = tf_nat tf
    \<and> nm_running m2 = nm_running m1 \<and> nm_nodes m2 = nm_nodes m1"
  using assms
  by (auto simp: get_test_network_def update_conv' split: option.splits prod.splits setup_end.splits)

lemma test_network_reused_witness:
  "\<exists>m1 tf m2 tf'. get_test_network default_network_config ready_answers new_net_manager = (SetupOk tf, m1)
     \<and> get_test_network (default_network_config\<lparr>nc_participants := 9\<rparr>) (ready_answers\<lparr>sa_run := Inl ''no''\<rparr>) m1 = (SetupOk tf', m2)
     \<and> tf_network tf' = tf_network tf"
proof -
  obtain tf m1 where g: "get_test_network default_network_config ready_answers new_net_manager = (SetupOk tf, m1)"
    using get_ready by blast
  from test_network_reused [OF g, of "default_network_config\<lparr>nc_participants := 9\<rparr>" "ready_answers\<lparr>sa_run := Inl ''no''\<rparr>"] g
  show ?thesis by auto
qed

section \<open>Properties of the helpers\<close>

lemma find_client_eq:
  "find_client known wanted cs
     = map_option ci_name (List.find (\<lambda>c. to_lower (ci_type c) = wanted \<and> ci_name c \<in> set known) cs)"
  by (induction cs) auto

text \<open>Only health counts for the check of a network, not the order in which the answers came in.\<close>

lemma assert_network_health_iff:
  "assert_network_health results = None \<longleftrightarrow> (\<forall>(name, err) \<in> set results. err = None)"
proof -
  have "concat (map (\<lambda>(name, err). case err of Some e \<Rightarrow> [err_wrap name e] | None \<Rightarrow> []) results) = []
    \<longleftrightarrow> (\<forall>(name, err) \<in> set results. err = None)"
    by (induction results) (auto split: option.splits)
  then show ?thesis by (simp only: assert_network_health_def Let_def split: if_split) simp
qed

end
