(* ===== verification/TestLock.thy ===== *)
theory TestLock
  imports Interfaces
begin

text \<open>
  The lock that test processes take before they start a network
  (\<open>pkg/testutil/kurtosis/test_lock.go\<close>): a directory all of them try to create. One step is
  one system call of one process; any time may pass between two steps, so the pause between
  two attempts needs no step of its own. Times are milliseconds. The prints are left out.
\<close>

section \<open>Processes\<close>

text \<open>
  Where a process is in \<open>AcquireTestLock\<close>: \<open>Trying\<close> before \<open>os.Mkdir\<close>, \<open>Found\<close> after it failed because the
  directory exists, \<open>Stale\<close> before \<open>os.RemoveAll\<close>, \<open>Resting\<close> before the test of the time limit (each with the
  start time of the wait), \<open>Made\<close> before its pid file is written, \<open>Held\<close> after the return.
\<close>

datatype lock_state =
    Outside | Trying nat | Found nat | Stale nat | Resting nat | Made | Held | Panicked | Crashed

record lock_world =
  lw_now :: nat
  lw_dir :: "nat option"
  lw_proc :: "nat \<Rightarrow> lock_state"

definition stale_age :: nat where "stale_age = 120000"
definition acquire_timeout :: nat where "acquire_timeout = 300000"

definition move :: "nat \<Rightarrow> lock_state \<Rightarrow> lock_world \<Rightarrow> lock_world" where
  "move p s w = w\<lparr>lw_proc := (lw_proc w)(p := s)\<rparr>"

definition holds :: "lock_world \<Rightarrow> nat \<Rightarrow> bool" where
  "holds w p \<longleftrightarrow> lw_proc w p = Made \<or> lw_proc w p = Held"

text \<open>\<open>os.Mkdir(testLockDir, 0755)\<close>; it can also fail for another reason than an existing directory.\<close>

definition lock_mkdir :: "nat \<Rightarrow> nat \<Rightarrow> lock_world \<Rightarrow> lock_world" where
  "lock_mkdir p start w =
     (case lw_dir w of
        None \<Rightarrow> move p Made (w\<lparr>lw_dir := Some (lw_now w)\<rparr>)
      | Some _ \<Rightarrow> move p (Found start) w)"

text \<open>Writing the pid file touches the directory; its errors are ignored.\<close>

definition lock_write_pid :: "nat \<Rightarrow> lock_world \<Rightarrow> lock_world" where
  "lock_write_pid p w = move p Held (w\<lparr>lw_dir := map_option (\<lambda>_. lw_now w) (lw_dir w)\<rparr>)"

definition lock_stat :: "nat \<Rightarrow> nat \<Rightarrow> lock_world \<Rightarrow> lock_world" where
  "lock_stat p start w =
     (case lw_dir w of
        Some mtime \<Rightarrow> move p (if stale_age < lw_now w - mtime then Stale start else Resting start) w
      | None \<Rightarrow> move p (Resting start) w)"

text \<open>\<open>os.RemoveAll(testLockDir)\<close> and \<open>continue\<close>\<close>

definition lock_remove :: "nat \<Rightarrow> nat \<Rightarrow> lock_world \<Rightarrow> lock_world" where
  "lock_remove p start w = move p (Trying start) (w\<lparr>lw_dir := None\<rparr>)"

definition lock_rest :: "nat \<Rightarrow> nat \<Rightarrow> lock_world \<Rightarrow> lock_world" where
  "lock_rest p start w =
     move p (if acquire_timeout < lw_now w - start then Panicked else Trying start) w"

definition release_test_lock :: "nat \<Rightarrow> lock_world \<Rightarrow> lock_world" where
  "release_test_lock p w = move p Outside (w\<lparr>lw_dir := None\<rparr>)"

section \<open>The machine\<close>

text \<open>\<open>prompt\<close>: no process crashes with the lock or keeps it for more than two minutes.\<close>

datatype lock_label =
    Pass nat | Acquire nat | Mkdir nat | MkdirFails nat | WritePid nat | Stat nat | Remove nat | Rest nat
  | Release nat | Crash nat

definition may_pass :: "bool \<Rightarrow> nat \<Rightarrow> lock_world \<Rightarrow> bool" where
  "may_pass prompt d w \<longleftrightarrow>
     (prompt \<longrightarrow> (case lw_dir w of None \<Rightarrow> True | Some mtime \<Rightarrow> lw_now w + d - mtime \<le> stale_age))"

fun lock_do :: "bool \<Rightarrow> lock_label \<Rightarrow> lock_world \<Rightarrow> lock_world option" where
  "lock_do prompt (Pass d) w = (if may_pass prompt d w then Some (w\<lparr>lw_now := lw_now w + d\<rparr>) else None)"
| "lock_do prompt (Acquire p) w = (if lw_proc w p = Outside then Some (move p (Trying (lw_now w)) w) else None)"
| "lock_do prompt (Mkdir p) w = (case lw_proc w p of Trying s \<Rightarrow> Some (lock_mkdir p s w) | _ \<Rightarrow> None)"
| "lock_do prompt (MkdirFails p) w = (case lw_proc w p of Trying s \<Rightarrow> Some (move p (Resting s) w) | _ \<Rightarrow> None)"
| "lock_do prompt (WritePid p) w = (if lw_proc w p = Made then Some (lock_write_pid p w) else None)"
| "lock_do prompt (Stat p) w = (case lw_proc w p of Found s \<Rightarrow> Some (lock_stat p s w) | _ \<Rightarrow> None)"
| "lock_do prompt (Remove p) w = (case lw_proc w p of Stale s \<Rightarrow> Some (lock_remove p s w) | _ \<Rightarrow> None)"
| "lock_do prompt (Rest p) w = (case lw_proc w p of Resting s \<Rightarrow> Some (lock_rest p s w) | _ \<Rightarrow> None)"
| "lock_do prompt (Release p) w = (if lw_proc w p = Held then Some (release_test_lock p w) else None)"
| "lock_do prompt (Crash p) w = (if prompt then None else Some (move p Crashed w))"

definition lock_init :: "lock_world \<Rightarrow> bool" where
  "lock_init w \<longleftrightarrow> lw_dir w = None \<and> lw_proc w = (\<lambda>_. Outside)"

inductive lock_step :: "bool \<Rightarrow> lock_world \<Rightarrow> lock_label \<Rightarrow> lock_world \<Rightarrow> bool" for prompt where
  "lock_do prompt l w = Some w' \<Longrightarrow> lock_step prompt w l w'"

inductive_simps lock_step_iff: "lock_step prompt w l w'"

section \<open>Invariant\<close>

text \<open>The directory is there exactly while one process holds the lock, and it is never old.\<close>

definition lock_inv :: "lock_world \<Rightarrow> bool" where
  "lock_inv w \<longleftrightarrow>
     (\<forall>p s. lw_proc w p \<noteq> Stale s) \<and>
     (case lw_dir w of
        None \<Rightarrow> \<forall>p. \<not> holds w p
      | Some mtime \<Rightarrow> lw_now w - mtime \<le> stale_age \<and> (\<exists>p. \<forall>q. holds w q \<longleftrightarrow> q = p))"

lemmas lock_defs = lock_mkdir_def lock_write_pid_def lock_stat_def lock_remove_def lock_rest_def
  release_test_lock_def move_def

lemma lock_inv_step:
  assumes "lock_inv w" "lock_do True l w = Some w'"
  shows "lock_inv w'"
proof (cases "lw_dir w")
  case None
  with assms show ?thesis
    by (cases l) (auto simp: lock_inv_def lock_defs holds_def may_pass_def split: if_splits lock_state.splits)
next
  case (Some mtime)
  with assms(1) obtain p where p: "\<forall>q. holds w q \<longleftrightarrow> q = p" and young: "lw_now w - mtime \<le> stale_age"
    and fresh: "\<forall>p s. lw_proc w p \<noteq> Stale s"
    by (auto simp: lock_inv_def)
  have holder: "lw_proc w p = Made \<or> lw_proc w p = Held"
    and sole: "lw_proc w q = Made \<Longrightarrow> q = p" "lw_proc w q = Held \<Longrightarrow> q = p" for q
    using p by (auto simp: holds_def)
  have "(\<forall>p s. lw_proc w' p \<noteq> Stale s) \<and>
    (case lw_dir w' of
       None \<Rightarrow> \<forall>q. \<not> holds w' q
     | Some mtime' \<Rightarrow> lw_now w' - mtime' \<le> stale_age \<and> (\<forall>q. holds w' q \<longleftrightarrow> q = p))"
    using assms(2) Some holder young fresh
    by (cases l)
      (auto simp: lock_defs holds_def may_pass_def dest: sole split: if_splits lock_state.splits, (metis sole)+)
  then show ?thesis by (auto simp: lock_inv_def split: option.splits)
qed

interpretation test_lock: step_machine lock_init "lock_step True" lock_inv
proof
  show "lock_inv w" if "lock_init w" for w
    using that by (simp add: lock_init_def lock_inv_def holds_def)
  show "lock_inv w'" if "lock_inv w" "lock_step True w l w'" for w l w'
    using that lock_inv_step by (auto simp: lock_step_iff)
qed

section \<open>Properties\<close>

fun lock_run :: "bool \<Rightarrow> lock_label list \<Rightarrow> lock_world \<Rightarrow> lock_world option" where
  "lock_run prompt [] w = Some w"
| "lock_run prompt (l # ls) w = Option.bind (lock_do prompt l w) (lock_run prompt ls)"

lemma lock_run_reachable:
  "reachable lock_init (lock_step prompt) w \<Longrightarrow> lock_run prompt ls w = Some w' \<Longrightarrow>
     reachable lock_init (lock_step prompt) w'"
proof (induction ls arbitrary: w)
  case (Cons l ls)
  then obtain v where "lock_do prompt l w = Some v" "lock_run prompt ls v = Some w'"
    by (auto simp: bind_eq_Some_conv)
  with Cons show ?case by (meson lock_step.intros reach_step)
qed simp

definition lock_start :: lock_world where
  "lock_start = \<lparr>lw_now = 0, lw_dir = None, lw_proc = (\<lambda>_. Outside)\<rparr>"

lemma lock_start_reachable: "reachable lock_init (lock_step prompt) lock_start"
  by (rule reach_init) (simp add: lock_init_def lock_start_def)

text \<open>
  C40: while no process crashes with the lock or keeps it for more than two minutes, at most one
  process holds the test lock, in every interleaving of the system calls, and then the directory
  exists exactly while the lock is held: an acquisition that returned was the only one.
\<close>

theorem test_lock_exclusive:
  assumes "reachable lock_init (lock_step True) w" "holds w p" "holds w q"
  shows "p = q \<and> lw_dir w \<noteq> None"
  using test_lock.inv_reachable [OF assms(1)] assms(2,3)
  by (auto simp: lock_inv_def split: option.splits)

definition one_holder :: lock_world where
  "one_holder = \<lparr>lw_now = 5, lw_dir = Some 0, lw_proc = (\<lambda>_. Outside)(7 := Made, 8 := Found 0)\<rparr>"

lemma one_holder_run:
  "lock_run True [Acquire 7, Acquire 8, Mkdir 7, Pass 5, Mkdir 8] lock_start = Some one_holder"
  by (simp add: lock_start_def one_holder_def lock_defs may_pass_def stale_age_def fun_eq_iff)

lemma test_lock_exclusive_witness: "holds one_holder 7 \<and> lw_dir one_holder \<noteq> None"
  using test_lock_exclusive [OF lock_run_reachable [OF lock_start_reachable one_holder_run], of 7 7]
  by (simp add: one_holder_def holds_def)

text \<open>
  Two runs with two holders. In the first a process works for more than two minutes, as a
  network takes to start, and the next one takes its lock for stale. In the second a process crashed; two
  others find its lock stale, and the slower one removes the new lock of the faster one, although no
  one keeps the lock for long. In both the release of one holder removes the lock of the other.
\<close>

definition slow_holder_run :: "lock_label list" where
  "slow_holder_run = [Acquire 1, Mkdir 1, WritePid 1, Pass 120001, Acquire 2, Mkdir 2, Stat 2, Remove 2, Mkdir 2, WritePid 2]"

definition crash_run :: "lock_label list" where
  "crash_run = [Acquire 0, Mkdir 0, WritePid 0, Crash 0, Pass 120001, Acquire 1, Acquire 2, Mkdir 1, Mkdir 2,
     Stat 1, Stat 2, Remove 1, Mkdir 1, WritePid 1, Remove 2, Mkdir 2, WritePid 2]"

definition two_holders :: "lock_label list \<Rightarrow> bool" where
  "two_holders ls \<longleftrightarrow> (\<exists>w.
     reachable lock_init (lock_step False) w \<and> lock_run False ls lock_start = Some w
     \<and> holds w 1 \<and> holds w 2
     \<and> (\<exists>w'. lock_run False [Release 1, Acquire 3, Mkdir 3] w = Some w' \<and> holds w' 2 \<and> holds w' 3))"

text \<open>
  without that promise the lock does not exclude: a holder that needs more than two minutes
  loses its lock to the next process, and after a crash two waiting processes can both get in, the
  second by removing the fresh lock of the first. The release of either then opens the lock to a third.
\<close>

theorem test_lock_broken: "two_holders slow_holder_run \<and> two_holders crash_run"
proof
  have run: "\<exists>w. lock_run False ls lock_start = Some w \<and> holds w 1 \<and> holds w 2
     \<and> (\<exists>w'. lock_run False [Release 1, Acquire 3, Mkdir 3] w = Some w' \<and> holds w' 2 \<and> holds w' 3)"
    if "ls \<in> {slow_holder_run, crash_run}" for ls
    using that by (auto simp: slow_holder_run_def crash_run_def lock_start_def lock_defs may_pass_def stale_age_def holds_def)
  show "two_holders slow_holder_run" and "two_holders crash_run"
    using run lock_run_reachable [OF lock_start_reachable] unfolding two_holders_def by blast+
qed

end
