(* ===== verification/Attestations.thy ===== *)
theory Attestations
  imports Gossip
begin

text \<open>
  The attestation handler that the library gives as its example of a client
  (\<open>pkg/consensus/mimicry/p2p/eth/examples/attestation_handler.go\<close>): a pool of attestations, counters,
  and the subnets it subscribes to on a gossipsub instance of \<open>Gossip\<close>. Of an attestation only what
  the code reads is modelled. The validator and the processor of a subnet are closures over this
  state; \<open>Register\<close> only asks whether they are there, so they are parameters of the subscription,
  and what they do is \<open>validate_attestation\<close> and \<open>process_attestation\<close>.
\<close>

section \<open>The pool\<close>

record attestation =
  at_slot :: u64
  at_committee :: u64
  at_root :: bytes

record att_pool =
  ap_attestations :: "(string \<times> attestation) list"
  ap_by_slot :: "u64 \<Rightarrow> attestation list"
  ap_max_size :: nat

definition new_pool :: "nat \<Rightarrow> att_pool" where
  "new_pool max_size = \<lparr>ap_attestations = [], ap_by_slot = (\<lambda>_. []), ap_max_size = max_size\<rparr>"

definition attestation_key :: "attestation \<Rightarrow> string" where
  "attestation_key att = hex_of_bytes (at_root att) @ ''_'' @ dec_of_nat (unat (at_committee att))"

definition pool_add :: "attestation \<Rightarrow> att_pool \<Rightarrow> string option \<times> att_pool" where
  "pool_add att p =
     (if map_of (ap_attestations p) (attestation_key att) \<noteq> None then (None, p)
      else if ap_max_size p \<le> length (ap_attestations p) then (Some ''attestation pool full'', p)
      else (None, p\<lparr>ap_attestations := ap_attestations p @ [(attestation_key att, att)],
                    ap_by_slot := (ap_by_slot p)(at_slot att := ap_by_slot p (at_slot att) @ [att])\<rparr>))"

definition pool_get_by_slot :: "u64 \<Rightarrow> att_pool \<Rightarrow> attestation list" where
  "pool_get_by_slot slot p = ap_by_slot p slot"

definition pool_count :: "att_pool \<Rightarrow> nat" where
  "pool_count p = length (ap_attestations p)"

section \<open>The handler\<close>

record 'a att_handler =
  ah_pool :: att_pool
  ah_received :: "u64 \<Rightarrow> u64"
  ah_validated :: "u64 \<Rightarrow> u64"
  ah_processed :: "u64 \<Rightarrow> u64"
  ah_validation_errors :: "u64 \<Rightarrow> u64"
  ah_processing_errors :: "u64 \<Rightarrow> u64"
  ah_active :: "(u64 \<times> nat) list"
  ah_gossip :: "'a gossip"

definition increment :: "u64 \<Rightarrow> (u64 \<Rightarrow> u64) \<Rightarrow> (u64 \<Rightarrow> u64)" where
  "increment subnet counts = counts(subnet := counts subnet + 1)"

definition validate_attestation :: "u64 \<Rightarrow> 'a att_handler \<Rightarrow> validation_result \<times> 'a att_handler" where
  "validate_attestation subnet h = (ValidationAccept, h\<lparr>ah_received := increment subnet (ah_received h)\<rparr>)"

definition process_attestation :: "attestation \<Rightarrow> u64 \<Rightarrow> 'a att_handler \<Rightarrow> string option \<times> 'a att_handler" where
  "process_attestation att subnet h =
     (case pool_add att (ah_pool h) of
        (Some e, pool) \<Rightarrow>
          (Some (err_wrap ''failed to add to pool'' e),
           h\<lparr>ah_pool := pool, ah_processing_errors := increment subnet (ah_processing_errors h)\<rparr>)
      | (None, pool) \<Rightarrow> (None, h\<lparr>ah_pool := pool, ah_processed := increment subnet (ah_processed h)\<rparr>))"

definition get_stats :: "u64 \<Rightarrow> 'a att_handler \<Rightarrow> u64 \<times> u64 \<times> u64 \<times> u64 \<times> u64" where
  "get_stats subnet h = (ah_received h subnet, ah_validated h subnet, ah_processed h subnet,
     ah_validation_errors h subnet, ah_processing_errors h subnet)"

text \<open>
  The arguments of one subscription that the closures of the code carry: the embedding of attestations
  into the message type of the instance, validator, processor, score parameters and events.
\<close>

record ('m, 'a) att_setup =
  as_emb :: "'m \<Rightarrow> 'a"
  as_proj :: "'a \<Rightarrow> 'm option"
  as_validator :: "u64 \<Rightarrow> 'm \<Rightarrow> peer_id \<Rightarrow> validation_result"
  as_processor :: "u64 \<Rightarrow> 'm \<Rightarrow> peer_id \<Rightarrow> string option"
  as_score_params :: nat
  as_events :: nat

definition subnet_handler_config :: "('m, 'a) att_setup \<Rightarrow> u64 \<Rightarrow> 'm handler_config" where
  "subnet_handler_config S subnet = new_handler_config
     [with_validator (Some (as_validator S subnet)), with_processor (Some (as_processor S subnet)),
      with_score_params (Some (as_score_params S)), with_events (Some (as_events S))]"

definition subscribe_to_subnet ::
  "ps_lib \<Rightarrow> string list \<Rightarrow> ('m, 'a) att_setup \<Rightarrow> u64 \<Rightarrow> bytes \<Rightarrow> ('a att_handler, fault, unit) act" where
  "subscribe_to_subnet lib order S subnet fork_digest = (\<lambda>h.
     let num = dec_of_nat (unat subnet)
     in if map_of (ah_active h) subnet \<noteq> None then (Inr (), h)
        else case eth_attestation of
          Inl f \<Rightarrow> (Inl f, h)
        | Inr st \<Rightarrow>
            (case topic_for_subnet st subnet fork_digest of
               Inl e \<Rightarrow> (Inl (Err (err_wrap (''failed to create topic for subnet '' @ num) e)), h)
             | Inr t \<Rightarrow>
                 (case new_topic (t_name t) of
                    Inl e \<Rightarrow> (Inl (Err (err_wrap (''failed to create typed topic for subnet '' @ num) e)), h)
                  | Inr typed \<Rightarrow>
                      (case register (as_emb S) (as_proj S) (Some typed) (Some (subnet_handler_config S subnet))
                              (Some (g_registry (ah_gossip h))) of
                         (Inl e, _) \<Rightarrow> (Inl (Err (err_wrap (''failed to register handler for subnet '' @ num) e)), h)
                       | (Inr _, reg) \<Rightarrow>
                           (let g = (ah_gossip h)\<lparr>g_registry := the reg\<rparr>
                            in case subscribe lib order typed g of
                                 (Inl (Err e), g') \<Rightarrow>
                                   (Inl (Err (err_wrap (''failed to subscribe to subnet '' @ num) e)), h\<lparr>ah_gossip := g'\<rparr>)
                               | (Inl (Panic p), g') \<Rightarrow> (Inl (Panic p), h\<lparr>ah_gossip := g'\<rparr>)
                               | (Inr sub, g') \<Rightarrow>
                                   (Inr (), h\<lparr>ah_gossip := g', ah_active := AList.update subnet sub (ah_active h)\<rparr>))))))"

definition unsubscribe_from_subnet :: "u64 \<Rightarrow> 'a att_handler \<Rightarrow> 'a att_handler" where
  "unsubscribe_from_subnet subnet h =
     (case map_of (ah_active h) subnet of
        None \<Rightarrow> h
      | Some sub \<Rightarrow>
          (let g = ah_gossip h
           in h\<lparr>ah_gossip := g\<lparr>g_store := cancel_subscription (Some sub) (g_store g)\<rparr>,
                ah_active := AList.delete subnet (ah_active h)\<rparr>))"

text \<open>
  \<open>rotateSubnets\<close>: \<open>visit\<close> are the active subnets in the order the runtime visits the map, \<open>now\<close> is
  the Unix time. The error of the subscription is only logged.
\<close>

definition rotate_subnets ::
  "ps_lib \<Rightarrow> string list \<Rightarrow> ('m, 'a) att_setup \<Rightarrow> bytes \<Rightarrow> u64 list \<Rightarrow> int \<Rightarrow> 'a att_handler \<Rightarrow> 'a att_handler" where
  "rotate_subnets lib order S fork_digest visit now h =
     (let new_subnet = (if 0 \<le> now then word_of_int now mod AttestationSubnetCount else 0);
          h1 = (if new_subnet \<notin> set visit \<and> length visit < 8
                then snd (subscribe_to_subnet lib order S new_subnet fork_digest h) else h)
      in case visit of [] \<Rightarrow> h1 | old # _ \<Rightarrow> unsubscribe_from_subnet old h1)"

definition get_active_subnets :: "'a att_handler \<Rightarrow> u64 list" where
  "get_active_subnets h = map fst (ah_active h)"

text \<open>The handler of \<open>ExampleAttestationSetup\<close>, and its loop over the initial subnets.\<close>

definition new_att_handler :: "'a gossip \<Rightarrow> 'a att_handler" where
  "new_att_handler g = \<lparr>ah_pool = new_pool 10000, ah_received = (\<lambda>_. 0), ah_validated = (\<lambda>_. 0), ah_processed = (\<lambda>_. 0),
     ah_validation_errors = (\<lambda>_. 0), ah_processing_errors = (\<lambda>_. 0), ah_active = [], ah_gossip = g\<rparr>"

fun subscribe_initial ::
  "ps_lib \<Rightarrow> string list \<Rightarrow> ('m, 'a) att_setup \<Rightarrow> bytes \<Rightarrow> u64 list \<Rightarrow> ('a att_handler, fault, unit) act" where
  "subscribe_initial lib order S fork_digest [] h = (Inr (), h)"
| "subscribe_initial lib order S fork_digest (subnet # rest) h =
     (case subscribe_to_subnet lib order S subnet fork_digest h of
        (Inl (Err e), h') \<Rightarrow> (Inl (Err (err_wrap (''failed to subscribe to subnet '' @ dec_of_nat (unat subnet)) e)), h')
      | (Inl (Panic p), h') \<Rightarrow> (Inl (Panic p), h')
      | (Inr _, h') \<Rightarrow> subscribe_initial lib order S fork_digest rest h')"

definition initial_subnets :: "u64 list" where
  "initial_subnets = [0, 15, 31, 47]"

definition example_fork_digest :: bytes where
  "example_fork_digest = [0x6a, 0x95, 0xa1, 0xa3]"

section \<open>Properties of the pool\<close>

definition pool_ok :: "att_pool \<Rightarrow> bool" where
  "pool_ok p \<longleftrightarrow> length (ap_attestations p) \<le> ap_max_size p \<and> distinct (map fst (ap_attestations p))
     \<and> (\<forall>k a. (k, a) \<in> set (ap_attestations p) \<longrightarrow> k = attestation_key a)
     \<and> (\<forall>slot. ap_by_slot p slot = filter (\<lambda>a. at_slot a = slot) (map snd (ap_attestations p)))"

lemma pool_ok_new: "pool_ok (new_pool n)"
  by (simp add: pool_ok_def new_pool_def)

lemma pool_ok_add: "pool_ok p \<Longrightarrow> pool_ok (snd (pool_add att p))"
  by (auto simp: pool_ok_def pool_add_def map_of_eq_None_iff)

text \<open>The key is the root and the committee of an attestation, whatever its slot.\<close>

lemma attestation_key_eq:
  "attestation_key a = attestation_key b \<longleftrightarrow> at_root a = at_root b \<and> at_committee a = at_committee b"
proof
  assume key: "attestation_key a = attestation_key b"
  have free: "CHR ''_'' \<notin> set (hex_of_bytes bs)" for bs by (rule hex_of_bytes_no_char) code_simp
  have digits: "CHR ''_'' \<notin> set (dec_of_nat n)" for n by (rule dec_of_nat_no_char) code_simp
  have "hex_of_bytes (at_root a) = hex_of_bytes (at_root b)
    \<and> dec_of_nat (unat (at_committee a)) = dec_of_nat (unat (at_committee b))"
    using key append_Cons_eq_iff [OF free digits] by (simp add: attestation_key_def)
  then show "at_root a = at_root b \<and> at_committee a = at_committee b" by (metis hex_decode_encode sum.inject(2) dec_of_nat_eq_iff unsigned_word_eqI)
qed (simp add: attestation_key_def)

text \<open>
  after any sequence of additions the pool holds at most its maximum, the attestations of a slot
  are exactly those of the pool with that slot, in the order they came, and of the attestations with
  one root and one committee index it holds the first only, also when they are for different slots.
\<close>

theorem pool_consistent:
  "let p = foldl (\<lambda>p att. snd (pool_add att p)) (new_pool n) atts
   in pool_count p \<le> n
      \<and> pool_get_by_slot slot p = filter (\<lambda>a. at_slot a = slot) (map snd (ap_attestations p))
      \<and> distinct (map (\<lambda>a. (at_root a, at_committee a)) (map snd (ap_attestations p)))"
proof -
  let ?p = "foldl (\<lambda>p att. snd (pool_add att p)) (new_pool n) atts"
  have max: "ap_max_size (foldl (\<lambda>p att. snd (pool_add att p)) p atts) = ap_max_size p" for p
    by (induction atts arbitrary: p) (simp_all add: pool_add_def)
  have "pool_ok (foldl (\<lambda>p att. snd (pool_add att p)) p atts)" if "pool_ok p" for p
    using that by (induction atts arbitrary: p) (simp_all add: pool_ok_add)
  then have ok: "pool_ok ?p" using pool_ok_new by blast
  have keys: "map fst (ap_attestations ?p) = map (attestation_key \<circ> snd) (ap_attestations ?p)"
    using ok by (auto simp: pool_ok_def)
  have "distinct (map attestation_key (map snd (ap_attestations ?p)))"
    using ok keys by (simp add: pool_ok_def)
  then have "distinct (map (\<lambda>a. (at_root a, at_committee a)) (map snd (ap_attestations ?p)))"
    by (simp add: distinct_conv_nth attestation_key_eq)
  with ok max [of "new_pool n"] show ?thesis
    by (simp add: pool_ok_def pool_count_def pool_get_by_slot_def new_pool_def Let_def)
qed

section \<open>Properties of the subscriptions\<close>

text \<open>The configuration has neither encoder nor decoder, which registration refuses.\<close>

lemma subnet_handler_config_invalid:
  "validate_handler (subnet_handler_config S subnet) = Some ''either encoder or decoder must be configured''"
  by (simp add: subnet_handler_config_def new_handler_config_def validate_handler_def handler_option_defs empty_handler_config_def)

lemma register_invalid:
  "register (as_emb S) (as_proj S) (Some t) (Some (subnet_handler_config S subnet)) (Some r)
     = (Inl ''invalid handler configuration: either encoder or decoder must be configured'', Some r)"
  by (simp add: register_def register_topic_def on_registry_def subnet_handler_config_invalid err_wrap_def)

lemma subscribe_to_subnet_fails:
  "map_of (ah_active h) subnet = None \<Longrightarrow> \<exists>e. subscribe_to_subnet lib order S subnet fork_digest h = (Inl (Err e), h)"
  by (auto simp: subscribe_to_subnet_def eth_attestation_value register_invalid Let_def split: sum.split)

lemma subscribe_to_subnet_same: "snd (subscribe_to_subnet lib order S subnet fork_digest h) = h"
proof (cases "map_of (ah_active h) subnet")
  case None
  then show ?thesis using subscribe_to_subnet_fails by (metis snd_conv)
qed (simp add: subscribe_to_subnet_def)

text \<open>
  the example subscribes to no subnet: its handler configuration has neither an encoder nor a
  decoder, so that registering it fails; the set-up ends with that error at its first subnet, and
  no rotation ever adds a subnet.
\<close>

theorem example_never_subscribes:
  "subscribe_initial lib order S example_fork_digest initial_subnets (new_att_handler g)
     = (Inl (Err (''failed to subscribe to subnet 0: failed to register handler for subnet 0: '' @
          ''invalid handler configuration: either encoder or decoder must be configured'')), new_att_handler g)
   \<and> set (get_active_subnets (rotate_subnets lib order S fork_digest visit now h)) \<subseteq> set (get_active_subnets h)"
proof
  have topic: "topic_for_subnet \<lparr>st_pattern = ''beacon_attestation_%d'', st_max_subnets = 64\<rparr> 0 example_fork_digest
      = Inr \<lparr>t_name = ''/eth2/6a95a1a3/beacon_attestation_0/ssz_snappy''\<rparr>"
    by code_simp
  have zero: "dec_of_nat 0 = ''0''" by code_simp
  have "subscribe_to_subnet lib order S 0 example_fork_digest (new_att_handler g)
      = (Inl (Err (''failed to register handler for subnet 0: '' @
          ''invalid handler configuration: either encoder or decoder must be configured'')), new_att_handler g)"
    by (simp add: subscribe_to_subnet_def eth_attestation_value register_invalid topic zero new_topic_def err_wrap_def
        new_att_handler_def Let_def)
  then show "subscribe_initial lib order S example_fork_digest initial_subnets (new_att_handler g)
     = (Inl (Err (''failed to subscribe to subnet 0: failed to register handler for subnet 0: '' @
          ''invalid handler configuration: either encoder or decoder must be configured'')), new_att_handler g)"
    by (simp add: initial_subnets_def zero err_wrap_def)
  show "set (get_active_subnets (rotate_subnets lib order S fork_digest visit now h)) \<subseteq> set (get_active_subnets h)"
    using dom_delete_subset [of _ "ah_active h"]
    by (auto simp: rotate_subnets_def Let_def subscribe_to_subnet_same unsubscribe_from_subnet_def get_active_subnets_def
        split: list.split option.split)
qed

end
