(* ===== verification/AttestationExample.thy ===== *)
theory AttestationExample
  imports Complex_Main Attestations BlockExample
begin

text \<open>
  The rest of the attestation example (\<open>pkg/consensus/mimicry/p2p/eth/examples/attestation_handler.go\<close>), around the
  handler of \<open>Attestations\<close>: its set-up from the host to the end of its context, the rotation of the
  subnets, the published example and the event monitor, with the score parameters of both examples.
  Floats of the score parameters are rationals, durations nanoseconds.
\<close>

section \<open>Score parameters\<close>

record topic_score_params =
  sp_topic_weight :: rat
  sp_time_in_mesh_weight :: rat
  sp_time_in_mesh_quantum :: int
  sp_time_in_mesh_cap :: rat
  sp_first_deliveries_weight :: rat
  sp_first_deliveries_decay :: rat
  sp_first_deliveries_cap :: rat
  sp_mesh_deliveries_weight :: rat
  sp_mesh_deliveries_decay :: rat
  sp_mesh_deliveries_cap :: rat
  sp_mesh_deliveries_threshold :: rat
  sp_mesh_deliveries_window :: int
  sp_mesh_deliveries_activation :: int
  sp_mesh_failure_weight :: rat
  sp_mesh_failure_decay :: rat
  sp_invalid_deliveries_weight :: rat
  sp_invalid_deliveries_decay :: rat

definition attestation_score_params :: topic_score_params where
  "attestation_score_params =
     \<lparr>sp_topic_weight = 1 / 2, sp_time_in_mesh_weight = 324 / 10000, sp_time_in_mesh_quantum = 12 * 10 ^ 9,
      sp_time_in_mesh_cap = 300, sp_first_deliveries_weight = 1, sp_first_deliveries_decay = 99 / 100,
      sp_first_deliveries_cap = 10, sp_mesh_deliveries_weight = - 1, sp_mesh_deliveries_decay = 99 / 100,
      sp_mesh_deliveries_cap = 10, sp_mesh_deliveries_threshold = 5, sp_mesh_deliveries_window = 10 * 10 ^ 6,
      sp_mesh_deliveries_activation = 30 * 10 ^ 9, sp_mesh_failure_weight = - 1, sp_mesh_failure_decay = 99 / 100,
      sp_invalid_deliveries_weight = - 100, sp_invalid_deliveries_decay = 99 / 100\<rparr>"

definition block_score_params :: topic_score_params where
  "block_score_params =
     \<lparr>sp_topic_weight = 1 / 2, sp_time_in_mesh_weight = 1, sp_time_in_mesh_quantum = 10 ^ 9,
      sp_time_in_mesh_cap = 3600, sp_first_deliveries_weight = 1, sp_first_deliveries_decay = 1 / 2,
      sp_first_deliveries_cap = 100, sp_mesh_deliveries_weight = - 1, sp_mesh_deliveries_decay = 1 / 2,
      sp_mesh_deliveries_cap = 100, sp_mesh_deliveries_threshold = 20, sp_mesh_deliveries_window = 10 * 10 ^ 6,
      sp_mesh_deliveries_activation = 10 ^ 9, sp_mesh_failure_weight = - 1, sp_mesh_failure_decay = 1 / 2,
      sp_invalid_deliveries_weight = - 1, sp_invalid_deliveries_decay = 3 / 10\<rparr>"

text \<open>
  The attestation topics are documented to weigh less than the block topic; they weigh the same, and what
  their score can lose by invalid messages is a hundred times as much.
\<close>

lemma score_params_compared:
  "sp_topic_weight attestation_score_params = sp_topic_weight block_score_params"
  "sp_invalid_deliveries_weight attestation_score_params = 100 * sp_invalid_deliveries_weight block_score_params"
  by (simp_all add: attestation_score_params_def block_score_params_def)

section \<open>The closures and the published example\<close>

definition create_subnet_validator ::
  "u64 \<Rightarrow> attestation \<Rightarrow> peer_id \<Rightarrow> 'a att_handler \<Rightarrow> validation_result \<times> 'a att_handler" where
  "create_subnet_validator subnet = (\<lambda>att from. validate_attestation subnet)"

definition create_subnet_processor ::
  "u64 \<Rightarrow> attestation \<Rightarrow> peer_id \<Rightarrow> 'a att_handler \<Rightarrow> string option \<times> 'a att_handler" where
  "create_subnet_processor subnet = (\<lambda>att from. process_attestation att subnet)"

text \<open>The goroutine started behind a processed attestation: the subnet and the slot it logs.\<close>

definition notify_attestation_processed :: "attestation \<Rightarrow> u64 \<Rightarrow> u64 \<times> u64" where
  "notify_attestation_processed att subnet = (subnet, at_slot att)"

record checkpoint =
  ck_epoch :: u64
  ck_root :: bytes

record example_attestation =
  xa_aggregation_bits :: bytes
  xa_data :: attestation
  xa_source :: checkpoint
  xa_target :: checkpoint
  xa_signature :: bytes

definition example_att :: example_attestation where
  "example_att =
     \<lparr>xa_aggregation_bits = [1], xa_data = \<lparr>at_slot = 100, at_committee = 1, at_root = replicate 32 0\<rparr>,
      xa_source = \<lparr>ck_epoch = 10, ck_root = replicate 32 0\<rparr>, xa_target = \<lparr>ck_epoch = 11, ck_root = replicate 32 0\<rparr>,
      xa_signature = replicate 96 0\<rparr>"

text \<open>\<open>msg\<close> is the example in the message type of the instance.\<close>

definition publish_example_attestation ::
  "ps_lib \<Rightarrow> string list \<Rightarrow> (example_attestation \<Rightarrow> 'a) \<Rightarrow> u64 \<Rightarrow> bytes \<Rightarrow> ('a gossip, fault, unit) act" where
  "publish_example_attestation lib order emb subnet fork_digest g =
     (case eth_attestation of
        Inl f \<Rightarrow> (Inl f, g)
      | Inr st \<Rightarrow>
          (case topic_for_subnet st subnet fork_digest of
             Inl e \<Rightarrow> (Inl (Err (err_wrap (''failed to create topic for subnet '' @ dec_of_nat (unat subnet)) e)), g)
           | Inr t \<Rightarrow>
               (case new_topic (t_name t) of
                  Inl e \<Rightarrow> (Inl (Err (err_wrap ''failed to create typed topic'' e)), g)
                | Inr typed \<Rightarrow>
                    act_map_err (\<lambda>f. case f of Err e \<Rightarrow> Err (err_wrap ''failed to publish attestation'' e) | Panic p \<Rightarrow> Panic p)
                      (publish lib order typed (emb example_att)) g)))"

section \<open>Rotation and events\<close>

text \<open>
  \<open>manageDynamicSubnets\<close>: at each tick one rotation, with the order in which the runtime visits the map of
  active subnets and the time; the end of the list is the end of the context.
\<close>

fun manage_dynamic_subnets ::
  "ps_lib \<Rightarrow> string list \<Rightarrow> ('m, 'a) att_setup \<Rightarrow> bytes \<Rightarrow> (u64 list \<times> int) list \<Rightarrow> 'a att_handler \<Rightarrow> 'a att_handler" where
  "manage_dynamic_subnets lib order S fork_digest [] h = h"
| "manage_dynamic_subnets lib order S fork_digest ((visit, now) # ticks) h =
     manage_dynamic_subnets lib order S fork_digest ticks (rotate_subnets lib order S fork_digest visit now h)"

datatype attestation_log =
    AttestationValidated string peer_id
  | AttestationProcessed string int
  | AttestationError string string "string option"

definition monitor_attestation_event :: "gossipsub_event option \<Rightarrow> attestation_log list" where
  "monitor_attestation_event ev =
     (case ev of
        None \<Rightarrow> []
      | Some e \<Rightarrow>
          if ev_type e = EventTypeMessageValidated then [AttestationValidated (ev_topic e) (ev_peer e)]
          else if ev_type e = EventTypeMessageProcessed then
            (case ev_data e of MessageData d \<Rightarrow> [AttestationProcessed (ev_topic e) (med_processing_duration d)] | _ \<Rightarrow> [])
          else if ev_type e = EventTypeError then
            (case ev_data e of ErrorData d \<Rightarrow> [AttestationError (ev_topic e) (eed_operation d) (ev_error e)] | _ \<Rightarrow> [])
          else [])"

definition monitor_attestation_events :: "gossipsub_event option list \<Rightarrow> attestation_log list" where
  "monitor_attestation_events received = concat (map monitor_attestation_event received)"

section \<open>Set-up\<close>

definition attestation_gossip :: "ps_lib \<Rightarrow> int \<times> nat \<Rightarrow> nat list \<Rightarrow> string + 'a gossip" where
  "attestation_gossip lib params opts = new_gossip lib True True
     [with_logger (Some ()), with_metrics (Some ()), with_publish_timeout 5000000000, with_gossipsub_params params,
      with_pubsub_options opts]"

text \<open>
  Failed, with what is left of the handler if there was one; or running, with the error of the publication,
  which is only logged.
\<close>

datatype 'a attestation_setup =
    AttestationSetupFailed fault "'a att_handler option"
  | AttestationSetupRunning "'a att_handler" "string option"

definition example_attestation_setup ::
  "string option \<Rightarrow> ps_lib \<Rightarrow> int \<times> nat \<Rightarrow> nat list \<Rightarrow> string list \<Rightarrow> ('m, 'a) att_setup \<Rightarrow>
     (example_attestation \<Rightarrow> 'a) \<Rightarrow> 'a attestation_setup" where
  "example_attestation_setup host lib params opts order S emb =
     (case host of
        Some e \<Rightarrow> AttestationSetupFailed (Err (err_wrap ''failed to create host'' e)) None
      | None \<Rightarrow>
          (case attestation_gossip lib params opts of
             Inl e \<Rightarrow> AttestationSetupFailed (Err (err_wrap ''failed to create gossipsub'' e)) None
           | Inr g \<Rightarrow>
               (case subscribe_initial lib order S example_fork_digest initial_subnets (new_att_handler g) of
                  (Inl (Err e), h) \<Rightarrow>
                    AttestationSetupFailed (Err e) (Some (h\<lparr>ah_gossip := stop_idle lib (ah_gossip h)\<rparr>))
                | (Inl (Panic p), h) \<Rightarrow> AttestationSetupFailed (Panic p) (Some h)
                | (Inr _, h) \<Rightarrow>
                    (case publish_example_attestation lib order emb 0 example_fork_digest (ah_gossip h) of
                       (Inr _, g') \<Rightarrow> AttestationSetupRunning (h\<lparr>ah_gossip := g'\<rparr>) None
                     | (Inl (Err e), g') \<Rightarrow> AttestationSetupRunning (h\<lparr>ah_gossip := g'\<rparr>) (Some e)
                     | (Inl (Panic p), g') \<Rightarrow> AttestationSetupFailed (Panic p) (Some (h\<lparr>ah_gossip := g'\<rparr>))))))"

section \<open>Properties\<close>

lemma manage_dynamic_shrinks:
  "set (get_active_subnets (manage_dynamic_subnets lib order S fork_digest ticks h)) \<subseteq> set (get_active_subnets h)"
proof (induction ticks arbitrary: h)
  case (Cons tick ticks)
  obtain visit now where tick: "tick = (visit, now)" by fastforce
  have "set (get_active_subnets (rotate_subnets lib order S fork_digest visit now h)) \<subseteq> set (get_active_subnets h)"
    using dom_delete_subset [of _ "ah_active h"]
    by (auto simp: rotate_subnets_def Let_def subscribe_to_subnet_same unsubscribe_from_subnet_def get_active_subnets_def
        split: list.split option.split)
  with Cons.IH [of "rotate_subnets lib order S fork_digest visit now h"] tick show ?case by auto
qed simp

text \<open>
  Whatever libp2p does, the set-up never comes to its rotation, its publication or its wait: it fails, at the
  host, at the instance or at its first subnet, and a host that was made and an instance that was started are
  left without a single subscription.
\<close>

theorem attestation_setup_fails:
  "\<exists>e h. example_attestation_setup host lib params opts order S emb = AttestationSetupFailed (Err e) h \<and>
     (host = None \<longrightarrow> is_ok (attestation_gossip lib params opts :: string + 'a gossip) \<longrightarrow>
        (\<exists>g :: 'a gossip. attestation_gossip lib params opts = Inr g \<and> h = Some ((new_att_handler g)\<lparr>ah_gossip := stop_idle lib g\<rparr>)))"
proof (cases host)
  case (Some e)
  then show ?thesis by (simp add: example_attestation_setup_def)
next
  case None
  show ?thesis
  proof (cases "attestation_gossip lib params opts :: string + 'a gossip")
    case (Inl e)
    with None show ?thesis by (simp add: example_attestation_setup_def)
  next
    case (Inr g)
    have "map_of (ah_active (new_att_handler g)) 0 = None" by (simp add: new_att_handler_def)
    then obtain e where "subscribe_to_subnet lib order S 0 example_fork_digest (new_att_handler g) = (Inl (Err e), new_att_handler g)"
      using subscribe_to_subnet_fails by blast
    moreover have "ah_gossip (new_att_handler g) = g" by (simp add: new_att_handler_def)
    ultimately show ?thesis using None Inr by (simp add: example_attestation_setup_def initial_subnets_def)
  qed
qed

text \<open>A handler that could have been set up would have published to nobody: no handler is registered for its topic.\<close>

lemma publish_example_unregistered:
  assumes "g_started g" "get_handler order (g_registry g) ''/eth2/6a95a1a3/beacon_attestation_0/ssz_snappy'' = Inr None"
  shows "publish_example_attestation lib order emb 0 example_fork_digest g =
    (Inl (Err (''failed to publish attestation: no handler registered for topic '' @
       ''/eth2/6a95a1a3/beacon_attestation_0/ssz_snappy'')), g)"
proof -
  have "topic_for_subnet \<lparr>st_pattern = ''beacon_attestation_%d'', st_max_subnets = 64\<rparr> 0 example_fork_digest
      = Inr \<lparr>t_name = ''/eth2/6a95a1a3/beacon_attestation_0/ssz_snappy''\<rparr>"
    by code_simp
  with assms show ?thesis
    by (simp add: publish_example_attestation_def eth_attestation_value new_topic_def publish_def act_map_err_def err_wrap_def)
qed

text \<open>The monitor reports a validated attestation whatever data its event has, the others only with data of their kind.\<close>

lemma monitor_attestation_nothing:
  "monitor_attestation_event (Some e) = [] \<longleftrightarrow>
     ev_type e \<notin> {EventTypeMessageValidated, EventTypeMessageProcessed, EventTypeError} \<or>
     (ev_type e = EventTypeMessageProcessed \<and> (\<forall>d. ev_data e \<noteq> MessageData d)) \<or>
     (ev_type e = EventTypeError \<and> (\<forall>d. ev_data e \<noteq> ErrorData d))"
  by (cases "ev_data e") (auto simp: monitor_attestation_event_def event_type_defs)

end
