(* ===== verification/RefreshRuns.thy ===== *)
theory RefreshRuns
  imports Metadata Interfaces
begin

text \<open>
  The metadata service while it runs: the goroutine of \<open>Start\<close>, the refresh that gocron starts every
  five minutes, and the callers of \<open>BeaconNode\<close> that read the wall clock
  (\<open>pkg/ethereum/beacon/services/metadata.go\<close>, \<open>pkg/ethereum/beacon.go\<close>). \<open>fetchSpec\<close>, \<open>fetchGenesis\<close> and
  the store of the wall clock hold the mutex of the service, \<open>DeriveNodeIdentity\<close> does not: every access of
  it to a shared field is a section of its own. gocron is a parameter, as the answers of its two
  calls, and so is the wall clock library, as what it gives for a clock and a number.
\<close>

section \<open>Readers\<close>

definition get_genesis :: "'w metadata_service \<Rightarrow> genesis_info option" where
  "get_genesis m = ms_genesis m"

definition get_spec :: "'w metadata_service \<Rightarrow> full_spec option" where
  "get_spec m = ms_spec m"

definition get_wallclock :: "'w metadata_service \<Rightarrow> 'w option" where
  "get_wallclock m = ms_wallclock m"

definition beacon_get_wallclock :: "'w beacon_node \<Rightarrow> 'w option" where
  "beacon_get_wallclock b = get_wallclock (bn_metadata b)"

definition is_healthy :: "'w beacon_node \<Rightarrow> bool" where
  "is_healthy b = bn_healthy b"

text \<open>What the library gives for a clock, which the code does not compare with nil, and a number.\<close>

record ('w, 's, 'e) clock_lib =
  cl_slot_from_number :: "'w option \<Rightarrow> u64 \<Rightarrow> fault + 's"
  cl_epoch_from_number :: "'w option \<Rightarrow> u64 \<Rightarrow> fault + 'e"
  cl_epoch_from_slot :: "'w option \<Rightarrow> u64 \<Rightarrow> fault + 'e"

definition get_slot :: "('w, 's, 'e) clock_lib \<Rightarrow> u64 \<Rightarrow> 'w beacon_node \<Rightarrow> fault + 's" where
  "get_slot L slot b = cl_slot_from_number L (get_wallclock (bn_metadata b)) slot"

definition get_epoch :: "('w, 's, 'e) clock_lib \<Rightarrow> u64 \<Rightarrow> 'w beacon_node \<Rightarrow> fault + 'e" where
  "get_epoch L epoch b = cl_epoch_from_number L (get_wallclock (bn_metadata b)) epoch"

definition get_epoch_from_slot :: "('w, 's, 'e) clock_lib \<Rightarrow> u64 \<Rightarrow> 'w beacon_node \<Rightarrow> fault + 'e" where
  "get_epoch_from_slot L slot b = cl_epoch_from_slot L (get_wallclock (bn_metadata b)) slot"

section \<open>Waiting and scheduling\<close>

text \<open>One round of the loop that waits for the upstream node, which looks at its health first.\<close>

datatype health_poll = PollHealthy | PollTimer | PollCancelled string

fun await_healthy :: "health_poll list \<Rightarrow> (string + unit) option" where
  "await_healthy [] = None"
| "await_healthy (PollHealthy # _) = Some (Inr ())"
| "await_healthy (PollTimer # polls) = await_healthy polls"
| "await_healthy (PollCancelled e # _) = Some (Inl e)"

text \<open>The rest of \<open>Start\<close>, next to its goroutine: the error, and whether the refresh job runs.\<close>

definition schedule_refresh :: "string option \<Rightarrow> string option \<Rightarrow> string option \<times> bool" where
  "schedule_refresh new_scheduler new_job =
     (case new_scheduler of
        Some e \<Rightarrow> (Some e, False)
      | None \<Rightarrow> (case new_job of Some e \<Rightarrow> (Some e, False) | None \<Rightarrow> (None, True)))"

section \<open>Refreshes that overlap\<close>

text \<open>Where a goroutine is in \<open>RefreshAll\<close>, with what it holds in its own variables.\<close>

datatype 'w refresh_pc =
    FetchSpec
  | FetchGenesis
  | AskIdentity
  | StoreNodeId string
  | HashNodeId
  | StoreHash string
  | CheckClock
  | StoreClock 'w
  | RefreshDone

definition refresh_section ::
  "'w clock_maker \<Rightarrow> node_answers \<Rightarrow> 'w refresh_pc \<Rightarrow> 'w metadata_service \<Rightarrow> 'w refresh_pc \<times> 'w metadata_service" where
  "refresh_section clock node pc m =
     (case pc of
        FetchSpec \<Rightarrow> (FetchGenesis, snd (fetch_spec node m))
      | FetchGenesis \<Rightarrow> (AskIdentity, snd (fetch_genesis node m))
      | AskIdentity \<Rightarrow>
          (if \<not> na_healthy node then (CheckClock, m)
           else case na_identity node of
             Inl e \<Rightarrow> (CheckClock, m)
           | Inr identity \<Rightarrow>
               (case identity_enode identity of Inl e \<Rightarrow> CheckClock | Inr node_id \<Rightarrow> StoreNodeId node_id,
                m\<lparr>ms_identity := Some identity\<rparr>))
      | StoreNodeId node_id \<Rightarrow> (HashNodeId, m\<lparr>ms_node_id := node_id\<rparr>)
      | HashNodeId \<Rightarrow> (StoreHash (obfuscate_id (ms_node_id m)), m)
      | StoreHash h \<Rightarrow> (CheckClock, m\<lparr>ms_node_id_hash := h\<rparr>)
      | CheckClock \<Rightarrow>
          (case (ms_genesis m, ms_spec m, ms_wallclock m) of
             (Some g, Some s, None) \<Rightarrow>
               (case clock (genesis_time g) (spec_seconds_per_slot s) (spec_slots_per_epoch s) of
                  Some w \<Rightarrow> StoreClock w
                | None \<Rightarrow> RefreshDone, m)
           | _ \<Rightarrow> (RefreshDone, m))
      | StoreClock w \<Rightarrow> (RefreshDone, m\<lparr>ms_wallclock := Some w\<rparr>)
      | RefreshDone \<Rightarrow> (RefreshDone, m))"

fun refresh_sections ::
  "'w clock_maker \<Rightarrow> node_answers \<Rightarrow> nat \<Rightarrow> 'w refresh_pc \<Rightarrow> 'w metadata_service \<Rightarrow> 'w refresh_pc \<times> 'w metadata_service" where
  "refresh_sections clock node 0 pc m = (pc, m)"
| "refresh_sections clock node (Suc n) pc m =
     (case refresh_section clock node pc m of (pc', m') \<Rightarrow> refresh_sections clock node n pc' m')"

record 'w refresh_world =
  rw_service :: "'w metadata_service"
  rw_runs :: "'w refresh_pc list"

datatype refresh_label = BeginRefresh | RunSection nat node_answers | DeriveTheNetwork

text \<open>The node identifiers that an answer of the beacon node can make the service store.\<close>

definition answered_id :: "node_answers \<Rightarrow> string option" where
  "answered_id node = (case na_identity node of
     Inl _ \<Rightarrow> None | Inr i \<Rightarrow> (case identity_enode i of Inl _ \<Rightarrow> None | Inr node_id \<Rightarrow> Some node_id))"

text \<open>Every section may meet another answer of the beacon node; its identity is one of \<open>ids\<close>.\<close>

inductive refresh_step ::
  "'w clock_maker \<Rightarrow> string set \<Rightarrow> 'w refresh_world \<Rightarrow> refresh_label \<Rightarrow> 'w refresh_world \<Rightarrow> bool"
  for clock ids where
  step_begin_refresh: "refresh_step clock ids w BeginRefresh (w\<lparr>rw_runs := rw_runs w @ [FetchSpec]\<rparr>)"
| step_run_section:
    "i < length (rw_runs w) \<Longrightarrow> set_option (answered_id node) \<subseteq> ids \<Longrightarrow>
     refresh_section clock node (rw_runs w ! i) (rw_service w) = (pc, m) \<Longrightarrow>
     refresh_step clock ids w (RunSection i node) (w\<lparr>rw_service := m, rw_runs := (rw_runs w)[i := pc]\<rparr>)"
| step_derive_network:
    "refresh_step clock ids w DeriveTheNetwork (w\<lparr>rw_service := snd (derive_network (rw_service w))\<rparr>)"

inductive_cases refresh_stepE: "refresh_step clock ids w l w'"

definition refresh_init :: "'w refresh_world \<Rightarrow> bool" where
  "refresh_init w \<longleftrightarrow> (\<exists>ov. w = \<lparr>rw_service = new_metadata_service ov, rw_runs = []\<rparr>)"

section \<open>One refresh alone\<close>

text \<open>
  A refresh that nothing interrupts, under one set of answers, is the method: eight
  sections are enough for each of its paths.
\<close>

theorem refresh_alone:
  "refresh_sections clock node 8 FetchSpec m = (RefreshDone, snd (refresh_all clock node m))"
  by (simp add: eval_nat_numeral refresh_section_def refresh_all_def Let_def fetch_spec_def fetch_genesis_def
      derive_node_identity_def set_wallclock_def split: sum.split option.split)

section \<open>Any number of refreshes\<close>

text \<open>What stays known: no section takes back a field, though it may store another value.\<close>

definition stays_known :: "string set \<Rightarrow> 'w metadata_service \<Rightarrow> 'w metadata_service \<Rightarrow> bool" where
  "stays_known ids m m' \<longleftrightarrow>
     (ms_genesis m \<noteq> None \<longrightarrow> ms_genesis m' \<noteq> None) \<and> (ms_spec m \<noteq> None \<longrightarrow> ms_spec m' \<noteq> None)
     \<and> (ms_identity m \<noteq> None \<longrightarrow> ms_identity m' \<noteq> None) \<and> (ms_wallclock m \<noteq> None \<longrightarrow> ms_wallclock m' \<noteq> None)
     \<and> (ms_node_id m \<in> ids \<longrightarrow> ms_node_id m' \<in> ids)"

text \<open>What a goroutine at a place in the method relies on.\<close>

definition pc_ok :: "string set \<Rightarrow> 'w metadata_service \<Rightarrow> 'w refresh_pc \<Rightarrow> bool" where
  "pc_ok ids m pc =
     (case pc of
        StoreNodeId node_id \<Rightarrow> ms_identity m \<noteq> None \<and> node_id \<in> ids
      | HashNodeId \<Rightarrow> ms_identity m \<noteq> None \<and> ms_node_id m \<in> ids
      | StoreHash h \<Rightarrow> ms_identity m \<noteq> None \<and> ms_node_id m \<in> ids \<and> h \<in> obfuscate_id ` ids
      | StoreClock w \<Rightarrow> ms_genesis m \<noteq> None \<and> ms_spec m \<noteq> None
      | _ \<Rightarrow> True)"

definition service_ok :: "string set \<Rightarrow> 'w metadata_service \<Rightarrow> bool" where
  "service_ok ids m \<longleftrightarrow>
     (ms_wallclock m \<noteq> None \<longrightarrow> ms_genesis m \<noteq> None \<and> ms_spec m \<noteq> None)
     \<and> (ms_node_id_hash m \<noteq> [] \<longrightarrow> ms_identity m \<noteq> None \<and> ms_node_id m \<in> ids \<and> ms_node_id_hash m \<in> obfuscate_id ` ids)"

definition refresh_inv :: "string set \<Rightarrow> 'w refresh_world \<Rightarrow> bool" where
  "refresh_inv ids w \<longleftrightarrow> service_ok ids (rw_service w) \<and> (\<forall>pc \<in> set (rw_runs w). pc_ok ids (rw_service w) pc)"

lemma stays_known_refl [simp]: "stays_known ids m m"
  by (simp add: stays_known_def)

lemma pc_ok_stays: "pc_ok ids m pc \<Longrightarrow> stays_known ids m m' \<Longrightarrow> pc_ok ids m' pc"
  by (auto simp: pc_ok_def stays_known_def split: refresh_pc.splits)

lemma refresh_section_ok:
  assumes "service_ok ids m" "pc_ok ids m pc" "set_option (answered_id node) \<subseteq> ids"
    and "refresh_section clock node pc m = (pc', m')"
  shows "stays_known ids m m'" "service_ok ids m'" "pc_ok ids m' pc'"
proof -
  have "stays_known ids m m' \<and> service_ok ids m' \<and> pc_ok ids m' pc'"
  proof (cases pc)
    case AskIdentity
    with assms show ?thesis
      by (auto simp: refresh_section_def stays_known_def service_ok_def pc_ok_def answered_id_def split: sum.splits if_splits)
  next
    case CheckClock
    with assms show ?thesis
      by (auto simp: refresh_section_def stays_known_def service_ok_def pc_ok_def split: option.splits)
  qed (use assms in \<open>auto simp: refresh_section_def stays_known_def service_ok_def pc_ok_def fetch_spec_def fetch_genesis_def
      split: sum.splits\<close>)
  then show "stays_known ids m m'" "service_ok ids m'" "pc_ok ids m' pc'" by blast+
qed

lemma derive_network_stays:
  "stays_known ids m (snd (derive_network m))" "service_ok ids m \<Longrightarrow> service_ok ids (snd (derive_network m))"
  by (auto simp: derive_network_def stays_known_def service_ok_def Let_def split: option.split sum.split)

lemma refresh_step_stays:
  assumes "refresh_inv ids w" "refresh_step clock ids w l w'"
  shows "stays_known ids (rw_service w) (rw_service w')" "refresh_inv ids w'"
proof -
  from assms(2) have "stays_known ids (rw_service w) (rw_service w') \<and> refresh_inv ids w'"
  proof (cases rule: refresh_step.cases)
    case step_begin_refresh
    with assms(1) show ?thesis by (auto simp: refresh_inv_def pc_ok_def)
  next
    case (step_run_section i node pc m)
    with assms(1) have ok: "service_ok ids (rw_service w)" "pc_ok ids (rw_service w) (rw_runs w ! i)"
      by (simp_all add: refresh_inv_def)
    note sec = refresh_section_ok [OF this step_run_section(4,5)]
    have "pc_ok ids m q" if "q \<in> set ((rw_runs w)[i := pc])" for q
      using that set_update_subset_insert [of "rw_runs w" i pc] assms(1) sec(1,3) pc_ok_stays
      unfolding refresh_inv_def by blast
    with step_run_section(2) sec show ?thesis by (simp add: refresh_inv_def)
  next
    case step_derive_network
    with assms(1) derive_network_stays pc_ok_stays show ?thesis by (fastforce simp: refresh_inv_def)
  qed
  then show "stays_known ids (rw_service w) (rw_service w')" "refresh_inv ids w'" by blast+
qed

lemma refresh_init_inv: "refresh_init w \<Longrightarrow> refresh_inv ids w"
  by (auto simp: refresh_init_def refresh_inv_def service_ok_def new_metadata_service_def)

interpretation refreshes: step_machine refresh_init "refresh_step clock ids" "refresh_inv ids" for clock ids
  by unfold_locales (blast intro: refresh_init_inv refresh_step_stays)+

lemma stays_known_trans: "stays_known ids a b \<Longrightarrow> stays_known ids b c \<Longrightarrow> stays_known ids a c"
  by (auto simp: stays_known_def)

lemma later_stays_known:
  assumes "reachable (\<lambda>v. v = w) (refresh_step clock ids) w'" "refresh_inv ids w"
  shows "stays_known ids (rw_service w) (rw_service w') \<and> refresh_inv ids w'"
  using assms(1)
proof (induction rule: reachable.induct)
  case (reach_step s l t)
  with refresh_step_stays [of ids s clock l t] stays_known_trans show ?case by blast
qed (use assms(2) in simp)


section \<open>Schedules\<close>

text \<open>A goroutine may run any number of its sections without an interruption.\<close>

lemma reachable_sections:
  assumes "reachable init (refresh_step clock ids) w" "i < length (rw_runs w)" "set_option (answered_id node) \<subseteq> ids"
    and "refresh_sections clock node n (rw_runs w ! i) (rw_service w) = (pc, m)"
  shows "reachable init (refresh_step clock ids) (w\<lparr>rw_service := m, rw_runs := (rw_runs w)[i := pc]\<rparr>)"
  using assms
proof (induction n arbitrary: w)
  case 0
  then show ?case by (cases w) auto
next
  case (Suc n)
  obtain pc1 m1 where sec: "refresh_section clock node (rw_runs w ! i) (rw_service w) = (pc1, m1)" by fastforce
  let ?w1 = "w\<lparr>rw_service := m1, rw_runs := (rw_runs w)[i := pc1]\<rparr>"
  have "reachable init (refresh_step clock ids) ?w1"
    using Suc.prems(1) step_run_section [OF Suc.prems(2,3) sec] by (rule reach_step)
  moreover have "refresh_sections clock node n (rw_runs ?w1 ! i) (rw_service ?w1) = (pc, m)"
    using Suc.prems(2,4) sec by simp
  ultimately show ?case using Suc.IH [of ?w1] Suc.prems(2,3) by simp
qed

lemma reachable_begin:
  "reachable init (refresh_step clock ids) w \<Longrightarrow>
     reachable init (refresh_step clock ids) (w\<lparr>rw_runs := rw_runs w @ [FetchSpec]\<rparr>)"
  by (blast intro: reach_step step_begin_refresh)

lemma reachable_new:
  "reachable refresh_init (refresh_step clock ids) \<lparr>rw_service = new_metadata_service ov, rw_runs = []\<rparr>"
  by (rule reach_init) (auto simp: refresh_init_def)

text \<open>One whole refresh, after any others.\<close>

lemma reachable_refresh:
  assumes "reachable init (refresh_step clock ids) w" "set_option (answered_id node) \<subseteq> ids"
  shows "reachable init (refresh_step clock ids)
    (w\<lparr>rw_service := snd (refresh_all clock node (rw_service w)), rw_runs := rw_runs w @ [RefreshDone]\<rparr>)"
proof -
  let ?w = "w\<lparr>rw_runs := rw_runs w @ [FetchSpec]\<rparr>"
  have "reachable init (refresh_step clock ids) ?w" using assms(1) by (rule reachable_begin)
  moreover have "refresh_sections clock node 8 (rw_runs ?w ! length (rw_runs w)) (rw_service ?w) =
      (RefreshDone, snd (refresh_all clock node (rw_service w)))"
    by (simp add: refresh_alone)
  ultimately show ?thesis using reachable_sections [of init clock ids ?w "length (rw_runs w)" node 8] assms(2) by simp
qed

text \<open>
  If the identity of the node changes while two refreshes overlap, the service can end up with the identifier
  of the one and the hash of the other: nothing guards the two stores.
\<close>

theorem identity_change_races:
  "\<exists>w :: 'w refresh_world. reachable refresh_init (refresh_step clock {i, j}) w \<and> set (rw_runs w) = {RefreshDone} \<and>
     get_node_id_hash (rw_service w) = Inr (obfuscate_id i) \<and> ms_node_id (rw_service w) = j"
proof -
  define answers where "answers node_id = \<lparr>na_version = [], na_healthy = True, na_spec = Inl [], na_genesis = Inl [],
    na_identity = Inr \<lparr>identity_peer = [], identity_enode = Inr node_id\<rparr>\<rparr>" for node_id
  have ids: "set_option (answered_id (answers i)) \<subseteq> {i, j}" "set_option (answered_id (answers j)) \<subseteq> {i, j}"
    by (simp_all add: answers_def answered_id_def)
  let ?m0 = "new_metadata_service [] :: 'w metadata_service" and ?R = "reachable refresh_init (refresh_step clock {i, j})"
  let ?ident = "\<lambda>k. \<lparr>identity_peer = [], identity_enode = Inr k\<rparr> :: node_identity"
  let ?m1 = "?m0\<lparr>ms_identity := Some (?ident i), ms_node_id := i\<rparr>"
  let ?m2 = "?m0\<lparr>ms_identity := Some (?ident j), ms_node_id := j, ms_node_id_hash := obfuscate_id j\<rparr>"
  let ?m3 = "?m0\<lparr>ms_identity := Some (?ident j), ms_node_id := j, ms_node_id_hash := obfuscate_id i\<rparr>"
  note run = refresh_section_def fetch_spec_def fetch_genesis_def answers_def eval_nat_numeral new_metadata_service_def
  have "?R \<lparr>rw_service = ?m0, rw_runs = [FetchSpec, FetchSpec]\<rparr>"
    using reachable_begin [OF reachable_begin [OF reachable_new [of clock "{i, j}" "[]"]]] by simp
  moreover have "refresh_sections clock (answers i) 5 FetchSpec ?m0 = (StoreHash (obfuscate_id i), ?m1)" by (simp add: run)
  ultimately have "?R \<lparr>rw_service = ?m1, rw_runs = [StoreHash (obfuscate_id i), FetchSpec]\<rparr>"
    using reachable_sections [where i = 0 and n = 5 and node = "answers i", OF _ _ ids(1)] by fastforce
  moreover have "refresh_sections clock (answers j) 7 FetchSpec ?m1 = (RefreshDone, ?m2)" by (simp add: run)
  ultimately have "?R \<lparr>rw_service = ?m2, rw_runs = [StoreHash (obfuscate_id i), RefreshDone]\<rparr>"
    using reachable_sections [where i = 1 and n = 7 and node = "answers j", OF _ _ ids(2)] by fastforce
  moreover have "refresh_sections clock (answers i) 2 (StoreHash (obfuscate_id i)) ?m2 = (RefreshDone, ?m3)" by (simp add: run)
  ultimately have "?R \<lparr>rw_service = ?m3, rw_runs = [RefreshDone, RefreshDone]\<rparr>"
    using reachable_sections [where i = 0 and n = 2 and node = "answers i", OF _ _ ids(1)] by fastforce
  moreover have "get_node_id_hash ?m3 = Inr (obfuscate_id i)" "ms_node_id ?m3 = j"
    by (simp_all add: get_node_id_hash_def)
  ultimately show ?thesis by fastforce
qed

text \<open>A clock library that panics on nil, and a node whose genesis is lost after the first refresh.\<close>

definition demo_clock_lib :: "(nat, nat, nat) clock_lib" where
  "demo_clock_lib =
     (let f = (\<lambda>k c n. case c of None \<Rightarrow> Inl (Panic ''nil'') | Some w \<Rightarrow> Inr (k * w + unat n))
      in \<lparr>cl_slot_from_number = f 1, cl_epoch_from_number = f 32, cl_epoch_from_slot = f 0\<rparr>)"


section \<open>Started without a clock\<close>

text \<open>The wait for the upstream node, and then \<open>beacon_start\<close>.\<close>

definition beacon_start_polling ::
  "(('w metadata_service, string, unit) act \<Rightarrow> ('w metadata_service, string, unit) act)
     \<Rightarrow> 'w clock_maker \<Rightarrow> node_answers \<Rightarrow> string option \<Rightarrow> string option \<Rightarrow> (string \<Rightarrow> string option) \<Rightarrow> health_poll list
     \<Rightarrow> 'w beacon_node \<Rightarrow> start_end \<times> string list \<times> 'w beacon_node" where
  "beacon_start_polling retry clock node new_scheduler new_job result polls b =
     (case await_healthy polls of
        None \<Rightarrow> (StartWaits, [], b\<lparr>bn_healthy := True\<rparr>)
      | Some (Inl e) \<Rightarrow> (StartError e, [], b\<lparr>bn_healthy := True\<rparr>)
      | Some (Inr _) \<Rightarrow> beacon_start retry clock node (fst (schedule_refresh new_scheduler new_job)) result b)"

lemma await_healthy_first:
  "await_healthy (replicate n PollTimer @ poll # polls) =
     (case poll of PollHealthy \<Rightarrow> Some (Inr ()) | PollCancelled e \<Rightarrow> Some (Inl e) | PollTimer \<Rightarrow> await_healthy polls)"
  by (induction n) (auto split: health_poll.split)

lemma start_keeps_no_genesis:
  assumes "first_success retry" "na_genesis node = Inl e" "ms_genesis m = None" "ms_wallclock m = None"
  shows "ms_wallclock (snd (start_services retry clock node sched m)) = None"
proof -
  let ?m1 = "metadata_on_ready ServiceReadyCallback m"
  have "ms_wallclock (snd (refresh_all clock node ?m1)) = None"
    using assms(2-4) by (simp add: refresh_all_def Let_def fetch_spec_def fetch_genesis_def derive_node_identity_def
        set_wallclock_def metadata_on_ready_def split: sum.split option.split)
  moreover have "ms_wallclock (snd (derive_network n)) = ms_wallclock n" for n :: "'a metadata_service"
    by (simp add: derive_network_def Let_def split: option.split sum.split)
  ultimately have "ms_wallclock (snd (metadata_run retry clock node ?m1)) = None"
    using refresh_once [OF assms(1), of clock node ?m1]
    by (auto simp: metadata_run_def Let_def split: prod.split sum.split) (metis snd_conv)+
  then show ?thesis
    by (auto simp: start_services_def Let_def split: prod.split run_end.split option.split)
qed

text \<open>
  a start whose first refresh did not get the genesis never reports it: it ends as if it had, the node counts
  as healthy, and GetSlot hands the library a nil clock.
\<close>

theorem started_without_clock:
  assumes "first_success retry" "na_genesis node = Inl e" "ms_genesis (bn_metadata b) = None" "ms_wallclock (bn_metadata b) = None"
    and "ms_spec (bn_metadata b) = None" "ms_node_id_hash (bn_metadata b) = []"
    and "await_healthy polls = Some (Inr ())"
    and "beacon_start_polling retry clock node None None (\<lambda>_. None) polls b = (r, called, b')"
  shows "r = (case fresh_start node of ServicesReady \<Rightarrow> StartOk | ServicesFailed e \<Rightarrow> StartError e | ServicesWait \<Rightarrow> StartWaits
      | ProcessExit e \<Rightarrow> StartExit e) \<and>
    is_healthy b' \<and> get_slot L n b' = cl_slot_from_number L None n"
proof -
  have run: "beacon_start retry clock node None (\<lambda>_. None) b = (r, called, b')"
    using assms(7,8) by (simp add: beacon_start_polling_def schedule_refresh_def)
  obtain q m where services: "start_services retry clock node None (bn_metadata b) = (q, m)" by fastforce
  have ok: "run_on_ready (\<lambda>_. None) cbs = (None, cbs)" for cbs
    by (induction cbs) simp_all
  have q: "q = fresh_start node" using start_services_fresh [OF assms(1,5,6), of clock node] services by simp
  have clock: "ms_wallclock m = None"
    using start_keeps_no_genesis [OF assms(1-4), of clock None] services by simp
  from run services ok have "bn_metadata b' = m" "bn_healthy b'"
    and "r = (case q of ServicesReady \<Rightarrow> StartOk | ServicesFailed e \<Rightarrow> StartError e | ServicesWait \<Rightarrow> StartWaits
      | ProcessExit e \<Rightarrow> StartExit e)"
    by (auto simp: beacon_start_def Let_def split: services_end.splits)
  with q clock show ?thesis by (simp add: is_healthy_def get_slot_def get_wallclock_def)
qed
end
