(* ===== verification/Brokers.thy ===== *)
theory Brokers
  imports Crawler Discovery Host
begin

text \<open>
  The events of the crawler and of the host (\<open>pkg/consensus/mimicry/crawler/event.go\<close>,
  \<open>pkg/consensus/mimicry/host/event.go\<close>) and the node records of the discovery service
  (\<open>pkg/discovery/disc_v5.go\<close>): who is called when one is emitted. The emitter is a library that calls
  functions by reflection, so nothing but the names of the events keeps a callback from arguments it
  does not take. It is a parameter: what \<open>On\<close> makes of the emitter and the listeners \<open>Emit\<close> calls.
  Callbacks are numbered; their type is their constructor.
\<close>

section \<open>The emitter\<close>

record ('b, 'cb) emitter_lib =
  em_new :: 'b
  em_on :: "string \<Rightarrow> 'cb \<Rightarrow> 'b \<Rightarrow> 'b"
  em_listeners :: "string \<Rightarrow> 'b \<Rightarrow> 'cb list"

text \<open>Its documentation: \<open>On\<close> adds a listener to an event, \<open>Emit\<close> calls every listener of the event.\<close>

definition lawful_emitter :: "('b, 'cb) emitter_lib \<Rightarrow> bool" where
  "lawful_emitter L \<longleftrightarrow> (\<forall>e. em_listeners L e (em_new L) = []) \<and>
     (\<forall>e e' cb b. em_listeners L e (em_on L e' cb b) = em_listeners L e b @ (if e = e' then [cb] else []))"

locale typed_broker =
  fixes event_name :: "'k \<Rightarrow> string"
    and takes :: "'cb \<Rightarrow> 'k"
  assumes event_name_eq: "event_name k = event_name k' \<Longrightarrow> k = k'"
begin

lemma listeners_from:
  "lawful_emitter L \<Longrightarrow> em_listeners L (event_name k) (fold (\<lambda>cb. em_on L (event_name (takes cb)) cb) cbs b)
     = em_listeners L (event_name k) b @ filter (\<lambda>cb. takes cb = k) cbs"
  by (induction cbs arbitrary: b) (auto simp: lawful_emitter_def dest: event_name_eq)

text \<open>An event has the callbacks of its own type, each as often as it was subscribed.\<close>

lemma listeners_typed:
  "lawful_emitter L \<Longrightarrow> em_listeners L (event_name k) (fold (\<lambda>cb. em_on L (event_name (takes cb)) cb) cbs (em_new L))
     = filter (\<lambda>cb. takes cb = k) cbs"
  by (simp add: listeners_from) (simp add: lawful_emitter_def)

end

section \<open>The crawler\<close>

definition ModuleName :: string where "ModuleName = ''crawler''"
definition OnUpdatedPeerStatus :: string where "OnUpdatedPeerStatus = ModuleName @ '':peer:status:updated''"
definition OnMetadataReceived :: string where "OnMetadataReceived = ModuleName @ '':metadata:updated''"
definition OnSuccessfulCrawl :: string where "OnSuccessfulCrawl = ModuleName @ '':crawl:success''"
definition OnFailedCrawl :: string where "OnFailedCrawl = ModuleName @ '':crawl:failed''"

datatype crawl_callback =
    PeerStatusUpdatedCallback nat
  | MetadataReceivedCallback nat
  | SuccessfulCrawlCallback nat
  | FailedCrawlCallback nat

definition subscribe_peer_status_updated :: "('b, crawl_callback) emitter_lib \<Rightarrow> nat \<Rightarrow> 'b \<Rightarrow> 'b" where
  "subscribe_peer_status_updated L callback = em_on L OnUpdatedPeerStatus (PeerStatusUpdatedCallback callback)"

definition subscribe_metadata_received :: "('b, crawl_callback) emitter_lib \<Rightarrow> nat \<Rightarrow> 'b \<Rightarrow> 'b" where
  "subscribe_metadata_received L callback = em_on L OnMetadataReceived (MetadataReceivedCallback callback)"

definition subscribe_successful_crawl :: "('b, crawl_callback) emitter_lib \<Rightarrow> nat \<Rightarrow> 'b \<Rightarrow> 'b" where
  "subscribe_successful_crawl L callback = em_on L OnSuccessfulCrawl (SuccessfulCrawlCallback callback)"

definition subscribe_failed_crawl :: "('b, crawl_callback) emitter_lib \<Rightarrow> nat \<Rightarrow> 'b \<Rightarrow> 'b" where
  "subscribe_failed_crawl L callback = em_on L OnFailedCrawl (FailedCrawlCallback callback)"

definition subscribe_crawl :: "('b, crawl_callback) emitter_lib \<Rightarrow> crawl_callback \<Rightarrow> 'b \<Rightarrow> 'b" where
  "subscribe_crawl L cb =
     (case cb of
        PeerStatusUpdatedCallback f \<Rightarrow> subscribe_peer_status_updated L f
      | MetadataReceivedCallback f \<Rightarrow> subscribe_metadata_received L f
      | SuccessfulCrawlCallback f \<Rightarrow> subscribe_successful_crawl L f
      | FailedCrawlCallback f \<Rightarrow> subscribe_failed_crawl L f)"

text \<open>
  The calls that the emission of an event makes: the callbacks, and what they are given. What the
  crawler does to connections is in its list of events too and is no emission.
\<close>

definition emit_crawl_event :: "('b, crawl_callback) emitter_lib \<Rightarrow> 'b \<Rightarrow> 'n crawl_event \<Rightarrow> (crawl_callback \<times> 'n crawl_event) list" where
  "emit_crawl_event L b ev =
     (case ev of
        EvPeerStatusUpdated _ _ _ \<Rightarrow> map (\<lambda>cb. (cb, ev)) (em_listeners L OnUpdatedPeerStatus b)
      | EvMetadataReceived _ _ _ \<Rightarrow> map (\<lambda>cb. (cb, ev)) (em_listeners L OnMetadataReceived b)
      | EvSuccess _ \<Rightarrow> map (\<lambda>cb. (cb, ev)) (em_listeners L OnSuccessfulCrawl b)
      | EvFailed _ _ _ \<Rightarrow> map (\<lambda>cb. (cb, ev)) (em_listeners L OnFailedCrawl b)
      | _ \<Rightarrow> [])"

text \<open>The argument type of a callback against what it is given.\<close>

fun crawl_callback_takes :: "crawl_callback \<Rightarrow> 'n crawl_event \<Rightarrow> bool" where
  "crawl_callback_takes (PeerStatusUpdatedCallback _) (EvPeerStatusUpdated _ _ _) = True"
| "crawl_callback_takes (MetadataReceivedCallback _) (EvMetadataReceived _ _ _) = True"
| "crawl_callback_takes (SuccessfulCrawlCallback _) (EvSuccess _) = True"
| "crawl_callback_takes (FailedCrawlCallback _) (EvFailed _ _ _) = True"
| "crawl_callback_takes _ _ = False"

datatype crawl_topic = StatusTopic | MetadataTopic | SuccessTopic | FailureTopic

definition crawl_topic_name :: "crawl_topic \<Rightarrow> string" where
  "crawl_topic_name k =
     (case k of StatusTopic \<Rightarrow> OnUpdatedPeerStatus | MetadataTopic \<Rightarrow> OnMetadataReceived
      | SuccessTopic \<Rightarrow> OnSuccessfulCrawl | FailureTopic \<Rightarrow> OnFailedCrawl)"

definition crawl_callback_topic :: "crawl_callback \<Rightarrow> crawl_topic" where
  "crawl_callback_topic cb =
     (case cb of PeerStatusUpdatedCallback _ \<Rightarrow> StatusTopic | MetadataReceivedCallback _ \<Rightarrow> MetadataTopic
      | SuccessfulCrawlCallback _ \<Rightarrow> SuccessTopic | FailedCrawlCallback _ \<Rightarrow> FailureTopic)"

lemmas crawl_topic_defs = OnUpdatedPeerStatus_def OnMetadataReceived_def OnSuccessfulCrawl_def OnFailedCrawl_def ModuleName_def

interpretation crawl_broker: typed_broker crawl_topic_name crawl_callback_topic
  by unfold_locales (simp add: crawl_topic_name_def crawl_topic_defs split: crawl_topic.splits)

lemma subscribe_crawl_topic: "subscribe_crawl L cb = em_on L (crawl_topic_name (crawl_callback_topic cb)) cb"
  by (simp add: subscribe_crawl_def crawl_topic_name_def crawl_callback_topic_def subscribe_peer_status_updated_def
      subscribe_metadata_received_def subscribe_successful_crawl_def subscribe_failed_crawl_def split: crawl_callback.split)

lemma crawl_listeners:
  assumes "lawful_emitter L" "b = fold (subscribe_crawl L) cbs (em_new L)"
  shows "emit_crawl_event L b ev = map (\<lambda>cb. (cb, ev)) (filter (\<lambda>cb. crawl_callback_takes cb ev) cbs)"
proof -
  have all: "em_listeners L (crawl_topic_name k) b = filter (\<lambda>cb. crawl_callback_topic cb = k) cbs" for k
    using crawl_broker.listeners_typed [OF assms(1), of k cbs] by (simp add: assms(2) subscribe_crawl_topic [abs_def])
  note listeners = all [of StatusTopic] all [of MetadataTopic] all [of SuccessTopic] all [of FailureTopic]
  have takes: "crawl_callback_takes cb ev \<longleftrightarrow> (case ev of EvPeerStatusUpdated _ _ _ \<Rightarrow> crawl_callback_topic cb = StatusTopic
      | EvMetadataReceived _ _ _ \<Rightarrow> crawl_callback_topic cb = MetadataTopic
      | EvSuccess _ \<Rightarrow> crawl_callback_topic cb = SuccessTopic | EvFailed _ _ _ \<Rightarrow> crawl_callback_topic cb = FailureTopic | _ \<Rightarrow> False)"
    for cb
    by (cases cb; cases ev) (simp_all add: crawl_callback_topic_def)
  show ?thesis
    unfolding emit_crawl_event_def takes using listeners by (cases ev) (simp_all add: crawl_topic_name_def)
qed

section \<open>The host\<close>

definition BeforePeerDisconnectEvent :: string where "BeforePeerDisconnectEvent = ''peer:before:disconnect''"
definition AfterPeerDisconnectEvent :: string where "AfterPeerDisconnectEvent = ''peer:after:disconnect''"
definition BeforePeerConnectEvent :: string where "BeforePeerConnectEvent = ''peer:before:connect''"
definition AfterPeerConnectEvent :: string where "AfterPeerConnectEvent = ''peer:after:connect''"

datatype host_callback =
    BeforePeerConnectCallback nat
  | AfterPeerConnectCallback nat
  | BeforePeerDisconnectCallback nat
  | AfterPeerDisconnectCallback nat

definition before_peer_connect :: "('b, host_callback) emitter_lib \<Rightarrow> nat \<Rightarrow> 'b \<Rightarrow> 'b" where
  "before_peer_connect L callback = em_on L BeforePeerConnectEvent (BeforePeerConnectCallback callback)"

definition after_peer_connect :: "('b, host_callback) emitter_lib \<Rightarrow> nat \<Rightarrow> 'b \<Rightarrow> 'b" where
  "after_peer_connect L callback = em_on L AfterPeerConnectEvent (AfterPeerConnectCallback callback)"

definition before_peer_disconnect :: "('b, host_callback) emitter_lib \<Rightarrow> nat \<Rightarrow> 'b \<Rightarrow> 'b" where
  "before_peer_disconnect L callback = em_on L BeforePeerDisconnectEvent (BeforePeerDisconnectCallback callback)"

definition after_peer_disconnect :: "('b, host_callback) emitter_lib \<Rightarrow> nat \<Rightarrow> 'b \<Rightarrow> 'b" where
  "after_peer_disconnect L callback = em_on L AfterPeerDisconnectEvent (AfterPeerDisconnectCallback callback)"

definition subscribe_host :: "('b, host_callback) emitter_lib \<Rightarrow> host_callback \<Rightarrow> 'b \<Rightarrow> 'b" where
  "subscribe_host L cb =
     (case cb of
        BeforePeerConnectCallback f \<Rightarrow> before_peer_connect L f
      | AfterPeerConnectCallback f \<Rightarrow> after_peer_connect L f
      | BeforePeerDisconnectCallback f \<Rightarrow> before_peer_disconnect L f
      | AfterPeerDisconnectCallback f \<Rightarrow> after_peer_disconnect L f)"

definition emit_host_event :: "('b, host_callback) emitter_lib \<Rightarrow> 'b \<Rightarrow> host_event \<Rightarrow> (host_callback \<times> host_event) list" where
  "emit_host_event L b ev =
     map (\<lambda>cb. (cb, ev)) (em_listeners L
       (case ev of
          BeforePeerConnect _ \<Rightarrow> BeforePeerConnectEvent
        | AfterPeerConnect _ \<Rightarrow> AfterPeerConnectEvent
        | BeforePeerDisconnect _ \<Rightarrow> BeforePeerDisconnectEvent
        | AfterPeerDisconnect _ \<Rightarrow> AfterPeerDisconnectEvent) b)"

fun host_callback_takes :: "host_callback \<Rightarrow> host_event \<Rightarrow> bool" where
  "host_callback_takes (BeforePeerConnectCallback _) (BeforePeerConnect _) = True"
| "host_callback_takes (AfterPeerConnectCallback _) (AfterPeerConnect _) = True"
| "host_callback_takes (BeforePeerDisconnectCallback _) (BeforePeerDisconnect _) = True"
| "host_callback_takes (AfterPeerDisconnectCallback _) (AfterPeerDisconnect _) = True"
| "host_callback_takes _ _ = False"

datatype host_topic = BeforeConnect | AfterConnect | BeforeDisconnect | AfterDisconnect

definition host_topic_name :: "host_topic \<Rightarrow> string" where
  "host_topic_name k =
     (case k of BeforeConnect \<Rightarrow> BeforePeerConnectEvent | AfterConnect \<Rightarrow> AfterPeerConnectEvent
      | BeforeDisconnect \<Rightarrow> BeforePeerDisconnectEvent | AfterDisconnect \<Rightarrow> AfterPeerDisconnectEvent)"

definition host_callback_topic :: "host_callback \<Rightarrow> host_topic" where
  "host_callback_topic cb =
     (case cb of BeforePeerConnectCallback _ \<Rightarrow> BeforeConnect | AfterPeerConnectCallback _ \<Rightarrow> AfterConnect
      | BeforePeerDisconnectCallback _ \<Rightarrow> BeforeDisconnect | AfterPeerDisconnectCallback _ \<Rightarrow> AfterDisconnect)"

lemmas host_topic_defs = BeforePeerConnectEvent_def AfterPeerConnectEvent_def BeforePeerDisconnectEvent_def AfterPeerDisconnectEvent_def

interpretation host_broker: typed_broker host_topic_name host_callback_topic
  by unfold_locales (simp add: host_topic_name_def host_topic_defs split: host_topic.splits)

lemma subscribe_host_topic: "subscribe_host L cb = em_on L (host_topic_name (host_callback_topic cb)) cb"
  by (simp add: subscribe_host_def host_topic_name_def host_callback_topic_def before_peer_connect_def after_peer_connect_def
      before_peer_disconnect_def after_peer_disconnect_def split: host_callback.split)

lemma host_listeners:
  assumes "lawful_emitter L" "b = fold (subscribe_host L) cbs (em_new L)"
  shows "emit_host_event L b ev = map (\<lambda>cb. (cb, ev)) (filter (\<lambda>cb. host_callback_takes cb ev) cbs)"
proof -
  have all: "em_listeners L (host_topic_name k) b = filter (\<lambda>cb. host_callback_topic cb = k) cbs" for k
    using host_broker.listeners_typed [OF assms(1), of k cbs] by (simp add: assms(2) subscribe_host_topic [abs_def])
  note listeners = all [of BeforeConnect] all [of AfterConnect] all [of BeforeDisconnect] all [of AfterDisconnect]
  have takes: "host_callback_takes cb ev \<longleftrightarrow> host_callback_topic cb = (case ev of BeforePeerConnect _ \<Rightarrow> BeforeConnect
      | AfterPeerConnect _ \<Rightarrow> AfterConnect | BeforePeerDisconnect _ \<Rightarrow> BeforeDisconnect | AfterPeerDisconnect _ \<Rightarrow> AfterDisconnect)"
    for cb
    by (cases cb; cases ev) (simp_all add: host_callback_topic_def)
  show ?thesis
    unfolding emit_host_event_def takes using listeners by (cases ev) (simp_all add: host_topic_name_def)
qed

text \<open>
  C26: an event reaches exactly the callbacks that were subscribed with the method of its own type, each once per
  subscription, and no callback is ever called with an argument it does not take, in the crawler as in the
  host, whatever else was subscribed before, in between or after.
\<close>

theorem callbacks_typed:
  assumes "lawful_emitter L" "lawful_emitter L'"
    and "b = fold (subscribe_crawl L) cbs (em_new L)" "b' = fold (subscribe_host L') cbs' (em_new L')"
  shows "emit_crawl_event L b ev = map (\<lambda>cb. (cb, ev)) (filter (\<lambda>cb. crawl_callback_takes cb ev) cbs) \<and>
    emit_host_event L' b' ev' = map (\<lambda>cb. (cb, ev')) (filter (\<lambda>cb. host_callback_takes cb ev') cbs')"
  using crawl_listeners [OF assms(1,3)] host_listeners [OF assms(2,4)] by blast

text \<open>An emitter that keeps its listeners in one list.\<close>

definition list_emitter :: "((string \<times> 'cb) list, 'cb) emitter_lib" where
  "list_emitter = \<lparr>em_new = [], em_on = (\<lambda>e cb b. b @ [(e, cb)]), em_listeners = (\<lambda>e b. map snd (filter (\<lambda>x. fst x = e) b))\<rparr>"

lemma list_emitter_lawful: "lawful_emitter list_emitter"
  by (auto simp: lawful_emitter_def list_emitter_def)

lemma callbacks_typed_witness:
  "emit_crawl_event list_emitter
     (fold (subscribe_crawl list_emitter) [FailedCrawlCallback 1, SuccessfulCrawlCallback 2, FailedCrawlCallback 3] (em_new list_emitter))
     (EvFailed ''p'' (None :: nat option) ErrCrawlTooSoon)
   = [(FailedCrawlCallback 1, EvFailed ''p'' None ErrCrawlTooSoon), (FailedCrawlCallback 3, EvFailed ''p'' None ErrCrawlTooSoon)]"
  using callbacks_typed [OF list_emitter_lawful list_emitter_lawful refl refl,
      of "[FailedCrawlCallback 1, SuccessfulCrawlCallback 2, FailedCrawlCallback 3]" "EvFailed ''p'' (None :: nat option) ErrCrawlTooSoon"
        "[]" "BeforePeerConnect ''p''"]
  by simp

section \<open>Failures as subscribers see them\<close>

text \<open>Everything the subscribers of the crawler were called with, over its whole run.\<close>

definition crawl_deliveries :: "('b, crawl_callback) emitter_lib \<Rightarrow> 'b \<Rightarrow> 'n crawler \<Rightarrow> (crawl_callback \<times> 'n crawl_event) list" where
  "crawl_deliveries L b c = concat (map (emit_crawl_event L b) (cr_events c))"

lemma deliveries_fail_crawl:
  assumes "lawful_emitter L" "b = fold (subscribe_crawl L) cbs (em_new L)"
  shows "crawl_deliveries L b (fail_crawl pid err c) = crawl_deliveries L b c @
    map (\<lambda>cb. (cb, EvFailed pid (get_peer_enr c pid) err)) (filter (\<lambda>cb. crawl_callback_topic cb = FailureTopic) cbs)"
proof -
  have "crawl_callback_takes cb (EvFailed pid (get_peer_enr c pid) err) = (crawl_callback_topic cb = FailureTopic)" for cb
    by (cases cb) (simp_all add: crawl_callback_topic_def)
  then show ?thesis
    by (simp add: crawl_deliveries_def fail_crawl_def emit_crawl_def crawl_listeners [OF assms])
qed

section \<open>Node records\<close>

text \<open>
  \<open>OnNodeRecord\<close> subscribes a closure around its handler, which hands the handler's error to
  \<open>handleSubscriberError\<close>: a line of the log, with the topic.
\<close>

definition handle_subscriber_error :: "string option \<Rightarrow> string \<Rightarrow> (string \<times> string) list" where
  "handle_subscriber_error err topic = (case err of None \<Rightarrow> [] | Some e \<Rightarrow> [(topic, e)])"

definition subscribe_node_record :: "('b, string) emitter_lib \<Rightarrow> string \<Rightarrow> 'b \<Rightarrow> 'b" where
  "subscribe_node_record L handler = em_on L topicNodeRecord handler"

definition emit_node_record ::
  "('b, string) emitter_lib \<Rightarrow> (string \<Rightarrow> 'n \<Rightarrow> string option) \<Rightarrow> 'b \<Rightarrow> 'n \<Rightarrow> string list \<times> (string \<times> string) list" where
  "emit_node_record L result b node =
     (let hs = em_listeners L topicNodeRecord b
      in (hs, concat (map (\<lambda>h. handle_subscriber_error (result h node) topicNodeRecord) hs)))"

text \<open>On a lawful emitter this is the list of handlers of \<open>Discovery\<close>.\<close>

lemma emit_node_record_refines:
  assumes "lawful_emitter L" "b = fold (subscribe_node_record L) hs (em_new L)" "d_handlers d0 = []"
    and "d = fold on_node_record hs d0"
  shows "emit_node_record L result b node =
    (fst (publish_node_record result node d), map (\<lambda>e. (topicNodeRecord, e)) (snd (publish_node_record result node d)))"
proof -
  have "em_listeners L topicNodeRecord (fold (subscribe_node_record L) hs b') = em_listeners L topicNodeRecord b' @ hs" for b'
    using assms(1) by (induction hs arbitrary: b') (simp_all add: subscribe_node_record_def lawful_emitter_def)
  then have hs: "em_listeners L topicNodeRecord b = hs" using assms(1) by (simp add: assms(2) lawful_emitter_def)
  have "d_handlers (fold on_node_record hs d') = d_handlers d' @ hs" for d'
    by (induction hs arbitrary: d') (simp_all add: on_node_record_def)
  then have d: "d_handlers d = hs" by (simp add: assms(3,4))
  have "concat (map (\<lambda>h. handle_subscriber_error (result h node) topicNodeRecord) xs) =
      map (\<lambda>e. (topicNodeRecord, e)) (List.map_filter (\<lambda>h. result h node) xs)" for xs
    by (induction xs) (simp_all add: handle_subscriber_error_def List.map_filter_simps split: option.split)
  then show ?thesis by (simp add: emit_node_record_def publish_node_record_def hs d)
qed

end
