(* ===== verification/HostLife.thy ===== *)
theory HostLife
  imports Brokers Meters Handlers
begin

text \<open>
  The host before, while and after it starts (\<open>pkg/consensus/mimicry/host/host.go\<close>, \<open>metrics.go\<close>): its
  collectors, the accessors, which use the host of libp2p without looking whether there is one, and the
  window of \<open>Start\<close> in which libp2p already notifies the node and the node has no host yet.
  \<open>hn_started\<close> is \<open>n.host != nil\<close>. A panic in a goroutine of libp2p ends the process.
\<close>

section \<open>Metrics\<close>

definition host_collectors :: "string \<Rightarrow> collector list" where
  "host_collectors namespace =
     [vec_collector namespace ''libp2p_peers'' [''direction'', ''state''],
      vec_collector namespace ''peer_connects_success_total'' [],
      vec_collector namespace ''peer_disconnects_success_total'' []]"

definition new_host_metrics :: "'r registerer \<Rightarrow> string \<Rightarrow> 'r \<Rightarrow> (fault + unit) \<times> 'r" where
  "new_host_metrics R namespace r = must_register_each R (host_collectors namespace) r"

definition new_node :: "'r registerer \<Rightarrow> host_config \<Rightarrow> string \<Rightarrow> 'r \<Rightarrow> (fault + host_node) \<times> 'r" where
  "new_node R c namespace r =
     (case new_host_metrics R namespace r of
        (Inl f, r') \<Rightarrow> (Inl f, r')
      | (Inr _, r') \<Rightarrow> (Inr (new_host c), r'))"

definition set_peers :: "vec_lib \<Rightarrow> nat \<Rightarrow> string \<Rightarrow> string \<Rightarrow> (string \<times> string \<rightharpoonup> nat) \<Rightarrow> (fault + unit) \<times> (string \<times> string \<rightharpoonup> nat)" where
  "set_peers V value direction state g =
     (case V [''direction'', ''state''] [direction, state] of
        Some e \<Rightarrow> (Inl (Panic e), g)
      | None \<Rightarrow> (Inr (), g((direction, state) \<mapsto> value)))"

text \<open>What a registration of the three collectors does to a registry that has none, and to one that has the first.\<close>

lemma new_node_first:
  assumes "registerer_lawful R" "\<forall>c \<in> set (host_collectors namespace). \<not> rg_has R r c"
  shows "\<exists>r'. new_node R cfg namespace r = (Inr (new_host cfg), r') \<and>
    rg_has R r' = (\<lambda>c. rg_has R r c \<or> c \<in> set (host_collectors namespace))"
proof -
  have "distinct (host_collectors namespace)" by (simp add: host_collectors_def vec_collector_def)
  then obtain r' where "register_each R (host_collectors namespace) r = (None, r')"
    and "rg_has R r' = (\<lambda>c. rg_has R r c \<or> c \<in> set (host_collectors namespace))"
    using register_each_new [OF assms(1) _ assms(2)] by blast
  then show ?thesis by (simp add: new_node_def new_host_metrics_def must_register_each_def)
qed

lemma new_node_again:
  assumes "registerer_lawful R" "\<forall>c \<in> set (host_collectors namespace). rg_has R r c"
  shows "\<exists>e. new_node R cfg namespace r = (Inl (Panic e), r)"
proof -
  obtain c cs where cs: "host_collectors namespace = c # cs" by (simp add: host_collectors_def)
  then obtain e where "rg_register R c r = (Some e, r)" using lawful_register_known [OF assms(1)] assms(2) by force
  then show ?thesis by (simp add: new_node_def new_host_metrics_def must_register_each_def cs)
qed

section \<open>Accessors and calls\<close>

text \<open>The value of a method of the host of libp2p, which is a nil interface before \<open>Start\<close>.\<close>

definition of_host :: "host_node \<Rightarrow> 'a \<Rightarrow> fault + 'a" where
  "of_host n x = (if hn_started n then Inr x else Inl nil_deref)"

definition node_peerstore :: "'p \<Rightarrow> host_node \<Rightarrow> 'p option" where
  "node_peerstore store n = (if hn_started n then Some store else None)"

definition node_network :: "net_view \<Rightarrow> host_node \<Rightarrow> fault + net_view" where
  "node_network net n = of_host n net"

text \<open>libp2p knows no connection to a peer that it does not list.\<close>

definition node_connectedness :: "net_view \<Rightarrow> string \<Rightarrow> host_node \<Rightarrow> fault + string" where
  "node_connectedness net peer n =
     of_host n (case map_of net peer of None \<Rightarrow> ''NotConnected'' | Some (_, state) \<Rightarrow> state)"

definition node_host :: "host_node \<Rightarrow> bool" where
  "node_host n = hn_started n"

definition node_add_protocols :: "string option \<Rightarrow> host_node \<Rightarrow> fault + unit" where
  "node_add_protocols result n =
     (case node_peerstore () n of
        None \<Rightarrow> Inl nil_deref
      | Some _ \<Rightarrow> (case result of None \<Rightarrow> Inr () | Some e \<Rightarrow> Inl (Err e)))"

definition node_connect_to_peer :: "string \<Rightarrow> string option \<Rightarrow> host_node \<Rightarrow> host_event list \<times> (fault + unit)" where
  "node_connect_to_peer peer result n =
     (case connect_to_host peer result of (es, r) \<Rightarrow>
        (es, if hn_started n then (case r of None \<Rightarrow> Inr () | Some e \<Rightarrow> Inl (Err e)) else Inl nil_deref))"

definition node_disconnect_from_peer :: "string \<Rightarrow> string option \<Rightarrow> host_node \<Rightarrow> host_event list \<times> (fault + unit)" where
  "node_disconnect_from_peer peer result n =
     (case disconnect_from_host peer result of (es, r) \<Rightarrow>
        (es, if hn_started n then (case r of None \<Rightarrow> Inr () | Some e \<Rightarrow> Inl (Err e)) else Inl nil_deref))"

text \<open>
  The notifications of libp2p: the counter goes up first, and \<open>updatePeerMetrics\<close> asks the node's host for its
  peers, whatever network the notification came with.
\<close>

definition notified_connected :: "net_view \<Rightarrow> string \<Rightarrow> (host_node, fault, host_event list) act" where
  "notified_connected net peer n =
     (if hn_started n then (case host_connected net peer n of (es, n') \<Rightarrow> (Inr es, n'))
      else (Inl nil_deref, n\<lparr>hn_connects := Suc (hn_connects n)\<rparr>))"

definition notified_disconnected :: "net_view \<Rightarrow> string \<Rightarrow> (host_node, fault, host_event list) act" where
  "notified_disconnected net peer n =
     (if hn_started n then (case host_disconnected net peer n of (es, n') \<Rightarrow> (Inr es, n'))
      else (Inl nil_deref, n\<lparr>hn_disconnects := Suc (hn_disconnects n)\<rparr>))"

section \<open>The window of Start\<close>

text \<open>
  Libp2p listens from \<open>libp2p.New\<close> on; it notifies from \<open>Notify\<close> on; the node has its host from the
  assignment behind it on.
\<close>

datatype host_phase = HostDown | HostListening | HostNotified | HostRunning

record host_world =
  hw_node :: host_node
  hw_phase :: host_phase
  hw_events :: "host_event list"
  hw_crashed :: bool

datatype host_label = HListen | HNotify | HAssign | HConnected net_view string | HDisconnected net_view string

definition notified :: "(host_node, fault, host_event list) act \<Rightarrow> host_world \<Rightarrow> host_world" where
  "notified call w =
     (case call (hw_node w) of
        (Inl _, n) \<Rightarrow> w\<lparr>hw_node := n, hw_crashed := True\<rparr>
      | (Inr es, n) \<Rightarrow> w\<lparr>hw_node := n, hw_events := hw_events w @ es\<rparr>)"

fun host_do :: "(host_node, string, string list) act \<Rightarrow> host_label \<Rightarrow> host_world \<Rightarrow> host_world option" where
  "host_do start HListen w =
     (if hw_phase w = HostDown then
        (case start (hw_node w) of
           (Inl _, n) \<Rightarrow> Some (w\<lparr>hw_node := n\<rparr>)
         | (Inr _, n) \<Rightarrow> Some (w\<lparr>hw_node := n\<lparr>hn_started := False\<rparr>, hw_phase := HostListening\<rparr>))
      else None)"
| "host_do start HNotify w = (if hw_phase w = HostListening then Some (w\<lparr>hw_phase := HostNotified\<rparr>) else None)"
| "host_do start HAssign w =
     (if hw_phase w = HostNotified then Some (w\<lparr>hw_node := (hw_node w)\<lparr>hn_started := True\<rparr>, hw_phase := HostRunning\<rparr>) else None)"
| "host_do start (HConnected net peer) w =
     (if hw_phase w \<in> {HostNotified, HostRunning} then Some (notified (notified_connected net peer) w) else None)"
| "host_do start (HDisconnected net peer) w =
     (if hw_phase w \<in> {HostNotified, HostRunning} then Some (notified (notified_disconnected net peer) w) else None)"

text \<open>A crashed process does nothing more.\<close>

inductive host_step :: "(host_node, string, string list) act \<Rightarrow> host_world \<Rightarrow> host_label \<Rightarrow> host_world \<Rightarrow> bool" for start where
  "\<not> hw_crashed w \<Longrightarrow> host_do start l w = Some w' \<Longrightarrow> host_step start w l w'"

inductive_simps host_step_iff: "host_step start w l w'"

definition host_world_init :: "host_config \<Rightarrow> host_world \<Rightarrow> bool" where
  "host_world_init cfg w \<longleftrightarrow> w = \<lparr>hw_node = new_host cfg, hw_phase = HostDown, hw_events = [], hw_crashed = False\<rparr>"

text \<open>A start that does not set \<open>n.host\<close> on an error, as \<open>host_start\<close>.\<close>

definition proper_start :: "(host_node, string, string list) act \<Rightarrow> bool" where
  "proper_start start \<longleftrightarrow> (\<forall>n r n'. start n = (r, n') \<longrightarrow> hn_connects n' = hn_connects n \<and> hn_disconnects n' = hn_disconnects n \<and>
     (\<forall>e. r = Inl e \<longrightarrow> hn_started n' = hn_started n))"

lemma derive_private_key_keeps:
  "derive_private_key generated n = (r, n') \<Longrightarrow>
     hn_connects n' = hn_connects n \<and> hn_disconnects n' = hn_disconnects n \<and> hn_started n' = hn_started n"
  by (auto simp: derive_private_key_def split: option.splits if_splits sum.splits)

lemma host_start_proper: "proper_start (host_start show_ip dial generated manager libp2p_new)"
  unfolding proper_start_def
proof (intro allI impI)
  fix n r n' assume run: "host_start show_ip dial generated manager libp2p_new n = (r, n')"
  show "hn_connects n' = hn_connects n \<and> hn_disconnects n' = hn_disconnects n \<and> (\<forall>e. r = Inl e \<longrightarrow> hn_started n' = hn_started n)"
    using run
    by (auto simp: host_start_def Let_def split: sum.splits option.splits prod.splits dest!: derive_private_key_keeps)
qed

definition connects_of :: "host_event list \<Rightarrow> nat" where
  "connects_of es = length (filter (\<lambda>e. case e of AfterPeerConnect _ \<Rightarrow> True | _ \<Rightarrow> False) es)"

definition disconnects_of :: "host_event list \<Rightarrow> nat" where
  "disconnects_of es = length (filter (\<lambda>e. case e of AfterPeerDisconnect _ \<Rightarrow> True | _ \<Rightarrow> False) es)"

definition host_life_inv :: "host_world \<Rightarrow> bool" where
  "host_life_inv w \<longleftrightarrow>
     (hn_started (hw_node w) \<longleftrightarrow> hw_phase w = HostRunning) \<and> (hw_crashed w \<longrightarrow> hw_phase w = HostNotified) \<and>
     (hw_crashed w \<or> hn_connects (hw_node w) = connects_of (hw_events w) \<and> hn_disconnects (hw_node w) = disconnects_of (hw_events w))"

lemma host_step_inv:
  assumes "proper_start start" "host_life_inv w" "host_step start w l w'"
  shows "host_life_inv w'"
proof -
  from assms(3) have alive: "\<not> hw_crashed w" and step: "host_do start l w = Some w'" by (simp_all add: host_step_iff)
  note defs = host_life_inv_def connects_of_def disconnects_of_def
  show ?thesis
  proof (cases l)
    case HListen
    with step have down: "hw_phase w = HostDown" by (simp split: if_splits)
    obtain r n where run: "start (hw_node w) = (r, n)" by fastforce
    with assms(1) have "hn_connects n = hn_connects (hw_node w)" "hn_disconnects n = hn_disconnects (hw_node w)"
      "\<forall>e. r = Inl e \<longrightarrow> hn_started n = hn_started (hw_node w)" by (auto simp: proper_start_def)
    with step down run HListen assms(2) alive show ?thesis by (cases r) (auto simp: host_life_inv_def)
  next
    case (HConnected net peer)
    with step assms(2) alive show ?thesis
      by (auto simp: defs notified_def notified_connected_def host_connected_def update_peer_metrics_def split: if_splits)
  next
    case (HDisconnected net peer)
    with step assms(2) alive show ?thesis
      by (auto simp: defs notified_def notified_disconnected_def host_disconnected_def update_peer_metrics_def split: if_splits)
  qed (use step assms(2) alive in \<open>auto simp: host_life_inv_def split: if_splits\<close>)
qed

lemma host_world_init_inv: "host_world_init cfg w \<Longrightarrow> host_life_inv w"
  by (simp add: host_world_init_def host_life_inv_def new_host_def connects_of_def disconnects_of_def)

interpretation host_life: step_machine "host_world_init cfg"
    "host_step (host_start show_ip dial generated manager libp2p_new)" host_life_inv
    for cfg show_ip dial generated manager libp2p_new
  by unfold_locales (blast intro: host_world_init_inv host_step_inv host_start_proper)+

text \<open>
  C25: once Start has returned no notification panics, and the two counters are the numbers of connect and
  disconnect events that were emitted. Before that there is a window: libp2p listens and notifies before
  the node has its host, so that a peer that connects right then makes the notification use a nil
  host and ends the process; this can happen in every start that succeeds.
\<close>

theorem host_start_window:
  assumes "start = host_start show_ip dial generated manager libp2p_new" "start (new_host cfg) = (Inr addrs, n)"
  shows "(\<exists>w. reachable (host_world_init cfg) (host_step start) w \<and> hw_crashed w) \<and>
    (\<forall>w. reachable (host_world_init cfg) (host_step start) w \<longrightarrow>
       (hw_phase w = HostRunning \<longrightarrow> \<not> hw_crashed w \<and> hn_connects (hw_node w) = connects_of (hw_events w) \<and>
          hn_disconnects (hw_node w) = disconnects_of (hw_events w)) \<and>
       (hw_crashed w \<longrightarrow> hw_phase w = HostNotified))"
proof
  let ?w0 = "\<lparr>hw_node = new_host cfg, hw_phase = HostDown, hw_events = [], hw_crashed = False\<rparr>"
  let ?w1 = "?w0\<lparr>hw_node := n\<lparr>hn_started := False\<rparr>, hw_phase := HostListening\<rparr>"
  let ?w2 = "?w1\<lparr>hw_phase := HostNotified\<rparr>" and ?R = "reachable (host_world_init cfg) (host_step start)"
  have "?R ?w0" by (rule reach_init) (simp add: host_world_init_def)
  moreover have "host_step start ?w0 HListen ?w1" using assms(2) by (simp add: host_step_iff)
  ultimately have "?R ?w1" by (rule reach_step)
  moreover have "host_step start ?w1 HNotify ?w2" by (simp add: host_step_iff)
  ultimately have "?R ?w2" by (rule reach_step)
  moreover have "host_step start ?w2 (HConnected [] []) (notified (notified_connected [] []) ?w2)"
    by (simp add: host_step_iff)
  ultimately have "?R (notified (notified_connected [] []) ?w2)" by (rule reach_step)
  then show "\<exists>w. ?R w \<and> hw_crashed w"
    by (intro exI [of _ "notified (notified_connected [] []) ?w2"]) (simp add: notified_def notified_connected_def)
next
  show "\<forall>w. reachable (host_world_init cfg) (host_step start) w \<longrightarrow>
       (hw_phase w = HostRunning \<longrightarrow> \<not> hw_crashed w \<and> hn_connects (hw_node w) = connects_of (hw_events w) \<and>
          hn_disconnects (hw_node w) = disconnects_of (hw_events w)) \<and>
       (hw_crashed w \<longrightarrow> hw_phase w = HostNotified)"
  proof (intro allI impI)
    fix w assume "reachable (host_world_init cfg) (host_step start) w"
    then have "host_life_inv w" unfolding assms(1) by (rule host_life.inv_reachable)
    then show "(hw_phase w = HostRunning \<longrightarrow> \<not> hw_crashed w \<and> hn_connects (hw_node w) = connects_of (hw_events w) \<and>
          hn_disconnects (hw_node w) = disconnects_of (hw_events w)) \<and>
       (hw_crashed w \<longrightarrow> hw_phase w = HostNotified)"
      by (auto simp: host_life_inv_def)
  qed
qed

definition easy_start :: "(host_node, string, string list) act" where
  "easy_start = host_start (\<lambda>_. ''127.0.0.1'') (Inl []) (Inr (replicate 32 7)) None (\<lambda>_ _. None)"

lemma host_start_window_witness:
  "(\<exists>w. reachable (host_world_init (hn_config demo_host)) (host_step easy_start) w \<and> hw_crashed w)"
proof -
  have start: "\<exists>addrs n. easy_start (new_host (hn_config demo_host)) = (Inr addrs, n)"
    by (simp add: easy_start_def host_start_def derive_private_key_def demo_host_def new_host_def PrivKeyBytesLen_def Let_def)
  then obtain addrs n where "easy_start (new_host (hn_config demo_host)) = (Inr addrs, n)" by blast
  from host_start_window [OF easy_start_def this] show ?thesis by (rule conjunct1)
qed

section \<open>Before Start\<close>

text \<open>
  Before \<open>Start\<close> has set the host every call but \<open>Peerstore\<close> and \<open>Host\<close> panics; those that emit an event have
  emitted it by then.
\<close>

lemma unstarted_calls:
  assumes "\<not> hn_started n"
  shows "node_network net n = Inl nil_deref" "node_connectedness net p n = Inl nil_deref"
    "node_add_protocols r n = Inl nil_deref" "node_connect_to_peer p r n = ([BeforePeerConnect p], Inl nil_deref)"
    "node_disconnect_from_peer p r n = ([BeforePeerDisconnect p], Inl nil_deref)" "node_peerstore s n = None"
  using assms by (simp_all add: node_network_def node_connectedness_def node_add_protocols_def node_connect_to_peer_def
      node_disconnect_from_peer_def node_peerstore_def of_host_def connect_to_host_def disconnect_from_host_def)

section \<open>Local nodes\<close>

text \<open>
  \<open>createLocalNode\<close> of the host, which nothing calls, and of discovery v5: what they set on the node of the library,
  in order. \<open>enr.UDP\<close> and \<open>enr.TCP\<close> are uint16, the fallback port is an int. \<open>db\<close> is the error of opening the
  node database, \<open>raw\<close> what the key gives as bytes.
\<close>

datatype enr_setting = SetIP bytes | SetUDP "16 word" | SetTCP "16 word" | SetFallbackIP bytes | SetFallbackUDP int

definition local_node_settings :: "bytes \<Rightarrow> int \<Rightarrow> int \<Rightarrow> enr_setting list" where
  "local_node_settings ip udp_port tcp_port =
     [SetIP ip, SetUDP (word_of_int udp_port), SetTCP (word_of_int tcp_port), SetFallbackIP ip, SetFallbackUDP udp_port]"

definition host_create_local_node ::
  "string option \<Rightarrow> string + bytes \<Rightarrow> bytes \<Rightarrow> int \<Rightarrow> int \<Rightarrow> string + (bytes \<times> enr_setting list)" where
  "host_create_local_node db raw ip udp_port tcp_port =
     (case db of
        Some e \<Rightarrow> Inl e
      | None \<Rightarrow> (case raw of Inl e \<Rightarrow> Inl e | Inr k \<Rightarrow> Inr (k, local_node_settings ip udp_port tcp_port)))"

definition create_local_node_v5 ::
  "string option \<Rightarrow> bytes \<Rightarrow> bytes \<Rightarrow> int \<Rightarrow> int \<Rightarrow> string + (bytes \<times> enr_setting list)" where
  "create_local_node_v5 db priv_key ip udp_port tcp_port =
     (case db of Some e \<Rightarrow> Inl e | None \<Rightarrow> Inr (priv_key, local_node_settings ip udp_port tcp_port))"

text \<open>The record gets the port of the configuration modulo 65536, the fallback the port itself.\<close>

lemma local_node_ports:
  assumes "host_create_local_node db (Inr k) ip udp_port tcp_port = Inr (k', settings)"
  shows "\<exists>u t. SetUDP u \<in> set settings \<and> uint u = udp_port mod 65536 \<and> SetTCP t \<in> set settings \<and> uint t = tcp_port mod 65536"
    and "SetFallbackUDP udp_port \<in> set settings" and "k' = k"
  using assms
  by (auto simp: host_create_local_node_def local_node_settings_def uint_word_of_int split: option.splits)

text \<open>The settings of both, in \<open>createListener\<close> with the unspecified address and the ports 0.\<close>

lemma local_node_v5_agrees:
  "create_local_node_v5 db k ip udp_port tcp_port = host_create_local_node db (Inr k) ip udp_port tcp_port"
  by (cases db) (simp_all add: create_local_node_v5_def host_create_local_node_def)

end
