(* ===== verification/ProcessorLoop.thy ===== *)
theory ProcessorLoop
  imports Gossip Interfaces "HOL-Library.Multiset"
begin

text \<open>
  The life of one processor (\<open>start\<close>, \<open>run\<close> and \<open>stop\<close> of \<open>pubsub/v1/subscription.go\<close>, \<open>createProcessor\<close> of
  \<open>gossipsub.go\<close>) as a machine: the loop, the goroutines it starts for messages, the calls of \<open>stop\<close>,
  which the clean-up of a subscription and \<open>Stop\<close> of the instance both make, and the end of the context it was
  made from. What libp2p's \<open>Next\<close> returns is the label of a step. What a goroutine does with its message is
  \<open>process_message\<close> of \<open>Gossip\<close>.
\<close>

section \<open>State and steps\<close>

datatype loop_phase = LoopNew | Looping | LoopEnded

text \<open>A call of \<open>stop\<close> that has cancelled the context, or has waited for the loop too.\<close>

datatype stop_call = StopWaiting | StopWaited

text \<open>\<open>pr_late\<close>: the loop was started when a call of \<open>stop\<close> had already waited for it.\<close>

record 'm processor_world =
  pr_ctx_done :: bool
  pr_sub_cancelled :: bool
  pr_wait_group :: nat
  pr_loop :: loop_phase
  pr_stops :: "stop_call list"
  pr_stopped :: nat
  pr_taken :: "'m list"
  pr_busy :: "'m list"
  pr_done :: "'m list"
  pr_failures :: nat
  pr_late :: bool

definition processor_new :: "'m processor_world" where
  "processor_new = \<lparr>pr_ctx_done = False, pr_sub_cancelled = False, pr_wait_group = 0, pr_loop = LoopNew, pr_stops = [],
     pr_stopped = 0, pr_taken = [], pr_busy = [], pr_done = [], pr_failures = 0, pr_late = False\<rparr>"

definition past_wait :: "'m processor_world \<Rightarrow> bool" where
  "past_wait p \<longleftrightarrow> StopWaited \<in> set (pr_stops p) \<or> 0 < pr_stopped p"

definition processor_start :: "'m processor_world \<Rightarrow> 'm processor_world" where
  "processor_start p = p\<lparr>pr_wait_group := Suc (pr_wait_group p), pr_loop := Looping, pr_late := past_wait p\<rparr>"

text \<open>One round of \<open>run\<close>: \<open>Next\<close> gave a message, or an error.\<close>

definition run_message :: "'m \<Rightarrow> 'm processor_world \<Rightarrow> 'm processor_world" where
  "run_message msg p = p\<lparr>pr_taken := pr_taken p @ [msg], pr_busy := pr_busy p @ [msg]\<rparr>"

definition run_failure :: "'m processor_world \<Rightarrow> 'm processor_world" where
  "run_failure p =
     (if pr_ctx_done p then p\<lparr>pr_loop := LoopEnded, pr_wait_group := pr_wait_group p - 1\<rparr>
      else p\<lparr>pr_failures := Suc (pr_failures p)\<rparr>)"

definition stop_cancel :: "'m processor_world \<Rightarrow> 'm processor_world" where
  "stop_cancel p = p\<lparr>pr_ctx_done := True, pr_stops := pr_stops p @ [StopWaiting]\<rparr>"

definition stop_wait :: "nat \<Rightarrow> 'm processor_world \<Rightarrow> 'm processor_world" where
  "stop_wait i p = p\<lparr>pr_stops := (pr_stops p)[i := StopWaited]\<rparr>"

definition stop_unsubscribe :: "nat \<Rightarrow> 'm processor_world \<Rightarrow> 'm processor_world" where
  "stop_unsubscribe i p =
     p\<lparr>pr_sub_cancelled := True, pr_stops := take i (pr_stops p) @ drop (Suc i) (pr_stops p), pr_stopped := Suc (pr_stopped p)\<rparr>"

definition message_done :: "nat \<Rightarrow> 'm processor_world \<Rightarrow> 'm processor_world" where
  "message_done i p =
     p\<lparr>pr_busy := take i (pr_busy p) @ drop (Suc i) (pr_busy p), pr_done := pr_done p @ [pr_busy p ! i]\<rparr>"

datatype 'm processor_label =
    PStart | PMessage 'm | PFailure | PStopCancel | PStopWait nat | PStopSub nat | PCtxDone | PDone nat

fun processor_do :: "'m processor_label \<Rightarrow> 'm processor_world \<Rightarrow> 'm processor_world option" where
  "processor_do PStart p = (if pr_loop p = LoopNew then Some (processor_start p) else None)"
| "processor_do (PMessage msg) p = (if pr_loop p = Looping then Some (run_message msg p) else None)"
| "processor_do PFailure p = (if pr_loop p = Looping then Some (run_failure p) else None)"
| "processor_do PStopCancel p = Some (stop_cancel p)"
| "processor_do (PStopWait i) p =
     (if i < length (pr_stops p) \<and> pr_stops p ! i = StopWaiting \<and> pr_wait_group p = 0 then Some (stop_wait i p) else None)"
| "processor_do (PStopSub i) p =
     (if i < length (pr_stops p) \<and> pr_stops p ! i = StopWaited then Some (stop_unsubscribe i p) else None)"
| "processor_do PCtxDone p = Some (p\<lparr>pr_ctx_done := True\<rparr>)"
| "processor_do (PDone i) p = (if i < length (pr_busy p) then Some (message_done i p) else None)"

inductive processor_step :: "'m processor_world \<Rightarrow> 'm processor_label \<Rightarrow> 'm processor_world \<Rightarrow> bool" where
  "processor_do l p = Some p' \<Longrightarrow> processor_step p l p'"

inductive_simps processor_step_iff: "processor_step p l p'"

text \<open>
  \<open>createProcessor\<close>: the checks of \<open>newProcessor\<close>, then the entry of the map, under its own lock; \<open>Subscribe\<close>
  writes the same entry again.
\<close>

definition create_processor :: "string option \<Rightarrow> 'a handler_config option \<Rightarrow> bool \<Rightarrow> nat \<Rightarrow> ('a gossip, string, nat) act" where
  "create_processor topic handler has_sub i g =
     (case new_processor topic handler has_sub of
        Some e \<Rightarrow> (Inl e, g)
      | None \<Rightarrow> (Inr i, g\<lparr>g_processors := AList.update (the topic) i (g_processors g)\<rparr>))"

text \<open>So \<open>Subscribe\<close> does with the entry what \<open>add_subscription\<close> says.\<close>

lemma create_processor_absorbed:
  "create_processor (Some name) (Some h) True (g_next g) g = (r, g') \<Longrightarrow>
     r = Inr (g_next g) \<and> add_subscription name g' = add_subscription name g"
proof -
  have twice: "AList.update name i (AList.update name i xs) = AList.update name i xs" for i :: nat and xs
    by (induction xs) auto
  assume "create_processor (Some name) (Some h) True (g_next g) g = (r, g')"
  then show ?thesis by (auto simp: create_processor_def add_subscription_def Let_def twice)
qed

text \<open>\<open>IsStarted\<close> and \<open>Registry\<close> of the instance.\<close>

definition is_started :: "'a gossip \<Rightarrow> bool" where "is_started g = g_started g"
definition gossip_registry :: "'a gossip \<Rightarrow> 'a registry" where "gossip_registry g = g_registry g"

section \<open>The invariant\<close>

definition processor_inv :: "'m processor_world \<Rightarrow> bool" where
  "processor_inv p \<longleftrightarrow>
     pr_wait_group p = (if pr_loop p = Looping then 1 else 0) \<and>
     (pr_stops p \<noteq> [] \<or> 0 < pr_stopped p \<longrightarrow> pr_ctx_done p) \<and>
     (0 < pr_stopped p \<longrightarrow> pr_sub_cancelled p) \<and>
     (past_wait p \<longrightarrow> pr_loop p \<noteq> Looping \<or> pr_late p) \<and>
     (pr_loop p = LoopEnded \<longrightarrow> pr_ctx_done p) \<and>
     mset (pr_taken p) = mset (pr_busy p) + mset (pr_done p)"

lemma set_without: "set (take i xs @ drop (Suc i) xs) \<subseteq> set xs"
  by (auto dest: in_set_takeD in_set_dropD)

lemma mset_without: "i < length xs \<Longrightarrow> mset xs = add_mset (xs ! i) (mset (take i xs @ drop (Suc i) xs))"
proof -
  assume "i < length xs"
  then have "mset xs = mset (take i xs @ xs ! i # drop (Suc i) xs)" by (simp add: id_take_nth_drop [symmetric])
  then show ?thesis by simp
qed

lemma processor_step_inv:
  assumes "processor_inv p" "processor_step p l p'"
  shows "processor_inv p'"
proof -
  from assms(2) have step: "processor_do l p = Some p'" by (simp add: processor_step_iff)
  show ?thesis
  proof (cases l)
    case PStart
    with step have "pr_loop p = LoopNew" "p' = processor_start p" by (simp_all split: if_splits)
    with assms(1) show ?thesis by (simp add: processor_inv_def processor_start_def past_wait_def)
  next
    case (PMessage msg)
    with step have "p' = run_message msg p" by (simp split: if_splits)
    with assms(1) show ?thesis by (simp add: processor_inv_def run_message_def past_wait_def)
  next
    case PFailure
    with step have "pr_loop p = Looping" "p' = run_failure p" by (simp_all split: if_splits)
    with assms(1) show ?thesis by (cases "pr_ctx_done p") (simp_all add: processor_inv_def run_failure_def past_wait_def)
  next
    case PStopCancel
    with step have "p' = stop_cancel p" by simp
    with assms(1) show ?thesis by (simp add: processor_inv_def stop_cancel_def past_wait_def)
  next
    case (PStopWait i)
    with step have "i < length (pr_stops p)" "pr_wait_group p = 0" "p' = stop_wait i p" by (simp_all split: if_splits)
    moreover from this assms(1) have "pr_loop p \<noteq> Looping" by (auto simp: processor_inv_def)
    ultimately show ?thesis using assms(1) by (auto simp: processor_inv_def stop_wait_def)
  next
    case (PStopSub i)
    then have i: "i < length (pr_stops p)" "pr_stops p ! i = StopWaited" "p' = stop_unsubscribe i p"
      using step by (simp_all split: if_splits)
    then have "past_wait p" "pr_stops p \<noteq> []" by (auto simp: past_wait_def in_set_conv_nth)
    with i(3) assms(1) show ?thesis unfolding processor_inv_def by (simp add: stop_unsubscribe_def)
  next
    case PCtxDone
    with step have "p' = p\<lparr>pr_ctx_done := True\<rparr>" by simp
    with assms(1) show ?thesis by (simp add: processor_inv_def past_wait_def)
  next
    case (PDone i)
    then have i: "i < length (pr_busy p)" "p' = message_done i p" using step by (simp_all split: if_splits)
    with mset_without [OF i(1)] assms(1) show ?thesis by (simp add: processor_inv_def message_done_def past_wait_def)
  qed
qed

interpretation processor: step_machine "\<lambda>p. p = processor_new" processor_step processor_inv
proof unfold_locales
  show "processor_inv t" if "processor_inv s" "processor_step s l t" for s t :: "'a processor_world" and l
    using that by (rule processor_step_inv)
qed (simp add: processor_inv_def processor_new_def past_wait_def)

section \<open>Stopping\<close>

lemma ended_stays:
  "processor_step p l p' \<Longrightarrow> pr_loop p = LoopEnded \<Longrightarrow> pr_loop p' = LoopEnded \<and> pr_taken p' = pr_taken p"
  unfolding processor_step_iff
  by (cases l) (auto simp: stop_cancel_def stop_wait_def stop_unsubscribe_def message_done_def split: if_splits)

lemma later_ended:
  assumes "reachable (\<lambda>q. q = p) processor_step p'" "pr_loop p = LoopEnded"
  shows "pr_loop p' = LoopEnded \<and> pr_taken p' = pr_taken p"
  using assms(1)
proof (induction rule: reachable.induct)
  case (reach_step s l t)
  from reach_step.IH ended_stays [OF reach_step.hyps(2)] show ?case by simp
qed (use assms(2) in simp)

lemma later_reachable:
  "reachable (\<lambda>q. q = p) step p' \<Longrightarrow> reachable init step p \<Longrightarrow> reachable init step p'"
proof (induction rule: reachable.induct)
  case (reach_step s l t)
  show ?case by (rule reachable.reach_step [OF reach_step.IH [OF reach_step.prems] reach_step.hyps(2)])
qed simp


fun processor_run :: "'m processor_label list \<Rightarrow> 'm processor_world \<Rightarrow> 'm processor_world option" where
  "processor_run [] p = Some p"
| "processor_run (l # ls) p = (case processor_do l p of None \<Rightarrow> None | Some p' \<Rightarrow> processor_run ls p')"

lemma processor_run_reachable:
  "processor_run ls p = Some p' \<Longrightarrow> reachable init processor_step p \<Longrightarrow> reachable init processor_step p'"
proof (induction ls arbitrary: p)
  case (Cons l ls)
  then obtain q where q: "processor_do l p = Some q" "processor_run ls q = Some p'" by (auto split: option.splits)
  have "reachable init processor_step q" using Cons.prems(2) processor_step.intros [OF q(1)] by (rule reach_step)
  with q(2) show ?case by (rule Cons.IH)
qed simp


text \<open>
  A subscription that ends while the context of its processor lives, as when the instance's own context is
  cancelled and the one given to \<open>Subscribe\<close> is another, makes the loop ask again and again: it neither ends nor
  waits, and nothing is logged.
\<close>

theorem processor_spins:
  assumes "pr_loop p = Looping" "\<not> pr_ctx_done p"
  shows "processor_run (replicate n PFailure) p = Some (p\<lparr>pr_failures := pr_failures p + n\<rparr>)"
  using assms by (induction n arbitrary: p) (simp_all add: run_failure_def)

text \<open>
  \<open>Subscribe\<close> starts the clean-up goroutine before the loop: with a context that is done already, \<open>stop\<close> can
  return before the loop starts, which then still takes a message of its cancelled subscription if one is there.
\<close>

theorem processor_starts_late:
  "\<exists>p. reachable (\<lambda>p. p = processor_new) processor_step p \<and> 0 < pr_stopped p \<and> pr_loop p = Looping \<and> pr_late p"
proof -
  let ?ls = "[PCtxDone, PStopCancel, PStopWait 0, PStopSub 0, PStart] :: 'a processor_label list"
  have "\<exists>p. processor_run ?ls processor_new = Some p \<and> 0 < pr_stopped p \<and> pr_loop p = Looping \<and> pr_late p"
    by (simp add: processor_new_def processor_start_def stop_cancel_def stop_wait_def stop_unsubscribe_def past_wait_def)
  moreover have "reachable (\<lambda>p. p = processor_new) processor_step (processor_new :: 'a processor_world)"
    by (rule reach_init) simp
  ultimately show ?thesis using processor_run_reachable by blast
qed

end
