(* ===== verification/MessageText.thy ===== *)
theory MessageText
  imports EthMessages Serialize
begin

text \<open>
  The printed forms of the consensus messages and the custody group count as a value of its own
  (\<open>pkg/consensus/mimicry/p2p/eth/status.go\<close>, \<open>metadata.go\<close>), and the printed signature of
  \<open>pkg/ethereum/serialize/serialization.go\<close>. The String methods of fork digests and roots, the formatter of
  signatures and the SSZ form of a uint64 belong to other modules and are parameters.
\<close>

section \<open>The custody group count\<close>

record uint64_lib =
  ul_write :: "u64 \<Rightarrow> bytes"
  ul_read :: "bytes \<Rightarrow> string + u64"
  ul_root :: "u64 \<Rightarrow> bytes"

definition lawful_uint64 :: "uint64_lib \<Rightarrow> bool" where
  "lawful_uint64 L \<longleftrightarrow> (\<forall>n. ul_read L (ul_write L n) = Inr n \<and> length (ul_write L n) = 8)"

definition custody_deserialize :: "uint64_lib \<Rightarrow> bytes \<Rightarrow> string + u64" where
  "custody_deserialize L d = ul_read L d"

definition custody_serialize :: "uint64_lib \<Rightarrow> u64 \<Rightarrow> bytes" where
  "custody_serialize L c = ul_write L c"

definition custody_hash_tree_root :: "uint64_lib \<Rightarrow> u64 \<Rightarrow> bytes" where
  "custody_hash_tree_root L c = ul_root L c"

lemma custody_wire:
  "lawful_uint64 L \<Longrightarrow> custody_deserialize L (custody_serialize L c) = Inr c \<and> length (custody_serialize L c) = custody_byte_length"
  by (simp add: lawful_uint64_def custody_deserialize_def custody_serialize_def custody_byte_length_def)

section \<open>Printing\<close>

text \<open>\<open>%08b\<close> of a byte, and of an array of bytes\<close>

definition binary_octet :: "u8 \<Rightarrow> string" where
  "binary_octet b = map (\<lambda>i. if bit b i then CHR ''1'' else CHR ''0'') [7, 6, 5, 4, 3, 2, 1, 0]"

fun binary_octets :: "bytes \<Rightarrow> string" where
  "binary_octets [] = []"
| "binary_octets [b] = binary_octet b"
| "binary_octets (b # bs) = binary_octet b @ '' '' @ binary_octets bs"

definition binary_bytes :: "bytes \<Rightarrow> string" where
  "binary_bytes bs = ''['' @ binary_octets bs @ '']''"

definition dec64 :: "u64 \<Rightarrow> string" where
  "dec64 w = dec_of_nat (unat w)"

definition metadata_v3_string :: "metadata_v3 \<Rightarrow> string" where
  "metadata_v3_string m =
     ''MetaDataV3(seq: '' @ dec64 (m3_seq_number m) @ '', attnet bits: '' @ binary_bytes (m3_attnets m) @
     '', syncnet bits: '' @ binary_bytes (m3_syncnets m) @ '', custody_group_count: '' @ dec64 (m3_custody_group_count m) @ '')''"

definition status_v2_string :: "(bytes \<Rightarrow> string) \<Rightarrow> (bytes \<Rightarrow> string) \<Rightarrow> status_v2 \<Rightarrow> string" where
  "status_v2_string show_digest show_root s =
     ''StatusV2(fork_digest: '' @ show_digest (s2_fork_digest s) @ '', finalized_root: '' @ show_root (s2_finalized_root s) @
     '', finalized_epoch: '' @ dec64 (s2_finalized_epoch s) @ '', head_root: '' @ show_root (s2_head_root s) @
     '', head_slot: '' @ dec64 (s2_head_slot s) @ '', earliest_available_slot: '' @ dec64 (s2_earliest_available_slot s) @ '')''"

text \<open>\<open>%#x\<close> of a pointer to a signature: the formatter is that of the signature, and \<open>fmt\<close> prints a nil pointer itself.\<close>

definition bls_signature_to_string :: "(bytes \<Rightarrow> string) \<Rightarrow> bytes option \<Rightarrow> string" where
  "bls_signature_to_string format s = (case s of None \<Rightarrow> ''<nil>'' | Some sig \<Rightarrow> format sig)"

text \<open>With the documented formatter the text of a signature gives the signature back.\<close>

lemma bls_signature_decodes:
  "bls_signature_to_string prefixed_hex (Some sig) = text \<Longrightarrow> length sig = 96 \<Longrightarrow>
     take 2 text = ''0x'' \<and> hex_decode (drop 2 text) = Inr sig"
  by (auto simp: bls_signature_to_string_def prefixed_hex_def)

section \<open>Messages that print alike are alike\<close>

text \<open>A text up to a character that it does not contain.\<close>

lemma split_at_char:
  "c \<notin> set xs \<Longrightarrow> c \<notin> set ys \<Longrightarrow> xs @ c # r = ys @ c # r' \<longleftrightarrow> xs = ys \<and> r = r'"
proof (induction xs arbitrary: ys)
  case Nil
  then show ?case by (cases ys) auto
next
  case (Cons x xs)
  then show ?case by (cases ys) auto
qed

lemma length_binary_octet [simp]: "length (binary_octet b) = 8"
  by (simp add: binary_octet_def)

lemma binary_octet_eq [simp]: "binary_octet b = binary_octet c \<longleftrightarrow> b = c"
proof
  assume eq: "binary_octet b = binary_octet c"
  have same: "(if p then CHR ''1'' else CHR ''0'') = (if q then CHR ''1'' else CHR ''0'') \<longleftrightarrow> p = q" for p q
    by simp
  have "bit b i = bit c i" if "i < 8" for i
  proof -
    from that have "i \<in> {0, 1, 2, 3, 4, 5, 6, 7}" by auto
    with eq show ?thesis by (auto simp: binary_octet_def same split: if_splits)
  qed
  then show "b = c" by (intro bit_word_eqI) simp
qed simp

lemma binary_octets_eq: "length bs = length cs \<Longrightarrow> binary_octets bs = binary_octets cs \<longleftrightarrow> bs = cs"
proof (induction bs cs rule: list_induct2)
  case (Cons b bs c cs)
  then show ?case by (cases bs; cases cs) auto
qed simp

lemma binary_octets_no_char: "c \<notin> {CHR ''0'', CHR ''1'', CHR '' ''} \<Longrightarrow> c \<notin> set (binary_octets bs)"
  by (induction bs rule: binary_octets.induct) (auto simp: binary_octet_def)

lemma binary_bytes_field:
  assumes "length bs = length cs"
  shows "binary_bytes bs @ r = binary_bytes cs @ r' \<longleftrightarrow> bs = cs \<and> r = r'"
proof -
  have "CHR '']'' \<notin> set (binary_octets xs)" for xs by (rule binary_octets_no_char) simp
  then show ?thesis by (simp add: binary_bytes_def split_at_char binary_octets_eq [OF assms])
qed

lemma dec64_eq [simp]: "dec64 m = dec64 n \<longleftrightarrow> m = n"
  by (simp add: dec64_def) (metis unsigned_word_eqI)

lemma dec64_field:
  "digit_val c = None \<Longrightarrow> dec64 m @ c # r = dec64 n @ c # r' \<longleftrightarrow> m = n \<and> r = r'"
  using split_at_char [of c "dec64 m" "dec64 n"] by (simp add: dec64_def [THEN arg_cong, of set] dec_of_nat_no_char)

lemma no_digits: "digit_val CHR '','' = None" "digit_val CHR '')'' = None"
  by code_simp+

lemma metadata_v3_string_eq:
  assumes "metadata_v3_ok m" "metadata_v3_ok m'"
  shows "metadata_v3_string m = metadata_v3_string m' \<longleftrightarrow> m = m'"
proof -
  have len: "length (m3_attnets m) = length (m3_attnets m')" "length (m3_syncnets m) = length (m3_syncnets m')"
    using assms by (simp_all add: metadata_v3_ok_def)
  note att = binary_bytes_field [OF len(1)] and syn = binary_bytes_field [OF len(2)]
  show ?thesis
    by (cases m; cases m') (use att syn in \<open>simp add: metadata_v3_string_def dec64_field no_digits\<close>)
qed

lemma status_v2_string_eq:
  assumes "inj show_digest" "inj show_root" "\<And>b. CHR '','' \<notin> set (show_digest b)" "\<And>b. CHR '','' \<notin> set (show_root b)"
  shows "status_v2_string show_digest show_root s = status_v2_string show_digest show_root s' \<longleftrightarrow> s = s'"
  using inj_eq [OF assms(1)] inj_eq [OF assms(2)] assms(3,4)
  by (cases s; cases s') (simp add: status_v2_string_def dec64_field split_at_char no_digits)

text \<open>
  what the library logs of a message identifies it: two metadata messages of the new version with
  fields of their fixed lengths print alike only if they are equal, and so do two status messages, as
  long as the library prints different digests and different roots differently and without a comma.
\<close>

theorem message_text_faithful:
  assumes "inj show_digest" "inj show_root" "\<And>b. CHR '','' \<notin> set (show_digest b)" "\<And>b. CHR '','' \<notin> set (show_root b)"
    and "metadata_v3_ok m" "metadata_v3_ok m'"
  shows "(metadata_v3_string m = metadata_v3_string m' \<longleftrightarrow> m = m') \<and>
    (status_v2_string show_digest show_root s = status_v2_string show_digest show_root s' \<longleftrightarrow> s = s')"
  using metadata_v3_string_eq [OF assms(5,6)] status_v2_string_eq [OF assms(1-4)] by blast

lemma message_text_faithful_witness:
  "metadata_v3_string \<lparr>m3_seq_number = 1, m3_attnets = replicate 8 0, m3_syncnets = [3], m3_custody_group_count = 4\<rparr> \<noteq>
   metadata_v3_string \<lparr>m3_seq_number = 1, m3_attnets = replicate 8 0, m3_syncnets = [2], m3_custody_group_count = 4\<rparr>"
proof -
  have inj: "inj hex_of_bytes" by (rule injI) (metis hex_decode_encode sum.inject(2))
  have free: "CHR '','' \<notin> set (hex_of_bytes b)" for b by (rule hex_of_bytes_no_char) code_simp
  let ?m = "\<lambda>b. \<lparr>m3_seq_number = 1, m3_attnets = replicate 8 0, m3_syncnets = [b], m3_custody_group_count = 4\<rparr> :: metadata_v3"
  have "metadata_v3_ok (?m b)" for b by (simp add: metadata_v3_ok_def)
  from message_text_faithful [OF inj inj free free this this, of 3 2] show ?thesis by simp
qed

end
