(* ===== verification/CacheMeters.thy ===== *)
theory CacheMeters
  imports Meters
begin

text \<open>
  The duplicate cache with its configuration and its Prometheus vectors (\<open>pkg/cache/duplicate.go\<close>,
  \<open>metrics.go\<close>). \<open>Cache\<close> has the operations with counters of their own; here each operation makes the calls on
  the vectors, with the label values of the instance, and the two are compared. The TTL cache is the
  parameter of \<open>Cache\<close>, the vectors that of \<open>Meters\<close>.
\<close>

section \<open>Configuration\<close>

record cache_config =
  kc_ttl :: int
  kc_capacity :: u64
  kc_on_eviction :: bool
  kc_metrics :: "(string list \<times> metrics_config) option"

definition default_cache_config :: cache_config where
  "default_cache_config = \<lparr>kc_ttl = 5 * 60 * 10 ^ 9, kc_capacity = 0, kc_on_eviction = False, kc_metrics = None\<rparr>"

datatype ttl_option = WithTTL int | WithCapacity u64

definition ttl_options :: "cache_config \<Rightarrow> ttl_option list" where
  "ttl_options cfg = WithTTL (kc_ttl cfg) # (if 0 < kc_capacity cfg then [WithCapacity (kc_capacity cfg)] else [])"

text \<open>The cache, whether the TTL cache got a callback for evictions, and the registry.\<close>

definition new_cache_with_config ::
  "'r registerer \<Rightarrow> (ttl_option list \<Rightarrow> 'c) \<Rightarrow> cache_config \<Rightarrow> 'r \<Rightarrow> 'c dup_cache \<times> bool \<times> 'r" where
  "new_cache_with_config R ttl_new cfg r =
     (case new_duplicate_cache R (ttl_new (ttl_options cfg)) (kc_metrics cfg) r of
        (d, r') \<Rightarrow> (d, kc_on_eviction cfg \<or> kc_metrics cfg \<noteq> None, r'))"

definition new_cache_ttl :: "'r registerer \<Rightarrow> (ttl_option list \<Rightarrow> 'c) \<Rightarrow> int \<Rightarrow> 'r \<Rightarrow> 'c dup_cache \<times> bool \<times> 'r" where
  "new_cache_ttl R ttl_new ttl r = new_cache_with_config R ttl_new (default_cache_config\<lparr>kc_ttl := ttl\<rparr>) r"

definition get_cache :: "'c dup_cache \<Rightarrow> 'c" where
  "get_cache d = dc_cache d"

text \<open>A cache made from a time to live alone has no limit, no metrics and no callback, and touches no registry.\<close>

lemma new_cache_ttl_plain:
  "\<exists>d. new_cache_ttl R ttl_new ttl r = (d, False, r) \<and> get_cache d = ttl_new [WithTTL ttl] \<and> dc_metrics d = None"
  by (simp add: new_cache_ttl_def new_cache_with_config_def new_duplicate_cache_def default_cache_config_def ttl_options_def
      get_cache_def)

section \<open>The vectors\<close>

datatype cache_vector = CacheInsertions | CacheHits | CacheMisses | CacheEvictions | CacheSize

type_synonym 'f cache_meters = "(cache_vector, 'f) meters"
type_synonym 'f cache_meter_act = "(cache_vector, 'f) meter_act"

definition inc_insertions :: "vec_lib \<Rightarrow> string list \<Rightarrow> string list \<Rightarrow> 'f cache_meter_act" where
  "inc_insertions V names vals = with_label_values V (\<lambda>_. names) CacheInsertions vals (count_up CacheInsertions vals)"

definition inc_hits :: "vec_lib \<Rightarrow> string list \<Rightarrow> string list \<Rightarrow> 'f cache_meter_act" where
  "inc_hits V names vals = with_label_values V (\<lambda>_. names) CacheHits vals (count_up CacheHits vals)"

definition inc_misses :: "vec_lib \<Rightarrow> string list \<Rightarrow> string list \<Rightarrow> 'f cache_meter_act" where
  "inc_misses V names vals = with_label_values V (\<lambda>_. names) CacheMisses vals (count_up CacheMisses vals)"

definition inc_evictions :: "vec_lib \<Rightarrow> string list \<Rightarrow> string list \<Rightarrow> 'f cache_meter_act" where
  "inc_evictions V names vals = with_label_values V (\<lambda>_. names) CacheEvictions vals (count_up CacheEvictions vals)"

definition set_cache_size :: "vec_lib \<Rightarrow> string list \<Rightarrow> nat \<Rightarrow> string list \<Rightarrow> 'f cache_meter_act" where
  "set_cache_size V names n vals = with_label_values V (\<lambda>_. names) CacheSize vals (gauge_to CacheSize vals (GaugeCount (int n)))"

section \<open>Operations with their metrics\<close>

record ('c, 'f) metered_cache =
  md_cache :: "'c dup_cache"
  md_meters :: "'f cache_meters"

text \<open>
  The call on a vector comes after the call on the TTL cache; \<open>labels\<close> are the instance labels of the
  configuration. \<open>f\<close> is what the operation of \<open>Cache\<close> does to its own counters.
\<close>

definition metered_call ::
  "(string \<rightharpoonup> string) \<Rightarrow> (string list \<Rightarrow> string list \<Rightarrow> 'f cache_meter_act) \<Rightarrow> 'a \<Rightarrow> 'c \<Rightarrow> ('c dup_cache \<Rightarrow> 'c dup_cache) \<Rightarrow>
     (('c, 'f) metered_cache, fault, 'a) act" where
  "metered_call labels call res c f w =
     (let d1 = (md_cache w)\<lparr>dc_cache := c\<rparr> in
      case dc_metrics (md_cache w) of
        None \<Rightarrow> (Inr res, w\<lparr>md_cache := d1\<rparr>)
      | Some m \<Rightarrow>
          (case call (cm_labels m) (extract_label_values m labels) (md_meters w) of
             (Inl e, meters) \<Rightarrow> (Inl e, w\<lparr>md_cache := d1, md_meters := meters\<rparr>)
           | (Inr _, meters) \<Rightarrow> (Inr res, w\<lparr>md_cache := f d1, md_meters := meters\<rparr>)))"

definition cache_set_metered ::
  "vec_lib \<Rightarrow> ('c, 'k, 'v) ttl_lib \<Rightarrow> (string \<rightharpoonup> string) \<Rightarrow> 'k \<Rightarrow> 'v \<Rightarrow> int list \<Rightarrow> (('c, 'f) metered_cache, fault, unit) act" where
  "cache_set_metered V L labels k v ttl w =
     metered_call labels (inc_insertions V) () (tl_set L k v (case ttl of t # _ \<Rightarrow> t | [] \<Rightarrow> DefaultTTL) (dc_cache (md_cache w)))
       (\<lambda>d. d\<lparr>dc_insertions := Suc (dc_insertions d)\<rparr>) w"

definition cache_get_metered ::
  "vec_lib \<Rightarrow> ('c, 'k, 'v) ttl_lib \<Rightarrow> (string \<rightharpoonup> string) \<Rightarrow> 'k \<Rightarrow> (('c, 'f) metered_cache, fault, 'v option) act" where
  "cache_get_metered V L labels k w =
     (case tl_get L k (dc_cache (md_cache w)) of
        (item, c) \<Rightarrow> metered_call labels (if item \<noteq> None then inc_hits V else inc_misses V) item c (count_lookup (item \<noteq> None)) w)"

definition cache_has_metered ::
  "vec_lib \<Rightarrow> ('c, 'k, 'v) ttl_lib \<Rightarrow> (string \<rightharpoonup> string) \<Rightarrow> 'k \<Rightarrow> (('c, 'f) metered_cache, fault, bool) act" where
  "cache_has_metered V L labels k w =
     (let has = tl_has L k (dc_cache (md_cache w))
      in metered_call labels (if has then inc_hits V else inc_misses V) has (dc_cache (md_cache w)) (count_lookup has) w)"

definition cache_evicted_metered ::
  "vec_lib \<Rightarrow> (string \<rightharpoonup> string) \<Rightarrow> bool \<Rightarrow> 'k \<times> 'v \<times> nat \<Rightarrow> (('c, 'f) metered_cache, fault, ('k \<times> 'v \<times> nat) list) act" where
  "cache_evicted_metered V labels on_eviction item w =
     metered_call labels (inc_evictions V) (if on_eviction then [item] else []) (dc_cache (md_cache w))
       (\<lambda>d. d\<lparr>dc_evictions := Suc (dc_evictions d)\<rparr>) w"

definition update_metrics_metered ::
  "vec_lib \<Rightarrow> ('c, 'k, 'v) ttl_lib \<Rightarrow> (string \<rightharpoonup> string) \<Rightarrow> (('c, 'f) metered_cache, fault, unit) act" where
  "update_metrics_metered V L labels w =
     (let n = tl_len L (dc_cache (md_cache w))
      in metered_call labels (\<lambda>names. set_cache_size V names n) () (dc_cache (md_cache w)) (\<lambda>d. d\<lparr>dc_size := Some n\<rparr>) w)"

section \<open>What the vectors show\<close>

text \<open>The series of the instance shows the counters of \<open>Cache\<close>.\<close>

definition shows_counters :: "(string \<rightharpoonup> string) \<Rightarrow> ('c, 'f) metered_cache \<Rightarrow> bool" where
  "shows_counters labels w \<longleftrightarrow>
     (case dc_metrics (md_cache w) of
        None \<Rightarrow> True
      | Some m \<Rightarrow>
          (let vals = extract_label_values m labels; d = md_cache w; t = md_meters w in
           mt_count t CacheInsertions vals = dc_insertions d \<and> mt_count t CacheHits vals = dc_hits d \<and>
           mt_count t CacheMisses vals = dc_misses d \<and> mt_count t CacheEvictions vals = dc_evictions d \<and>
           mt_gauge t CacheSize vals = map_option (\<lambda>n. GaugeCount (int n)) (dc_size d)))"

definition labels_printable :: "(string \<rightharpoonup> string) \<Rightarrow> ('c, 'f) metered_cache \<Rightarrow> bool" where
  "labels_printable labels w \<longleftrightarrow>
     (case dc_metrics (md_cache w) of None \<Rightarrow> True | Some m \<Rightarrow> list_all utf8_valid (extract_label_values m labels))"

text \<open>A call with these labels that only touches its own series does not panic.\<close>

lemma metered_call_ok:
  assumes "call = (\<lambda>names vals. with_label_values V (\<lambda>_. names) k vals (g vals))" "lawful_vectors V" "labels_printable labels w"
  shows "metered_call labels call res c f w =
    (Inr res, case dc_metrics (md_cache w) of
       None \<Rightarrow> w\<lparr>md_cache := (md_cache w)\<lparr>dc_cache := c\<rparr>\<rparr>
     | Some m \<Rightarrow> w\<lparr>md_cache := f ((md_cache w)\<lparr>dc_cache := c\<rparr>), md_meters := g (extract_label_values m labels) (md_meters w)\<rparr>)"
proof (cases "dc_metrics (md_cache w)")
  case (Some m)
  have "length (extract_label_values m labels) = length (cm_labels m)" by (simp add: extract_label_values_def)
  with Some assms(3) have "call (cm_labels m) (extract_label_values m labels) (md_meters w) =
      (Inr (), g (extract_label_values m labels) (md_meters w))"
    unfolding assms(1) by (intro with_label_values_ok [OF assms(2)]) (simp_all add: labels_printable_def)
  with Some show ?thesis by (simp add: metered_call_def)
qed (simp add: metered_call_def)

lemma vector_calls:
  "inc_insertions V = (\<lambda>names vals. with_label_values V (\<lambda>_. names) CacheInsertions vals (count_up CacheInsertions vals))"
  "inc_hits V = (\<lambda>names vals. with_label_values V (\<lambda>_. names) CacheHits vals (count_up CacheHits vals))"
  "inc_misses V = (\<lambda>names vals. with_label_values V (\<lambda>_. names) CacheMisses vals (count_up CacheMisses vals))"
  "inc_evictions V = (\<lambda>names vals. with_label_values V (\<lambda>_. names) CacheEvictions vals (count_up CacheEvictions vals))"
  "(\<lambda>names. set_cache_size V names n) =
     (\<lambda>names vals. with_label_values V (\<lambda>_. names) CacheSize vals (gauge_to CacheSize vals (GaugeCount (int n))))"
  by (simp_all add: fun_eq_iff inc_insertions_def inc_hits_def inc_misses_def inc_evictions_def set_cache_size_def)

lemmas metered_calls = vector_calls [THEN metered_call_ok]

text \<open>Any of the operations, with and without its metrics.\<close>

datatype ('k, 'v) cache_op = OpSet 'k 'v "int list" | OpGet 'k | OpHas 'k | OpEvict "'k \<times> 'v \<times> nat" | OpUpdate

datatype ('k, 'v) cache_result = ResDone | ResItem "'v option" | ResHas bool | ResCalled "('k \<times> 'v \<times> nat) list"

fun cache_do :: "('c, 'k, 'v) ttl_lib \<Rightarrow> bool \<Rightarrow> ('k, 'v) cache_op \<Rightarrow> 'c dup_cache \<Rightarrow> ('k, 'v) cache_result \<times> 'c dup_cache" where
  "cache_do L ev (OpSet k v ttl) d = (ResDone, cache_set L k v ttl d)"
| "cache_do L ev (OpGet k) d = (case cache_get L k d of (x, d') \<Rightarrow> (ResItem x, d'))"
| "cache_do L ev (OpHas k) d = (case cache_has L k d of (x, d') \<Rightarrow> (ResHas x, d'))"
| "cache_do L ev (OpEvict item) d = (case cache_evicted ev item d of (x, d') \<Rightarrow> (ResCalled x, d'))"
| "cache_do L ev OpUpdate d = (ResDone, cache_update_metrics L d)"

definition act_map :: "('a \<Rightarrow> 'b) \<Rightarrow> ('s, 'e, 'a) act \<Rightarrow> ('s, 'e, 'b) act" where
  "act_map f m = act_bind m (\<lambda>x. act_return (f x))"

fun cache_do_metered ::
  "vec_lib \<Rightarrow> ('c, 'k, 'v) ttl_lib \<Rightarrow> (string \<rightharpoonup> string) \<Rightarrow> bool \<Rightarrow> ('k, 'v) cache_op \<Rightarrow>
     (('c, 'f) metered_cache, fault, ('k, 'v) cache_result) act" where
  "cache_do_metered V L labels ev (OpSet k v ttl) = act_map (\<lambda>_. ResDone) (cache_set_metered V L labels k v ttl)"
| "cache_do_metered V L labels ev (OpGet k) = act_map ResItem (cache_get_metered V L labels k)"
| "cache_do_metered V L labels ev (OpHas k) = act_map ResHas (cache_has_metered V L labels k)"
| "cache_do_metered V L labels ev (OpEvict item) = act_map ResCalled (cache_evicted_metered V labels ev item)"
| "cache_do_metered V L labels ev OpUpdate = act_map (\<lambda>_. ResDone) (update_metrics_metered V L labels)"

lemma act_map_Inr: "m s = (Inr x, t) \<Longrightarrow> act_map f m s = (Inr (f x), t)"
  by (simp add: act_map_def act_bind_apply)

lemma cache_do_agrees:
  assumes "lawful_vectors V" "labels_printable labels w" "shows_counters labels w"
  shows "\<exists>w'. cache_do_metered V L labels ev op w = (Inr (fst (cache_do L ev op (md_cache w))), w') \<and>
    md_cache w' = snd (cache_do L ev op (md_cache w)) \<and> shows_counters labels w' \<and> labels_printable labels w'"
proof -
  obtain d t where w: "w = \<lparr>md_cache = d, md_meters = t\<rparr>" by (cases w)
  note calls = metered_calls [OF assms(1) assms(2) [unfolded w]] act_map_def act_run
  note plain = cache_set_def cache_get_def cache_has_def cache_evicted_def cache_update_metrics_def count_lookup_def Let_def
  show ?thesis
  proof (cases "dc_metrics d")
    case None
    then show ?thesis
      by (cases op)
        (simp_all add: w metered_call_def act_map_def act_run cache_set_metered_def cache_get_metered_def cache_has_metered_def
          cache_evicted_metered_def update_metrics_metered_def plain shows_counters_def labels_printable_def split: prod.split)
  next
    case (Some m)
    with assms(2,3) w have shown: "shows_counters labels \<lparr>md_cache = d, md_meters = t\<rparr>"
      and printable: "list_all utf8_valid (extract_label_values m labels)" by (simp_all add: labels_printable_def)
    show ?thesis
    proof (cases op)
      case (OpSet k v ttl)
      with Some shown printable show ?thesis
        by (simp add: cache_set_metered_def calls w plain shows_counters_def labels_printable_def count_up_def)
    next
      case (OpGet k)
      obtain item c where get: "tl_get L k (dc_cache d) = (item, c)" by fastforce
      with OpGet Some shown printable show ?thesis
        by (cases item) (simp_all add: cache_get_metered_def calls w plain shows_counters_def
            labels_printable_def count_up_def)
    next
      case (OpHas k)
      with Some shown printable show ?thesis
        by (cases "tl_has L k (dc_cache d)") (simp_all add: cache_has_metered_def calls w plain
            shows_counters_def labels_printable_def count_up_def)
    next
      case (OpEvict item)
      with Some shown printable show ?thesis
        by (simp add: cache_evicted_metered_def calls w plain shows_counters_def labels_printable_def count_up_def)
    next
      case OpUpdate
      with Some shown printable show ?thesis
        by (simp add: update_metrics_metered_def calls w plain shows_counters_def labels_printable_def gauge_to_def)
    qed
  qed
qed

fun cache_run :: "('c, 'k, 'v) ttl_lib \<Rightarrow> bool \<Rightarrow> ('k, 'v) cache_op list \<Rightarrow> 'c dup_cache \<Rightarrow> ('k, 'v) cache_result list \<times> 'c dup_cache" where
  "cache_run L ev [] d = ([], d)"
| "cache_run L ev (op # ops) d =
     (case cache_do L ev op d of (x, d1) \<Rightarrow> (case cache_run L ev ops d1 of (xs, d2) \<Rightarrow> (x # xs, d2)))"

fun cache_run_metered ::
  "vec_lib \<Rightarrow> ('c, 'k, 'v) ttl_lib \<Rightarrow> (string \<rightharpoonup> string) \<Rightarrow> bool \<Rightarrow> ('k, 'v) cache_op list \<Rightarrow>
     (('c, 'f) metered_cache, fault, ('k, 'v) cache_result list) act" where
  "cache_run_metered V L labels ev [] = act_return []"
| "cache_run_metered V L labels ev (op # ops) =
     act_bind (cache_do_metered V L labels ev op) (\<lambda>x. act_map (\<lambda>xs. x # xs) (cache_run_metered V L labels ev ops))"

lemma cache_run_agrees:
  assumes "lawful_vectors V" "labels_printable labels w" "shows_counters labels w"
  shows "\<exists>w'. cache_run_metered V L labels ev ops w = (Inr (fst (cache_run L ev ops (md_cache w))), w') \<and>
    md_cache w' = snd (cache_run L ev ops (md_cache w)) \<and> shows_counters labels w'"
  using assms(2,3)
proof (induction ops arbitrary: w)
  case Nil
  then show ?case by simp
next
  case (Cons op ops)
  from cache_do_agrees [OF assms(1) Cons.prems, of L ev op] obtain w1 where
    w1: "cache_do_metered V L labels ev op w = (Inr (fst (cache_do L ev op (md_cache w))), w1)"
      "md_cache w1 = snd (cache_do L ev op (md_cache w))" "shows_counters labels w1" "labels_printable labels w1"
    by blast
  from Cons.IH [OF w1(4,3)] obtain w2 where
    w2: "cache_run_metered V L labels ev ops w1 = (Inr (fst (cache_run L ev ops (md_cache w1))), w2)"
      "md_cache w2 = snd (cache_run L ev ops (md_cache w1))" "shows_counters labels w2" by blast
  then show ?case
    by (auto simp: act_run act_map_def w1(1,2) split_beta)
qed

text \<open>
  on a new cache, with metrics or without, any operations return what they return without metrics, and the
  series of the instance show the insertions, hits, misses and evictions there were and the size at the last
  update, as long as the label values of the instance are UTF-8.
\<close>

theorem metered_cache_agrees:
  assumes "lawful_vectors V" "labels_printable labels w" "w = \<lparr>md_cache = fst (new_duplicate_cache R c0 metrics r), md_meters = new_meters\<rparr>"
  shows "\<exists>w'. cache_run_metered V L labels ev ops w = (Inr (fst (cache_run L ev ops (md_cache w))), w') \<and>
    md_cache w' = snd (cache_run L ev ops (md_cache w)) \<and> shows_counters labels w'"
proof -
  have "shows_counters labels w"
    by (simp add: assms(3) shows_counters_def new_duplicate_cache_def new_meters_def Let_def split: option.split prod.split)
  with assms(1,2) show ?thesis by (rule cache_run_agrees)
qed

text \<open>With a label value that is not UTF-8 every lookup and every insertion panics, after it has been made.\<close>

lemma metered_cache_panics:
  assumes "lawful_vectors V" "dc_metrics (md_cache w) = Some m" "\<not> list_all utf8_valid (extract_label_values m labels)"
  shows "panics (fst (cache_set_metered V L labels k v ttl w))" "panics (fst (cache_get_metered V L labels k w))"
    "dc_cache (md_cache (snd (cache_set_metered V L labels k v [] w))) = tl_set L k v DefaultTTL (dc_cache (md_cache w))"
proof -
  have bad: "\<exists>e. with_label_values V (\<lambda>_. cm_labels m) x (extract_label_values m labels) g t = (Inl (Panic e), t)" for x g t
    using assms(1,3) unfolding with_label_values_def lawful_vectors_def
    by (cases "V (cm_labels m) (extract_label_values m labels)") auto
  note calls = inc_insertions_def inc_hits_def inc_misses_def
  show "panics (fst (cache_set_metered V L labels k v ttl w))"
    using bad [of CacheInsertions "count_up CacheInsertions (extract_label_values m labels)" "md_meters w"]
    by (auto simp: cache_set_metered_def metered_call_def assms(2) calls)
  show "dc_cache (md_cache (snd (cache_set_metered V L labels k v [] w))) = tl_set L k v DefaultTTL (dc_cache (md_cache w))"
    using bad [of CacheInsertions "count_up CacheInsertions (extract_label_values m labels)" "md_meters w"]
    by (auto simp: cache_set_metered_def metered_call_def assms(2) calls)
  show "panics (fst (cache_get_metered V L labels k w))"
    using bad [of CacheHits "count_up CacheHits (extract_label_values m labels)" "md_meters w"]
      bad [of CacheMisses "count_up CacheMisses (extract_label_values m labels)" "md_meters w"]
    by (auto simp: cache_get_metered_def metered_call_def assms(2) calls split: prod.split)
qed

text \<open>A TTL cache that never expires, as an association list.\<close>

definition alist_ttl :: "((nat \<times> nat) list, nat, nat) ttl_lib" where
  "alist_ttl = \<lparr>tl_set = (\<lambda>k v _ c. (k, v) # c), tl_get = (\<lambda>k c. (map_of c k, c)), tl_has = (\<lambda>k c. map_of c k \<noteq> None),
     tl_len = length\<rparr>"

lemma metered_cache_agrees_witness:
  "\<exists>w' :: ((nat \<times> nat) list, nat) metered_cache. dc_hits (md_cache w') = 1 \<and> dc_misses (md_cache w') = 1 \<and>
     mt_count (md_meters w') CacheHits [''eu''] = 1 \<and> mt_count (md_meters w') CacheInsertions [''eu''] = 1"
proof -
  let ?cfg = "\<lparr>mc_namespace = ''ns'', mc_subsystem = [], mc_const_labels = [], mc_instance_labels = [''region'' \<mapsto> ''eu'']\<rparr>"
  let ?m = "fst (snd (register_metrics demo_registerer (new_cache_metrics [''region''] ?cfg) []))"
  let ?w = "\<lparr>md_cache = fst (new_duplicate_cache demo_registerer [] (Some ([''region''], ?cfg)) []), md_meters = new_meters\<rparr>
    :: ((nat \<times> nat) list, nat) metered_cache"
  let ?labels = "[''region'' \<mapsto> ''eu'']" and ?ops = "[OpSet 1 7 [], OpGet 1, OpHas 2] :: (nat, nat) cache_op list"
  define m where "m = ?m"
  then have "dc_metrics (md_cache ?w) = Some m" by (simp add: new_duplicate_cache_def Let_def split: prod.split)
  moreover have "cm_labels m = [''region'']"
    by (simp add: m_def register_metrics_def new_cache_metrics_def Let_def split: prod.split option.split)
  ultimately have m: "dc_metrics (md_cache ?w) = Some m" "cm_labels m = [''region'']" by blast+
  from m(2) have vals: "extract_label_values m ?labels = [''eu'']" by (simp add: extract_label_values_def)
  have "ascii ''eu''" by (simp add: ascii_def)
  with m vals have "labels_printable ?labels ?w" by (simp add: labels_printable_def utf8_valid_ascii)
  from metered_cache_agrees [OF demo_vectors_lawful this refl, of alist_ttl False ?ops]
  obtain w' :: "((nat \<times> nat) list, nat) metered_cache" where w': "md_cache w' = snd (cache_run alist_ttl False ?ops (md_cache ?w))" "shows_counters ?labels w'" by blast
  have counts: "dc_hits (md_cache w') = 1" "dc_misses (md_cache w') = 1" "dc_insertions (md_cache w') = 1"
    "dc_metrics (md_cache w') = Some m"
    using m(1) by (simp_all add: w'(1) alist_ttl_def cache_set_def cache_get_def cache_has_def count_lookup_def Let_def)
      (simp_all add: new_duplicate_cache_def Let_def split: prod.splits)
  with w'(2) vals have "mt_count (md_meters w') CacheHits [''eu''] = 1" "mt_count (md_meters w') CacheInsertions [''eu''] = 1"
    by (simp_all add: shows_counters_def Let_def)
  with counts show ?thesis by blast
qed

end
